theory Spec2Isabelle
  imports Main "HOL-Library.Sublist"
begin

section \<open>Strings of the JavaScript runtime\<close>

text \<open>
  A JavaScript string is a sequence of code units. The embedding uses \<^typ>\<open>string\<close>:
  a \<^typ>\<open>char\<close> stands for the code unit with the same number, so the strings modelled
  are those whose code units lie below 0x100 (ASCII and the Latin-1 block). The library
  functions below are the ECMAScript ones restricted to that range.
\<close>

definition isWhiteSpace :: "char \<Rightarrow> bool" where
  \<comment> \<open>WhiteSpace and LineTerminator below 0x100: TAB, LF, VT, FF, CR, SP, NBSP.
      It is what \<open>trim\<close> strips and what \<open>\s\<close> matches.\<close>
  "isWhiteSpace c = (of_char c \<in> {9, 10, 11, 12, 13, 32, 160 :: nat})"

definition trim :: "string \<Rightarrow> string" where
  "trim s = rev (dropWhile isWhiteSpace (rev (dropWhile isWhiteSpace s)))"

definition lowerChar :: "char \<Rightarrow> char" where
  \<comment> \<open>A-Z, and the Latin-1 capitals U+00C0..U+00DE except the multiplication sign.\<close>
  "lowerChar c =
     (let n = (of_char c :: nat)
      in if (65 \<le> n \<and> n \<le> 90) \<or> (192 \<le> n \<and> n \<le> 222 \<and> n \<noteq> 215)
         then char_of (n + 32) else c)"

definition toLowerCase :: "string \<Rightarrow> string" where
  "toLowerCase s = map lowerChar s"

definition startsWith :: "string \<Rightarrow> string \<Rightarrow> bool" where
  "startsWith s p = (take (length p) s = p)"

fun includesStr :: "string \<Rightarrow> string \<Rightarrow> bool" where
  \<comment> \<open>\<open>s.includes(sub)\<close>: \<open>sub\<close> occurs in \<open>s\<close> as a contiguous run.\<close>
  "includesStr [] sub = (sub = [])"
| "includesStr (c # cs) sub = (startsWith (c # cs) sub \<or> includesStr cs sub)"

definition slice :: "string \<Rightarrow> nat \<Rightarrow> string" where
  \<comment> \<open>\<open>s.slice(n)\<close> for a non-negative \<open>n\<close>.\<close>
  "slice s n = drop n s"

fun splitLinesFrom :: "string \<Rightarrow> string \<Rightarrow> string list" where
  "splitLinesFrom acc [] = [rev acc]"
| "splitLinesFrom acc (c # cs) =
     (if c = CHR 0x0A then rev acc # splitLinesFrom [] cs
      else if c = CHR 0x0D \<and> (case cs of d # _ \<Rightarrow> d = CHR 0x0A | [] \<Rightarrow> False)
        then rev acc # splitLinesFrom [] (tl cs)
      else splitLinesFrom (c # acc) cs)"

definition splitLines :: "string \<Rightarrow> string list" where
  \<comment> \<open>\<open>s.split(/\r?\n/)\<close>\<close>
  "splitLines s = splitLinesFrom [] s"

fun joinWith :: "string \<Rightarrow> string list \<Rightarrow> string" where
  \<comment> \<open>\<open>xs.join(sep)\<close>\<close>
  "joinWith sep [] = []"
| "joinWith sep [x] = x"
| "joinWith sep (x # y # ys) = x @ sep @ joinWith sep (y # ys)"

fun indexOf :: "'a list \<Rightarrow> 'a \<Rightarrow> nat" where
  \<comment> \<open>\<open>list.indexOf(x)\<close> for an \<open>x\<close> that occurs in the list (the only use made of it).\<close>
  "indexOf [] x = 0"
| "indexOf (y # ys) x = (if y = x then 0 else Suc (indexOf ys x))"


section \<open>The regular expressions of the runtime\<close>

text \<open>
  A compiled \<open>RegExp\<close> object: its \<open>source\<close> and \<open>flags\<close> properties, and what
  \<open>test\<close> answers on a subject when \<open>lastIndex\<close> is 0 (the blocklist loop sets
  \<open>lastIndex = 0\<close> before every test, so the sticky and global flags start from the
  beginning too).

  The constructor \<open>new RegExp(pattern, flags)\<close> on a pattern written by the administrator
  is the ECMAScript engine, which is not code of this repository: it is a parameter of the
  model, of type \<open>RegExpCtor\<close>. \<open>None\<close> is the \<open>SyntaxError\<close> thrown on an invalid
  pattern.
\<close>

record RegExp =
  re_source :: string
  re_flags :: string
  re_test :: "string \<Rightarrow> bool"

type_synonym RegExpCtor = "string \<Rightarrow> string \<Rightarrow> RegExp option"

definition backslash :: char where
  "backslash = CHR 0x5C"

definition isLetter :: "char \<Rightarrow> bool" where
  \<comment> \<open>\<open>\p{L}\<close> below 0x100\<close>
  "isLetter c =
     (let n = (of_char c :: nat)
      in (65 \<le> n \<and> n \<le> 90) \<or> (97 \<le> n \<and> n \<le> 122) \<or> n = 170 \<or> n = 181 \<or> n = 186
         \<or> (192 \<le> n \<and> n \<le> 214) \<or> (216 \<le> n \<and> n \<le> 246) \<or> (248 \<le> n \<and> n \<le> 255))"

definition isNumber :: "char \<Rightarrow> bool" where
  \<comment> \<open>\<open>\p{N}\<close> below 0x100\<close>
  "isNumber c =
     (let n = (of_char c :: nat)
      in (48 \<le> n \<and> n \<le> 57) \<or> n = 178 \<or> n = 179 \<or> n = 185 \<or> (188 \<le> n \<and> n \<le> 190))"

definition wordChar :: "char \<Rightarrow> bool" where
  \<comment> \<open>the class \<open>[\p{L}\p{N}_]\<close>\<close>
  "wordChar c = (isLetter c \<or> isNumber c \<or> c = CHR ''_'')"

definition matchesHere :: "string \<Rightarrow> string \<Rightarrow> bool" where
  \<comment> \<open>The literal, compared without regard to case, is at the head of the subject, and
      the lookahead \<open>(?=$|[^\p{L}\p{N}_])\<close> holds after it.\<close>
  "matchesHere lit s =
     (length lit \<le> length s \<and>
      toLowerCase (take (length lit) s) = toLowerCase lit \<and>
      (case drop (length lit) s of [] \<Rightarrow> True | c # _ \<Rightarrow> \<not> wordChar c))"

fun wordScan :: "string \<Rightarrow> bool \<Rightarrow> string \<Rightarrow> bool" where
  \<comment> \<open>The search for a match over the start positions. The flag says whether the group
      \<open>(?:^|[^\p{L}\p{N}_])\<close> can end here: at the start of the input, or after one
      character outside the class.\<close>
  "wordScan lit b [] = (b \<and> matchesHere lit [])"
| "wordScan lit b (c # cs) = ((b \<and> matchesHere lit (c # cs)) \<or> wordScan lit (\<not> wordChar c) cs)"

definition wordBoundaryTest :: "string \<Rightarrow> string \<Rightarrow> bool" where
  "wordBoundaryTest lit s = wordScan lit True s"

section \<open>The blocklist matcher (src/lib/prompt-blocklist-core.ts)\<close>

definition PROMPT_BLOCKED_ERROR_PREFIX :: string where
  "PROMPT_BLOCKED_ERROR_PREFIX = ''Prompt blocked by safety policy''"

definition WORD_PREFIX :: string where
  "WORD_PREFIX = ''word:''"

definition SUBSTRING_PREFIX :: string where
  "SUBSTRING_PREFIX = ''substr:''"

definition REGEX_PREFIXES :: "string list" where
  "REGEX_PREFIXES = [''re:'', ''regex:'']"

record PromptBlocklistConfig =
  blocklistEnabled :: "bool option"
  blocklistWords :: "string option"

datatype BlocklistRule =
    WordRule (rule_raw: string) (rule_value: string) (rule_regex: RegExp)
  | SubstringRule (rule_raw: string) (rule_value: string)
  | RegexRule (rule_raw: string) (rule_value: string) (rule_regex: RegExp)

datatype error = Error (message: string)

definition normalizeText :: "string \<Rightarrow> string" where
  "normalizeText v = toLowerCase (trim v)"

definition regexSpecial :: "char \<Rightarrow> bool" where
  \<comment> \<open>the class \<open>[.*+?^${}()|[\]\\]\<close>\<close>
  "regexSpecial c = (c \<in> set ''.*+?^${}()|[]'' \<or> c = backslash)"

definition escapeRegExp :: "string \<Rightarrow> string" where
  "escapeRegExp v = concat (map (\<lambda>c. if regexSpecial c then [backslash, c] else [c]) v)"

fun patternLiteral :: "string \<Rightarrow> string" where
  \<comment> \<open>The characters an escaped text stands for when it is read as a pattern: \<open>\c\<close>
      is the character \<open>c\<close>, every other character is itself.\<close>
  "patternLiteral [] = []"
| "patternLiteral [c] = [c]"
| "patternLiteral (c # d # cs) =
     (if c = backslash then d # patternLiteral cs else c # patternLiteral (d # cs))"

definition buildWordBoundaryRegex :: "string \<Rightarrow> RegExp" where
  \<comment> \<open>\<open>new RegExp(`(?:^|[^\p{L}\p{N}_])${escaped}(?=$|[^\p{L}\p{N}_])`, 'iu')\<close>.
      Every syntax character of the value is escaped, so the pattern is always valid and
      its middle part is a literal.\<close>
  "buildWordBoundaryRegex v =
     (let escaped = escapeRegExp (trim v)
      in \<lparr> re_source = ''(?:^|[^'' @ [backslash] @ ''p{L}'' @ [backslash] @ ''p{N}_])'' @ escaped
                        @ ''(?=$|[^'' @ [backslash] @ ''p{L}'' @ [backslash] @ ''p{N}_])'',
           re_flags = ''iu'',
           re_test = wordBoundaryTest (patternLiteral escaped) \<rparr>)"

definition buildRegexRule :: "RegExpCtor \<Rightarrow> string \<Rightarrow> string \<Rightarrow> string \<Rightarrow> BlocklistRule option" where
  "buildRegexRule ctor raw pattern flags =
     (let cleanedPattern = trim pattern
      in if cleanedPattern = [] then None
         else
           let list = (if flags = [] then ''iu'' else flags);
               uniqueFlags =
                 filter (\<lambda>flag. flag \<in> set ''gimsuyd'')
                   (map fst (filter (\<lambda>(flag, index). indexOf list flag = index)
                                    (zip list [0 ..< length list])));
               finalFlags = (if CHR ''u'' \<in> set uniqueFlags then uniqueFlags else uniqueFlags @ ''u'')
           in case ctor cleanedPattern finalFlags of
                None \<Rightarrow> None
              | Some regex \<Rightarrow> Some (RegexRule raw cleanedPattern regex))"

definition isAsciiLetter :: "char \<Rightarrow> bool" where
  \<comment> \<open>the class \<open>[a-z]\<close> under the flag \<open>i\<close>\<close>
  "isAsciiLetter c =
     (let n = (of_char c :: nat) in (65 \<le> n \<and> n \<le> 90) \<or> (97 \<le> n \<and> n \<le> 122))"

definition isLineTerminator :: "char \<Rightarrow> bool" where
  \<comment> \<open>what \<open>.\<close> does not match\<close>
  "isLineTerminator c = (c = CHR 0x0A \<or> c = CHR 0x0D)"

definition literalMatch :: "string \<Rightarrow> (string \<times> string) option" where
  \<comment> \<open>\<open>s.match(/^\/(.*)\/([a-z]*)$/i)\<close>, as the two groups. The second group holds no
      slash, so the slash before it is the last one of the text.\<close>
  "literalMatch s =
     (case s of
        [] \<Rightarrow> None
      | c # rest \<Rightarrow>
          if c \<noteq> CHR ''/'' \<or> CHR ''/'' \<notin> set rest then None
          else
            let fl = rev (takeWhile (\<lambda>d. d \<noteq> CHR ''/'') (rev rest));
                body = take (length rest - length fl - 1) rest
            in if (\<forall>d \<in> set fl. isAsciiLetter d) \<and> (\<forall>d \<in> set body. \<not> isLineTerminator d)
               then Some (body, fl) else None)"

fun parseRegexPrefixed :: "RegExpCtor \<Rightarrow> string \<Rightarrow> string \<Rightarrow> string list \<Rightarrow> BlocklistRule option option" where
  \<comment> \<open>The loop over \<open>REGEX_PREFIXES\<close>: \<open>None\<close> when it ends without returning.\<close>
  "parseRegexPrefixed ctor raw lower [] = None"
| "parseRegexPrefixed ctor raw lower (p # ps) =
     (if startsWith lower p then
        (let rest = trim (slice raw (length p))
         in if rest = [] then Some None
            else case literalMatch rest of
                   Some (pattern, flags) \<Rightarrow> Some (buildRegexRule ctor raw pattern flags)
                 | None \<Rightarrow> Some (buildRegexRule ctor raw rest ''iu''))
      else parseRegexPrefixed ctor raw lower ps)"

definition parseRule :: "RegExpCtor \<Rightarrow> string \<Rightarrow> BlocklistRule option" where
  "parseRule ctor line =
     (let raw = trim line
      in if raw = [] then None
         else
           let lower = toLowerCase raw
           in if startsWith lower SUBSTRING_PREFIX then
                (let v = trim (slice raw (length SUBSTRING_PREFIX))
                 in if v = [] then None else Some (SubstringRule raw v))
              else if startsWith lower WORD_PREFIX then
                (let v = trim (slice raw (length WORD_PREFIX))
                 in if v = [] then None else Some (WordRule raw v (buildWordBoundaryRegex v)))
              else
                case parseRegexPrefixed ctor raw lower REGEX_PREFIXES of
                  Some result \<Rightarrow> result
                | None \<Rightarrow>
                    (case literalMatch raw of
                       Some (p, f) \<Rightarrow> buildRegexRule ctor raw p f
                     | None \<Rightarrow> Some (WordRule raw raw (buildWordBoundaryRegex raw))))"

definition parseBlocklistWords :: "string \<Rightarrow> string list" where
  "parseBlocklistWords raw = filter (\<lambda>line. length line > 0) (map trim (splitLines raw))"

fun matchRules :: "string \<Rightarrow> string \<Rightarrow> BlocklistRule list \<Rightarrow> string set \<Rightarrow> string list \<Rightarrow> string list" where
  \<comment> \<open>The \<open>for (const rule of rules)\<close> loop, with its two variables \<open>seen\<close> and
      \<open>matched\<close>.\<close>
  "matchRules prompt normalizedPrompt [] seen matched = matched"
| "matchRules prompt normalizedPrompt (rule # rules) seen matched =
     (let identity = normalizeText (rule_raw rule)
      in if identity = [] \<or> identity \<in> seen then
           matchRules prompt normalizedPrompt rules seen matched
         else
           case rule of
             SubstringRule raw v \<Rightarrow>
               if includesStr normalizedPrompt (normalizeText v)
               then matchRules prompt normalizedPrompt rules (insert identity seen) (matched @ [raw])
               else matchRules prompt normalizedPrompt rules seen matched
           | _ \<Rightarrow>
               if re_test (rule_regex rule) prompt
               then matchRules prompt normalizedPrompt rules (insert identity seen) (matched @ [rule_raw rule])
               else matchRules prompt normalizedPrompt rules seen matched)"

definition findBlockedWords :: "RegExpCtor \<Rightarrow> string \<Rightarrow> string \<Rightarrow> string list" where
  "findBlockedWords ctor prompt rawWords =
     (let normalizedPrompt = normalizeText prompt
      in if normalizedPrompt = [] then []
         else
           let rules = List.map_filter (parseRule ctor) (parseBlocklistWords rawWords)
           in matchRules prompt normalizedPrompt rules {} [])"

definition buildPromptBlockedMessage :: "string list \<Rightarrow> string" where
  "buildPromptBlockedMessage matchedWords =
     PROMPT_BLOCKED_ERROR_PREFIX @ '': '' @ joinWith '', '' matchedWords"

definition assertPromptAllowedWithConfig :: "RegExpCtor \<Rightarrow> string \<Rightarrow> PromptBlocklistConfig \<Rightarrow> error + unit" where
  "assertPromptAllowedWithConfig ctor prompt config =
     (if blocklistEnabled config \<noteq> Some True then Inr ()
      else
        let matchedWords =
              findBlockedWords ctor prompt (case blocklistWords config of None \<Rightarrow> [] | Some w \<Rightarrow> w)
        in if length matchedWords > 0 then Inl (Error (buildPromptBlockedMessage matchedWords))
           else Inr ())"

definition isPromptBlockedError :: "error \<Rightarrow> bool" where
  "isPromptBlockedError e = startsWith (message e) PROMPT_BLOCKED_ERROR_PREFIX"


subsection \<open>What the matcher is specified to return\<close>

text \<open>
  The specification's words for the result of \<open>findBlockedWords\<close>: the matched raw rule
  lines, in the order of their first occurrence, de-duplicated by normalized text. These
  definitions follow that sentence; the theorems compare them with the loop above.
\<close>

fun firstOccurrences :: "('a \<Rightarrow> 'k) \<Rightarrow> 'a list \<Rightarrow> 'a list" where
  \<comment> \<open>each key once, at its first occurrence\<close>
  "firstOccurrences key [] = []"
| "firstOccurrences key (x # xs) = x # firstOccurrences key (filter (\<lambda>y. key y \<noteq> key x) xs)"

definition ruleMatches :: "string \<Rightarrow> BlocklistRule \<Rightarrow> bool" where
  "ruleMatches prompt rule =
     (case rule of
        SubstringRule raw v \<Rightarrow> includesStr (normalizeText prompt) (normalizeText v)
      | _ \<Rightarrow> re_test (rule_regex rule) prompt)"

definition lineMatches :: "RegExpCtor \<Rightarrow> string \<Rightarrow> string \<Rightarrow> bool" where
  "lineMatches ctor prompt line =
     (case parseRule ctor line of None \<Rightarrow> False | Some rule \<Rightarrow> ruleMatches prompt rule)"

definition matchedLines :: "RegExpCtor \<Rightarrow> string \<Rightarrow> string \<Rightarrow> string list" where
  "matchedLines ctor prompt rawWords =
     firstOccurrences normalizeText (filter (lineMatches ctor prompt) (parseBlocklistWords rawWords))"

subsection \<open>Instances of the constructor\<close>

definition literalRegExp :: RegExpCtor where
  \<comment> \<open>A constructor that knows the patterns without syntax characters only, and compiles
      them as ECMAScript does: the pattern is a literal, searched from the start (or, with
      the sticky flag, required at the start), without regard to case under the flag \<open>i\<close>.
      It rejects every other pattern, among them the invalid ones such as \<open>(\<close>.\<close>
  "literalRegExp pattern flags =
     (if \<exists>c \<in> set pattern. regexSpecial c then None
      else Some \<lparr> re_source = pattern, re_flags = flags,
                  re_test = (\<lambda>s.
                    let subject = (if CHR ''i'' \<in> set flags then toLowerCase s else s);
                        lit = (if CHR ''i'' \<in> set flags then toLowerCase pattern else pattern)
                    in if CHR ''y'' \<in> set flags then startsWith subject lit
                       else includesStr subject lit) \<rparr>)"

definition recordingRegExp :: RegExpCtor where
  \<comment> \<open>A constructor that accepts every pattern and keeps its two arguments: it shows what
      \<open>parseRule\<close> hands to \<open>new RegExp\<close>.\<close>
  "recordingRegExp pattern flags =
     Some \<lparr> re_source = pattern, re_flags = flags, re_test = (\<lambda>s. False) \<rparr>"

definition regexRequest :: "string \<Rightarrow> (string \<times> string) option" where
  \<comment> \<open>The pattern and the flags that \<open>parseRule\<close> passes to \<open>new RegExp\<close> for this line,
      when the line is a regular-expression rule.\<close>
  "regexRequest line =
     (case parseRule recordingRegExp line of
        Some (RegexRule raw v regex) \<Rightarrow> Some (re_source regex, re_flags regex)
      | _ \<Rightarrow> None)"

section \<open>JSON values and \<open>JSON.parse\<close>\<close>

text \<open>
  A parsed JSON value. No code modelled here reads the value of a number, so a number keeps
  the text it was written with. An object keeps its members in the order of the text;
  reading a property takes the last member of that name, as \<open>JSON.parse\<close> lets a repeated
  name overwrite the earlier one. JavaScript's \<open>undefined\<close> is \<open>None\<close> in \<open>json option\<close>.
\<close>

datatype json =
    JNull
  | JBool bool
  | JNum string
  | JStr string
  | JArr "json list"
  | JObj "(string \<times> json) list"

definition getProp :: "json option \<Rightarrow> string \<Rightarrow> json option" where
  \<comment> \<open>\<open>x?.key\<close>, for the property names used by the code modelled here: none of them is
      a property of an array, a string, a number or a boolean.\<close>
  "getProp x key = (case x of Some (JObj members) \<Rightarrow> map_of (rev members) key | _ \<Rightarrow> None)"

definition getFirst :: "json option \<Rightarrow> json option" where
  \<comment> \<open>\<open>x?.[0]\<close>\<close>
  "getFirst x =
     (case x of
        Some (JArr (v # _)) \<Rightarrow> Some v
      | Some (JStr (c # _)) \<Rightarrow> Some (JStr [c])
      | Some (JObj members) \<Rightarrow> map_of (rev members) ''0''
      | _ \<Rightarrow> None)"

subsection \<open>The lexer\<close>

datatype token =
    TLBrace | TRBrace | TLBracket | TRBracket | TColon | TComma
  | TString string | TNumber string | TTrue | TFalse | TNull

definition doubleQuote :: char where
  "doubleQuote = CHR 0x22"

definition singleQuote :: char where
  "singleQuote = CHR 0x27"

definition isDigit :: "char \<Rightarrow> bool" where
  \<comment> \<open>the class \<open>\d\<close>\<close>
  "isDigit c = (let n = (of_char c :: nat) in 48 \<le> n \<and> n \<le> 57)"

definition jsonExponent :: "string \<Rightarrow> bool" where
  "jsonExponent s =
     (case s of
        [] \<Rightarrow> True
      | e # r \<Rightarrow>
          (e = CHR ''e'' \<or> e = CHR ''E'') \<and>
          (let ds = (case r of d # r' \<Rightarrow> if d = CHR ''+'' \<or> d = CHR ''-'' then r' else r | [] \<Rightarrow> r)
           in ds \<noteq> [] \<and> (\<forall>d \<in> set ds. isDigit d)))"

definition jsonFraction :: "string \<Rightarrow> bool" where
  "jsonFraction s =
     (case s of
        [] \<Rightarrow> True
      | c # r \<Rightarrow>
          if c = CHR ''.'' then takeWhile isDigit r \<noteq> [] \<and> jsonExponent (dropWhile isDigit r)
          else jsonExponent s)"

definition jsonNumber :: "string \<Rightarrow> bool" where
  \<comment> \<open>the grammar of a JSON number: \<open>-?(0|[1-9][0-9]*)(\.[0-9]+)?([eE][+-]?[0-9]+)?\<close>\<close>
  "jsonNumber s =
     (let u = (case s of c # r \<Rightarrow> if c = CHR ''-'' then r else s | [] \<Rightarrow> s)
      in case u of
           [] \<Rightarrow> False
         | d # r \<Rightarrow>
             if d = CHR ''0'' then jsonFraction r
             else isDigit d \<and> jsonFraction (dropWhile isDigit r))"

definition classifyWord :: "string \<Rightarrow> token option" where
  "classifyWord w =
     (if w = ''true'' then Some TTrue
      else if w = ''false'' then Some TFalse
      else if w = ''null'' then Some TNull
      else if jsonNumber w then Some (TNumber w)
      else None)"

definition isWordChar :: "char \<Rightarrow> bool" where
  \<comment> \<open>the characters of the literals and of the numbers\<close>
  "isWordChar c = (isDigit c \<or> isAsciiLetter c \<or> c = CHR ''-'' \<or> c = CHR ''+'' \<or> c = CHR ''.'')"

datatype lexmode =
    Between
  | InWord string
  | InString string
  | InEscape string
  | InUnicode string nat nat

definition startToken :: "char \<Rightarrow> (token list \<times> lexmode) option" where
  \<comment> \<open>a character met between two tokens\<close>
  "startToken c =
     (if of_char c \<in> {9, 10, 13, 32 :: nat} then Some ([], Between)
      else if c = CHR ''{'' then Some ([TLBrace], Between)
      else if c = CHR ''}'' then Some ([TRBrace], Between)
      else if c = CHR ''['' then Some ([TLBracket], Between)
      else if c = CHR '']'' then Some ([TRBracket], Between)
      else if c = CHR '':'' then Some ([TColon], Between)
      else if c = CHR '','' then Some ([TComma], Between)
      else if c = doubleQuote then Some ([], InString [])
      else if isWordChar c then Some ([], InWord [c])
      else None)"

definition escapeChar :: "char \<Rightarrow> char option" where
  "escapeChar c =
     (if c = doubleQuote \<or> c = backslash \<or> c = CHR ''/'' then Some c
      else if c = CHR ''b'' then Some (CHR 0x08)
      else if c = CHR ''f'' then Some (CHR 0x0C)
      else if c = CHR ''n'' then Some (CHR 0x0A)
      else if c = CHR ''r'' then Some (CHR 0x0D)
      else if c = CHR ''t'' then Some (CHR 0x09)
      else None)"

definition hexValue :: "char \<Rightarrow> nat option" where
  "hexValue c =
     (let n = (of_char c :: nat)
      in if 48 \<le> n \<and> n \<le> 57 then Some (n - 48)
         else if 65 \<le> n \<and> n \<le> 70 then Some (n - 55)
         else if 97 \<le> n \<and> n \<le> 102 then Some (n - 87)
         else None)"

fun lexJson :: "lexmode \<Rightarrow> token list \<Rightarrow> string \<Rightarrow> token list option" where
  \<comment> \<open>The tokens are collected in reverse. An escape \<open>\uXXXX\<close> of a code unit from 0x100
      on leaves the strings modelled here: such a text is refused.\<close>
  "lexJson Between acc [] = Some (rev acc)"
| "lexJson (InWord w) acc [] =
     (case classifyWord (rev w) of None \<Rightarrow> None | Some t \<Rightarrow> Some (rev (t # acc)))"
| "lexJson (InString s) acc [] = None"
| "lexJson (InEscape s) acc [] = None"
| "lexJson (InUnicode s n v) acc [] = None"
| "lexJson Between acc (c # cs) =
     (case startToken c of None \<Rightarrow> None | Some (ts, m) \<Rightarrow> lexJson m (ts @ acc) cs)"
| "lexJson (InWord w) acc (c # cs) =
     (if isWordChar c then lexJson (InWord (c # w)) acc cs
      else case classifyWord (rev w) of
             None \<Rightarrow> None
           | Some t \<Rightarrow>
               (case startToken c of None \<Rightarrow> None | Some (ts, m) \<Rightarrow> lexJson m (ts @ t # acc) cs))"
| "lexJson (InString s) acc (c # cs) =
     (if c = doubleQuote then lexJson Between (TString (rev s) # acc) cs
      else if c = backslash then lexJson (InEscape s) acc cs
      else if (of_char c :: nat) < 32 then None
      else lexJson (InString (c # s)) acc cs)"
| "lexJson (InEscape s) acc (c # cs) =
     (if c = CHR ''u'' then lexJson (InUnicode s 4 0) acc cs
      else case escapeChar c of None \<Rightarrow> None | Some d \<Rightarrow> lexJson (InString (d # s)) acc cs)"
| "lexJson (InUnicode s n v) acc (c # cs) =
     (case hexValue c of
        None \<Rightarrow> None
      | Some h \<Rightarrow>
          (let v' = 16 * v + h
           in if n \<le> 1 then (if v' < 256 then lexJson (InString (char_of v' # s)) acc cs else None)
              else lexJson (InUnicode s (n - 1) v') acc cs))"

subsection \<open>The parser\<close>

datatype frame =
    FArr "json list"
  | FObj "(string \<times> json) list"
  | FMember "(string \<times> json) list" string

datatype pmode =
    PValue
  | PArrStart
  | PObjStart
  | PKey
  | PColon string
  | PAfterElem
  | PAfterMember
  | PDone json

fun complete :: "json \<Rightarrow> frame list \<Rightarrow> (pmode \<times> frame list) option" where
  \<comment> \<open>a value has been read: it is the whole text, an element, or the value of a member\<close>
  "complete v [] = Some (PDone v, [])"
| "complete v (FArr xs # st) = Some (PAfterElem, FArr (v # xs) # st)"
| "complete v (FMember ms k # st) = Some (PAfterMember, FObj ((k, v) # ms) # st)"
| "complete v (FObj ms # st) = None"

definition startValue :: "frame list \<Rightarrow> token \<Rightarrow> (pmode \<times> frame list) option" where
  "startValue st t =
     (case t of
        TString s \<Rightarrow> complete (JStr s) st
      | TNumber n \<Rightarrow> complete (JNum n) st
      | TTrue \<Rightarrow> complete (JBool True) st
      | TFalse \<Rightarrow> complete (JBool False) st
      | TNull \<Rightarrow> complete JNull st
      | TLBracket \<Rightarrow> Some (PArrStart, FArr [] # st)
      | TLBrace \<Rightarrow> Some (PObjStart, FObj [] # st)
      | _ \<Rightarrow> None)"

definition closeArray :: "frame list \<Rightarrow> (pmode \<times> frame list) option" where
  "closeArray st = (case st of FArr xs # st' \<Rightarrow> complete (JArr (rev xs)) st' | _ \<Rightarrow> None)"

definition closeObject :: "frame list \<Rightarrow> (pmode \<times> frame list) option" where
  "closeObject st = (case st of FObj ms # st' \<Rightarrow> complete (JObj (rev ms)) st' | _ \<Rightarrow> None)"

definition parseStep :: "pmode \<Rightarrow> frame list \<Rightarrow> token \<Rightarrow> (pmode \<times> frame list) option" where
  "parseStep m st t =
     (case m of
        PValue \<Rightarrow> startValue st t
      | PArrStart \<Rightarrow> (if t = TRBracket then closeArray st else startValue st t)
      | PObjStart \<Rightarrow>
          (case t of TString k \<Rightarrow> Some (PColon k, st) | TRBrace \<Rightarrow> closeObject st | _ \<Rightarrow> None)
      | PKey \<Rightarrow> (case t of TString k \<Rightarrow> Some (PColon k, st) | _ \<Rightarrow> None)
      | PColon k \<Rightarrow>
          (case (t, st) of (TColon, FObj ms # st') \<Rightarrow> Some (PValue, FMember ms k # st') | _ \<Rightarrow> None)
      | PAfterElem \<Rightarrow>
          (case t of TComma \<Rightarrow> Some (PValue, st) | TRBracket \<Rightarrow> closeArray st | _ \<Rightarrow> None)
      | PAfterMember \<Rightarrow>
          (case t of TComma \<Rightarrow> Some (PKey, st) | TRBrace \<Rightarrow> closeObject st | _ \<Rightarrow> None)
      | PDone v \<Rightarrow> None)"

fun parseTokens :: "pmode \<Rightarrow> frame list \<Rightarrow> token list \<Rightarrow> json option" where
  "parseTokens m st [] = (case m of PDone v \<Rightarrow> Some v | _ \<Rightarrow> None)"
| "parseTokens m st (t # ts) =
     (case parseStep m st t of None \<Rightarrow> None | Some (m', st') \<Rightarrow> parseTokens m' st' ts)"

definition JSON_parse :: "string \<Rightarrow> json option" where
  \<comment> \<open>\<open>JSON.parse(text)\<close>; \<open>None\<close> is the \<open>SyntaxError\<close>.\<close>
  "JSON_parse text =
     (case lexJson Between [] text of None \<Rightarrow> None | Some ts \<Rightarrow> parseTokens PValue [] ts)"

section \<open>The video channel adapter (the module of \<open>generateWithSora\<close>)\<close>

subsection \<open>The patterns of \<open>extractVideoUrlFromText\<close>\<close>

text \<open>
  Each pattern of the module is written as the search it stands for: the leftmost start
  position first and, at one start position, the choices in the order of the pattern
  (a greedy repetition gives back one character at a time). Under the flag \<open>i\<close> the
  letters of these patterns are ASCII, and a character matches one of them exactly when
  its lower case is that letter.
\<close>

definition startsWithCI :: "string \<Rightarrow> string \<Rightarrow> bool" where
  \<comment> \<open>the literal \<open>lit\<close>, given in lower case, at the head of \<open>s\<close> under the flag \<open>i\<close>\<close>
  "startsWithCI s lit = (toLowerCase (take (length lit) s) = lit)"

fun firstSome :: "('a \<Rightarrow> 'b option) \<Rightarrow> 'a list \<Rightarrow> 'b option" where
  "firstSome f [] = None"
| "firstSome f (x # xs) = (case f x of Some y \<Rightarrow> Some y | None \<Rightarrow> firstSome f xs)"

definition isQuote :: "char \<Rightarrow> bool" where
  \<comment> \<open>the class \<open>['"]\<close>\<close>
  "isQuote c = (c = singleQuote \<or> c = doubleQuote)"

definition quotedValue :: "string \<Rightarrow> string option" where
  \<comment> \<open>\<open>['"]([^'"]+)['"]\<close> at the head of \<open>s\<close>: the group\<close>
  "quotedValue s =
     (case s of
        [] \<Rightarrow> None
      | q # r \<Rightarrow>
          if \<not> isQuote q then None
          else
            let g = takeWhile (\<lambda>c. \<not> isQuote c) r
            in if g \<noteq> [] \<and> drop (length g) r \<noteq> [] then Some g else None)"

definition attrHere :: "string list \<Rightarrow> string \<Rightarrow> string option" where
  \<comment> \<open>\<open>\s(?:name1|name2)=['"]([^'"]+)['"]\<close> at the head of \<open>s\<close>\<close>
  "attrHere names s =
     (case s of
        [] \<Rightarrow> None
      | w # r \<Rightarrow>
          if \<not> isWhiteSpace w then None
          else firstSome
                 (\<lambda>name. if startsWithCI r (name @ ''='')
                          then quotedValue (drop (length name + 1) r) else None)
                 names)"

definition tagAttr :: "string \<Rightarrow> string list \<Rightarrow> string \<Rightarrow> string option" where
  \<comment> \<open>\<open>tag[^>]*\<close> and then the attribute, at the head of \<open>s\<close>: the greedy \<open>[^>]*\<close> takes
      the longest run first\<close>
  "tagAttr tag names s =
     (if startsWithCI s tag then
        (let rest = drop (length tag) s;
             n = length (takeWhile (\<lambda>c. c \<noteq> CHR ''>'') rest)
         in firstSome (\<lambda>k. attrHere names (drop k rest)) (rev [0 ..< Suc n]))
      else None)"

fun searchTagAttr :: "string \<Rightarrow> string list \<Rightarrow> string \<Rightarrow> string option" where
  "searchTagAttr tag names [] = None"
| "searchTagAttr tag names (c # cs) =
     (case tagAttr tag names (c # cs) of
        Some g \<Rightarrow> Some g
      | None \<Rightarrow> searchTagAttr tag names cs)"

definition htmlVideoMatch :: "string \<Rightarrow> string option" where
  \<comment> \<open>group 1 of \<open>/<video[^>]*\s(?:src|poster)=['"]([^'"]+)['"]/i\<close>\<close>
  "htmlVideoMatch s = searchTagAttr ''<video'' [''src'', ''poster''] s"

definition htmlSourceMatch :: "string \<Rightarrow> string option" where
  \<comment> \<open>group 1 of \<open>/<source[^>]*\ssrc=['"]([^'"]+)['"]/i\<close>\<close>
  "htmlSourceMatch s = searchTagAttr ''<source'' [''src''] s"

definition schemeLength :: "string \<Rightarrow> nat option" where
  \<comment> \<open>\<open>https?:\/\/\<close> at the head of \<open>s\<close> under the flag \<open>i\<close>: how many characters it takes\<close>
  "schemeLength s =
     (if startsWithCI s ''https://'' then Some 8
      else if startsWithCI s ''http://'' then Some 7
      else None)"

definition markdownHere :: "string \<Rightarrow> string option" where
  \<comment> \<open>\<open>!\[[^\]]*]\((https?:\/\/[^)]+)\)\<close> at the head of \<open>s\<close>: the group\<close>
  "markdownHere s =
     (if take 2 s = ''!['' then
        (let r = drop 2 s;
             r1 = drop (length (takeWhile (\<lambda>c. c \<noteq> CHR '']'') r)) r
         in if take 2 r1 = ''](''  then
              (let u = drop 2 r1
               in case schemeLength u of
                    None \<Rightarrow> None
                  | Some n \<Rightarrow>
                      let run = takeWhile (\<lambda>c. c \<noteq> CHR '')'') (drop n u)
                      in if run \<noteq> [] \<and> drop (n + length run) u \<noteq> []
                         then Some (take (n + length run) u) else None)
            else None)
      else None)"

fun markdownVideoMatch :: "string \<Rightarrow> string option" where
  \<comment> \<open>group 1 of \<open>/!\[[^\]]*]\((https?:\/\/[^)]+)\)/i\<close>\<close>
  "markdownVideoMatch [] = None"
| "markdownVideoMatch (c # cs) =
     (case markdownHere (c # cs) of Some g \<Rightarrow> Some g | None \<Rightarrow> markdownVideoMatch cs)"

definition urlChar :: "char \<Rightarrow> bool" where
  \<comment> \<open>the class \<open>[^\s"'<>`]\<close>\<close>
  "urlChar c =
     (\<not> isWhiteSpace c \<and> c \<noteq> doubleQuote \<and> c \<noteq> singleQuote \<and> c \<noteq> CHR ''<''
      \<and> c \<noteq> CHR ''>'' \<and> c \<noteq> CHR 0x60)"

definition urlHere :: "string \<Rightarrow> string option" where
  \<comment> \<open>\<open>https?:\/\/[^\s"'<>`]+\<close> at the head of \<open>s\<close>: the match\<close>
  "urlHere s =
     (case schemeLength s of
        None \<Rightarrow> None
      | Some n \<Rightarrow>
          let run = takeWhile urlChar (drop n s)
          in if run \<noteq> [] then Some (take n s @ run) else None)"

fun urlMatch :: "string \<Rightarrow> string option" where
  \<comment> \<open>match 0 of \<open>/https?:\/\/[^\s"'<>`]+/i\<close>: the first URL of the text\<close>
  "urlMatch [] = None"
| "urlMatch (c # cs) = (case urlHere (c # cs) of Some u \<Rightarrow> Some u | None \<Rightarrow> urlMatch cs)"

definition videoExtensionHere :: "string \<Rightarrow> bool" where
  \<comment> \<open>\<open>(\.mp4|\.mov|\.webm|\.mkv)(\?|#|$)\<close> at the head of \<open>s\<close>\<close>
  "videoExtensionHere s =
     (\<exists>ext \<in> set [''.mp4'', ''.mov'', ''.webm'', ''.mkv''].
        startsWith s ext \<and>
        (case drop (length ext) s of [] \<Rightarrow> True | c # _ \<Rightarrow> c = CHR ''?'' \<or> c = CHR ''#''))"

fun hasVideoExtension :: "string \<Rightarrow> bool" where
  \<comment> \<open>\<open>/(\.mp4|\.mov|\.webm|\.mkv)(\?|#|$)/.test(s)\<close>\<close>
  "hasVideoExtension [] = False"
| "hasVideoExtension (c # cs) = (videoExtensionHere (c # cs) \<or> hasVideoExtension cs)"

subsection \<open>Extracting the video URL\<close>

definition parseMediaJsonFromContent :: "string \<Rightarrow> (string \<times> string) option" where
  \<comment> \<open>The result is the pair of \<open>type\<close> and \<open>url\<close>. A value that is not an object, and an
      array (which has no property \<open>type\<close>), give \<open>null\<close>.\<close>
  "parseMediaJsonFromContent content =
     (case JSON_parse content of
        None \<Rightarrow> None
      | Some parsed \<Rightarrow>
          (case parsed of
             JObj members \<Rightarrow>
               (case (getProp (Some parsed) ''type'', getProp (Some parsed) ''url'') of
                  (Some (JStr t), Some (JStr u)) \<Rightarrow>
                    if (t = ''video'' \<or> t = ''image'') \<and> trim u \<noteq> [] then Some (t, trim u)
                    else None
                | _ \<Rightarrow> None)
           | _ \<Rightarrow> None))"

definition candidateOf :: "string option \<Rightarrow> string option" where
  \<comment> \<open>\<open>if (m?.[1]) { const candidate = m[1].trim(); if (candidate) return candidate; }\<close>:
      \<open>None\<close> when the step goes on to the next one\<close>
  "candidateOf m =
     (case m of
        None \<Rightarrow> None
      | Some g \<Rightarrow> if g \<noteq> [] \<and> trim g \<noteq> [] then Some (trim g) else None)"

definition extractVideoUrlFromText :: "string \<Rightarrow> string option" where
  "extractVideoUrlFromText content =
     (let trimmed = trim content
      in if trimmed = [] then None
         else
           case (case parseMediaJsonFromContent trimmed of
                   Some (t, u) \<Rightarrow> if t = ''video'' \<and> u \<noteq> [] then Some u else None
                 | None \<Rightarrow> None) of
             Some u \<Rightarrow> Some u
           | None \<Rightarrow>
           case candidateOf (htmlVideoMatch trimmed) of
             Some u \<Rightarrow> Some u
           | None \<Rightarrow>
           case candidateOf (htmlSourceMatch trimmed) of
             Some u \<Rightarrow> Some u
           | None \<Rightarrow>
           case candidateOf (markdownVideoMatch trimmed) of
             Some u \<Rightarrow> Some u
           | None \<Rightarrow>
           case urlMatch trimmed of
             None \<Rightarrow> None
           | Some m \<Rightarrow>
               if m = [] then None
               else
                 let candidate = trim m;
                     lower = toLowerCase candidate
                 in if hasVideoExtension lower then Some candidate
                    else if includesStr lower ''/video/'' then Some candidate
                    else if includesStr lower ''video'' then Some candidate
                    else Some candidate)"

subsection \<open>Model names and cost\<close>

definition orElse :: "string \<Rightarrow> string \<Rightarrow> string" where
  \<comment> \<open>\<open>a || b\<close> on optional strings: an absent string and the empty one are both falsy,
      and the code reads these fields in no other way, so the empty string stands for both.\<close>
  "orElse a b = (if a = [] then b else a)"

definition normalizeAspectRatioLabel :: "string \<Rightarrow> string" where
  "normalizeAspectRatioLabel aspectRatio =
     (let r = toLowerCase aspectRatio
      in if r = ''landscape'' then ''16:9''
         else if r = ''portrait'' then ''9:16''
         else if r = ''square'' then ''1:1''
         else orElse aspectRatio ''16:9'')"

definition digitsValue :: "string \<Rightarrow> nat" where
  \<comment> \<open>\<open>Number.parseInt(digits, 10)\<close> on a run of digits. The model keeps the exact number;
      the code only compares it with 15 and passes it on.\<close>
  "digitsValue ds = foldl (\<lambda>n d. 10 * n + (of_char d - 48)) 0 ds"

definition normalizeDurationSeconds :: "string \<Rightarrow> nat" where
  \<comment> \<open>\<open>duration.match(/(\d+)/)\<close> is the first run of digits of the text.\<close>
  "normalizeDurationSeconds duration =
     (if duration = [] then 10
      else
        let matched = takeWhile isDigit (dropWhile (\<lambda>c. \<not> isDigit c) duration)
        in if matched = [] then 10
           else
             let parsed = digitsValue matched
             in if parsed \<le> 0 then 10 else parsed)"

definition mapFlowModel :: "string \<Rightarrow> string \<Rightarrow> string \<Rightarrow> string" where
  "mapFlowModel modelName aspectRatio duration =
     (let ratio = toLowerCase aspectRatio;
          seconds = normalizeDurationSeconds duration;
          isI2V = (includesStr (toLowerCase modelName) ''i2v''
                   \<or> includesStr (toLowerCase modelName) ''image'');
          isR2V = (includesStr (toLowerCase modelName) ''r2v''
                   \<or> includesStr (toLowerCase modelName) ''reference'')
      in if isR2V then
           (if ratio = ''portrait'' then ''veo_3_0_r2v_fast_portrait'' else ''veo_3_0_r2v_fast_landscape'')
         else if isI2V then
           (if seconds \<ge> 15 then
              (if ratio = ''portrait'' then ''veo_2_1_fast_d_15_i2v_portrait''
               else ''veo_2_1_fast_d_15_i2v_landscape'')
            else
              (if ratio = ''portrait'' then ''veo_3_1_i2v_s_fast_fl_portrait''
               else ''veo_3_1_i2v_s_fast_fl_landscape''))
         else if seconds \<ge> 15 then
           (if ratio = ''portrait'' then ''veo_2_1_fast_d_15_t2v_portrait''
            else ''veo_2_1_fast_d_15_t2v_landscape'')
         else
           (if ratio = ''portrait'' then ''veo_3_1_t2v_fast_portrait'' else ''veo_3_1_t2v_fast_landscape''))"

definition mapGrokModel :: "string \<Rightarrow> string \<Rightarrow> string \<Rightarrow> string" where
  "mapGrokModel modelName aspectRatio duration =
     (let ratio = toLowerCase aspectRatio;
          seconds = normalizeDurationSeconds duration;
          base = ''grok-imagine-1.0-video'';
          orientation = (if ratio = ''portrait'' then ''portrait'' else ''landscape'');
          finalSeconds = (if seconds \<ge> 15 then ''15s'' else ''10s'')
      in if includesStr (toLowerCase modelName) ''grok-imagine-1.0-video-'' then modelName
         else base @ ''-'' @ orientation @ ''-'' @ finalSeconds)"

text \<open>
  The types \<open>VideoChannel\<close>, \<open>VideoModel\<close>, \<open>SoraGenerateRequest\<close> and \<open>GenerateResult\<close> are
  declared outside the files at hand; the records hold the fields that the adapter reads
  and writes. The type of a channel is the text the code compares it with.
\<close>

record VideoChannel =
  ch_id :: string
  ch_name :: string
  ch_type :: string
  ch_baseUrl :: string
  ch_apiKey :: string
  ch_enabled :: bool

record VideoModel =
  vm_apiModel :: string
  vm_baseUrl :: string
  vm_apiKey :: string
  vm_defaultAspectRatio :: string
  vm_defaultDuration :: string
  vm_enabled :: bool

record SoraGenerateRequest =
  rq_prompt :: string
  rq_model :: string
  rq_modelId :: string
  rq_aspectRatio :: string
  rq_duration :: string
  rq_files :: "(string \<times> string) list"

record 'n Pricing =
  soraVideo10s :: 'n
  soraVideo15s :: 'n
  soraVideo25s :: 'n

record 'n TypeAndCost =
  tc_type :: string
  tc_cost :: 'n

record 'n GenerateResult =
  gr_type :: string
  gr_url :: string
  gr_cost :: 'n
  gr_videoChannelId :: string

definition mapChannelModel :: "string \<Rightarrow> VideoModel \<Rightarrow> SoraGenerateRequest \<Rightarrow> string" where
  "mapChannelModel channelType model request =
     (let ratio = orElse (rq_aspectRatio request) (orElse (vm_defaultAspectRatio model) ''landscape'');
          duration = orElse (rq_duration request) (orElse (vm_defaultDuration model) ''10s'')
      in if channelType = ''flow2api'' then mapFlowModel (vm_apiModel model) ratio duration
         else if channelType = ''grok2api'' then mapGrokModel (vm_apiModel model) ratio duration
         else orElse (vm_apiModel model) (rq_model request))"

definition getTypeAndCost :: "string \<Rightarrow> 'n Pricing \<Rightarrow> 'n TypeAndCost" where
  "getTypeAndCost model pricing =
     (if includesStr model ''25s'' \<or> includesStr model ''25'' then
        \<lparr> tc_type = ''sora-video'', tc_cost = soraVideo25s pricing \<rparr>
      else if includesStr model ''15s'' \<or> includesStr model ''15'' then
        \<lparr> tc_type = ''sora-video'', tc_cost = soraVideo15s pricing \<rparr>
      else \<lparr> tc_type = ''sora-video'', tc_cost = soraVideo10s pricing \<rparr>)"

subsection \<open>The request to an external chat channel\<close>

datatype contentPart = TextPart string | ImageUrlPart string

record VideoConfig =
  vc_aspect_ratio :: string
  vc_video_length :: nat
  vc_resolution_name :: string
  vc_preset :: string

record ChatPayload =
  pl_model :: string
  pl_messages :: "(string \<times> contentPart list) list"
  pl_stream :: bool
  pl_video_config :: "VideoConfig option"

record HttpResponse =
  rs_ok :: bool
  rs_status :: nat
  rs_json :: "json option"

text \<open>
  What the adapter throws. Its messages are Chinese text, outside the characters of the
  model, so each is a constructor: the channel has no base URL or API key; the upstream
  answered with an error status (the message holds the status and the first 400
  characters of the body); the answer has no usable content; no video link can be read
  from the answer. \<open>Thrown\<close> is an exception of \<open>fetchWithRetry\<close> passing through.
\<close>

datatype adapterError =
    ChannelNotConfigured
  | UpstreamStatus nat "json option"
  | UpstreamContentMissing
  | VideoUrlNotFound
  | Thrown error

definition buildVideoMessages :: "string \<Rightarrow> (string \<times> string) list \<Rightarrow> (string \<times> contentPart list) list" where
  "buildVideoMessages prompt files =
     [(''user'',
       TextPart (orElse prompt ''Generate a video'')
       # map (\<lambda>(mimeType, d). ImageUrlPart (''data:'' @ mimeType @ '';base64,'' @ d))
             (filter (\<lambda>(mimeType, d). startsWith mimeType ''image/'') files))]"

definition stripTrailingSlash :: "string \<Rightarrow> string" where
  \<comment> \<open>\<open>s.replace(/\/$/, '')\<close>\<close>
  "stripTrailingSlash s = (if s \<noteq> [] \<and> last s = CHR ''/'' then butlast s else s)"

definition generateViaExternalChat ::
  "(string \<Rightarrow> string \<Rightarrow> ChatPayload \<Rightarrow> error + HttpResponse) \<Rightarrow> 'n Pricing \<Rightarrow>
   VideoChannel \<Rightarrow> VideoModel \<Rightarrow> SoraGenerateRequest \<Rightarrow> adapterError + 'n GenerateResult" where
  \<comment> \<open>\<open>fetchWithRetry\<close> (given the URL, the bearer key and the body) and the pricing of
      \<open>getSystemConfig\<close> are the collaborators. Logging and the progress callback are left
      out: they return nothing to the function.\<close>
  "generateViaExternalChat fetchWithRetry pricing channel model request =
     (let effectiveBaseUrl = orElse (vm_baseUrl model) (ch_baseUrl channel);
          effectiveApiKey = orElse (vm_apiKey model) (ch_apiKey channel)
      in if effectiveBaseUrl = [] \<or> effectiveApiKey = [] then Inl ChannelNotConfigured
         else
           let resolvedModel = mapChannelModel (ch_type channel) model request;
               payload =
                 \<lparr> pl_model = resolvedModel,
                   pl_messages = buildVideoMessages (rq_prompt request) (rq_files request),
                   pl_stream = False,
                   pl_video_config =
                     (if ch_type channel = ''grok2api'' then
                        Some \<lparr> vc_aspect_ratio =
                                 normalizeAspectRatioLabel
                                   (orElse (rq_aspectRatio request)
                                      (orElse (vm_defaultAspectRatio model) ''landscape'')),
                               vc_video_length =
                                 normalizeDurationSeconds
                                   (orElse (rq_duration request)
                                      (orElse (vm_defaultDuration model) ''10s'')),
                               vc_resolution_name = ''720p'',
                               vc_preset = ''normal'' \<rparr>
                      else None) \<rparr>;
               apiUrl = stripTrailingSlash effectiveBaseUrl @ ''/v1/chat/completions''
           in case fetchWithRetry apiUrl effectiveApiKey payload of
                Inl e \<Rightarrow> Inl (Thrown e)
              | Inr response \<Rightarrow>
                  let data = rs_json response
                  in if \<not> rs_ok response then Inl (UpstreamStatus (rs_status response) data)
                     else
                       case getProp (getProp (getFirst (getProp data ''choices'')) ''message'') ''content'' of
                         Some (JStr content) \<Rightarrow>
                           if content = [] then Inl UpstreamContentMissing
                           else
                             (case extractVideoUrlFromText content of
                                None \<Rightarrow> Inl VideoUrlNotFound
                              | Some rawUrl \<Rightarrow>
                                  if rawUrl = [] then Inl VideoUrlNotFound
                                  else
                                    let tc = getTypeAndCost (rq_model request) pricing
                                    in Inr \<lparr> gr_type = tc_type tc, gr_url = rawUrl,
                                             gr_cost = tc_cost tc,
                                             gr_videoChannelId = ch_id channel \<rparr>)
                       | _ \<Rightarrow> Inl UpstreamContentMissing)"

definition containsUrl :: "string \<Rightarrow> bool" where
  \<comment> \<open>The text holds an http(s) URL: a scheme \<open>http\<close> or \<open>https\<close> in any case, \<open>://\<close>, and
      at least one character that can be part of a URL.\<close>
  "containsUrl s =
     (\<exists>before scheme c after.
        s = before @ scheme @ ''://'' @ c # after
        \<and> (toLowerCase scheme = ''http'' \<or> toLowerCase scheme = ''https'') \<and> urlChar c)"

section \<open>The prompt processor (the two versions of the module of \<open>processVideoPrompt\<close>)\<close>

text \<open>
  The source holds two versions of the module. They share \<open>stripCodeFence\<close>,
  \<open>extractFinalPrompt\<close>, \<open>normalizeOptions\<close>, \<open>validateOptions\<close> and the body of
  \<open>processVideoPrompt\<close>, word for word; they differ in how the text is read from the
  answer and in what happens when nothing is read. A function that only the first version
  has ends in \<open>1\<close>, its counterpart of the second version ends in \<open>2\<close>.
\<close>

definition DEFAULT_FILTER_PROMPT :: string where
  "DEFAULT_FILTER_PROMPT = ''You are a safety prompt filter for video generation. Rewrite the user prompt into a safe version while preserving creative intent as much as possible. Return only the rewritten prompt text.''"

definition DEFAULT_TRANSLATE_PROMPT :: string where
  "DEFAULT_TRANSLATE_PROMPT = ''Translate the user prompt into clear, natural English for video generation. Preserve details, style, and constraints. Return only the translated prompt text.''"

definition EMPTY_PROMPT_PROCESSOR_ERROR :: string where
  "EMPTY_PROMPT_PROCESSOR_ERROR = ''Prompt processor returned empty content''"

record PromptProcessingOptions =
  filterEnabled :: bool
  filterModelId :: string
  filterPrompt :: string
  translateEnabled :: bool
  translateModelId :: string
  translatePrompt :: string

record ProcessedPromptResult =
  originalPrompt :: string
  filteredPrompt :: "string option"
  translatedPrompt :: "string option"
  processedPrompt :: string

subsection \<open>Reading the text of an answer\<close>

definition lineFeed :: string where
  "lineFeed = [CHR 0x0A]"

definition nonEmpty :: "string \<Rightarrow> bool" where
  \<comment> \<open>\<open>Boolean(s)\<close> on a string\<close>
  "nonEmpty s = (s \<noteq> [])"

definition stringOf :: "json option \<Rightarrow> string option" where
  \<comment> \<open>the value when \<open>typeof x === 'string'\<close>\<close>
  "stringOf x = (case x of Some (JStr s) \<Rightarrow> Some s | _ \<Rightarrow> None)"

definition arrayOf :: "json option \<Rightarrow> json list option" where
  \<comment> \<open>the items when \<open>Array.isArray(x)\<close>\<close>
  "arrayOf x = (case x of Some (JArr items) \<Rightarrow> Some items | _ \<Rightarrow> None)"

definition itemText1 :: "json \<Rightarrow> string" where
  \<comment> \<open>the function mapped over the items of an array by the first version\<close>
  "itemText1 item =
     (case item of
        JStr s \<Rightarrow> s
      | JObj members \<Rightarrow> (case stringOf (getProp (Some item) ''text'') of Some t \<Rightarrow> t | None \<Rightarrow> [])
      | _ \<Rightarrow> [])"

definition normalizeModelText1 :: "json option \<Rightarrow> string" where
  "normalizeModelText1 raw =
     (case raw of
        Some (JStr s) \<Rightarrow> trim s
      | Some (JArr items) \<Rightarrow> trim (joinWith lineFeed (filter nonEmpty (map itemText1 items)))
      | _ \<Rightarrow> [])"

lemma arrayOf_size:
  "arrayOf (getProp (Some (JObj members)) key) = Some items \<Longrightarrow> size (JArr items) < size (JObj members)"
proof -
  assume "arrayOf (getProp (Some (JObj members)) key) = Some items"
  then have "map_of (rev members) key = Some (JArr items)"
    by (auto simp: arrayOf_def getProp_def split: option.splits json.splits)
  then have "(key, JArr items) \<in> set members"
    by (auto dest: map_of_SomeD)
  then have "size (JArr items) < Suc (size_list (size_prod (\<lambda>_. 0) size) members)"
    by (induction members) auto
  then show ?thesis by simp
qed

function (sequential) normalizeModelText2 :: "json \<Rightarrow> string" where
  \<comment> \<open>The second version, on a value that is not \<open>undefined\<close>. An array is an object
      too, but it has none of the properties read in the first part, so that part does
      nothing for it.\<close>
  "normalizeModelText2 (JStr s) = trim s"
| "normalizeModelText2 (JObj members) =
     (let item = Some (JObj members)
      in case stringOf (getProp item ''text'') of Some t \<Rightarrow> trim t | None \<Rightarrow>
         case stringOf (getProp (getProp item ''text'') ''value'') of Some v \<Rightarrow> trim v | None \<Rightarrow>
         case stringOf (getProp item ''output_text'') of Some t \<Rightarrow> trim t | None \<Rightarrow>
         case stringOf (getProp item ''content'') of Some t \<Rightarrow> trim t | None \<Rightarrow>
         case arrayOf (getProp (Some (JObj members)) ''content'') of
           Some xs \<Rightarrow> normalizeModelText2 (JArr xs) | None \<Rightarrow>
         case arrayOf (getProp (Some (JObj members)) ''parts'') of
           Some xs \<Rightarrow> normalizeModelText2 (JArr xs) | None \<Rightarrow>
         case arrayOf (getProp (Some (JObj members)) ''output'') of
           Some xs \<Rightarrow> normalizeModelText2 (JArr xs) | None \<Rightarrow>
         case arrayOf (getProp (Some (JObj members)) ''messages'') of
           Some xs \<Rightarrow> normalizeModelText2 (JArr xs) | None \<Rightarrow> [])"
| "normalizeModelText2 (JArr items) =
     trim (joinWith lineFeed (filter nonEmpty (map normalizeModelText2 items)))"
| "normalizeModelText2 JNull = []"
| "normalizeModelText2 (JBool b) = []"
| "normalizeModelText2 (JNum n) = []"
  by pat_completeness auto
termination
proof (relation "measure size")
  show "wf (measure size)" by simp
next
  fix items :: "json list" and x
  assume "x \<in> set items"
  then have "size x < Suc (size_list size items)"
    by (induction items) auto
  then show "(x, JArr items) \<in> measure size" by simp
qed (auto dest: arrayOf_size)

definition normalizeText2 :: "json option \<Rightarrow> string" where
  \<comment> \<open>\<open>normalizeModelText\<close> of the second version, \<open>undefined\<close> included\<close>
  "normalizeText2 raw = (case raw of None \<Rightarrow> [] | Some v \<Rightarrow> normalizeModelText2 v)"

fun firstNonEmpty :: "string list \<Rightarrow> string" where
  "firstNonEmpty [] = []"
| "firstNonEmpty (candidate # candidates) =
     (if candidate \<noteq> [] \<and> trim candidate \<noteq> [] then trim candidate
      else firstNonEmpty candidates)"

definition asObject :: "json option \<Rightarrow> json option" where
  \<comment> \<open>\<open>x && typeof x === 'object' ? x : undefined\<close>\<close>
  "asObject x = (case x of Some (JObj members) \<Rightarrow> x | Some (JArr items) \<Rightarrow> x | _ \<Rightarrow> None)"

definition firstOfArray :: "json option \<Rightarrow> json option" where
  \<comment> \<open>\<open>(Array.isArray(x) ? x : [])[0]\<close>\<close>
  "firstOfArray x = (case x of Some (JArr (v # _)) \<Rightarrow> Some v | _ \<Rightarrow> None)"

definition extractCompletionContent :: "json \<Rightarrow> string" where
  "extractCompletionContent payload =
     (case asObject (Some payload) of
        None \<Rightarrow> []
      | Some data \<Rightarrow>
          let firstChoice = asObject (firstOfArray (getProp (Some data) ''choices''));
              message = asObject (getProp firstChoice ''message'');
              firstCandidate = asObject (firstOfArray (getProp (Some data) ''candidates''));
              candidateContent = asObject (getProp firstCandidate ''content'');
              firstDataItem = asObject (firstOfArray (getProp (Some data) ''data''))
          in firstNonEmpty
               [normalizeText2 (getProp message ''content''),
                normalizeText2 (getProp firstChoice ''text''),
                normalizeText2 (getProp (Some data) ''output_text''),
                normalizeText2 (getProp (Some data) ''output''),
                normalizeText2 (getProp candidateContent ''parts''),
                normalizeText2 (getProp firstDataItem ''text''),
                normalizeText2 (getProp (Some data) ''content'')])"

definition isWordClass :: "char \<Rightarrow> bool" where
  \<comment> \<open>the class \<open>\w\<close>\<close>
  "isWordClass c = (isAsciiLetter c \<or> isDigit c \<or> c = CHR ''_'')"

definition stripCodeFence :: "string \<Rightarrow> string" where
  \<comment> \<open>\<open>text.match(/^```(?:\w+)?\s*([\s\S]*?)\s*```$/)\<close>: the text opens and closes with
      three backquotes; the greedy \<open>\w+\<close> and \<open>\s*\<close> take the language tag and the white
      space after it, and the lazy group is what follows without its trailing white space.
      An empty group is falsy, and the text is returned as it is.\<close>
  "stripCodeFence text =
     (let fence = [CHR 0x60, CHR 0x60, CHR 0x60];
          n = length text
      in if 6 \<le> n \<and> take 3 text = fence \<and> drop (n - 3) text = fence then
           (let inner = take (n - 6) (drop 3 text);
                body = dropWhile isWhiteSpace (dropWhile isWordClass inner);
                g = rev (dropWhile isWhiteSpace (rev body))
            in if g \<noteq> [] then trim g else text)
         else text)"

definition stripQuotes :: "string \<Rightarrow> string" where
  \<comment> \<open>\<open>s.replace(/^['"]|['"]$/g, '')\<close>\<close>
  "stripQuotes s =
     (let s1 = (if s \<noteq> [] \<and> isQuote (hd s) then tl s else s)
      in if s1 \<noteq> [] \<and> isQuote (last s1) then butlast s1 else s1)"

fun firstStringProp :: "json \<Rightarrow> string list \<Rightarrow> string option" where
  \<comment> \<open>the loop over the candidate keys: the first one whose value is a non-empty string\<close>
  "firstStringProp parsed [] = None"
| "firstStringProp parsed (key # keys) =
     (case stringOf (getProp (Some parsed) key) of
        Some v \<Rightarrow> if v \<noteq> [] then Some (trim v) else firstStringProp parsed keys
      | None \<Rightarrow> firstStringProp parsed keys)"

definition extractFinalPrompt :: "string \<Rightarrow> string" where
  \<comment> \<open>\<open>JSON.parse\<close> may throw, and so may reading a property of \<open>null\<close>: both are
      caught, and the text itself is used.\<close>
  "extractFinalPrompt raw =
     (let cleaned = stripCodeFence (trim raw)
      in if cleaned = [] then []
         else
           case (case JSON_parse cleaned of
                   None \<Rightarrow> None
                 | Some parsed \<Rightarrow>
                     firstStringProp parsed
                       [''prompt'', ''rewritten_prompt'', ''translated_prompt'', ''content'', ''result'']) of
             Some result \<Rightarrow> result
           | None \<Rightarrow> trim (stripQuotes cleaned))"

subsection \<open>One completion\<close>

text \<open>
  \<open>getChatModel\<close>, \<open>getSystemConfig\<close> and \<open>fetch\<close> are the collaborators; the
  environment holds what they answer. Every result comes with the list of the requests
  sent upstream while it was computed.
\<close>

record ChatModel =
  cm_enabled :: bool
  cm_apiUrl :: string
  cm_apiKey :: string
  cm_modelId :: string
  cm_maxTokens :: nat

record ChatRequest =
  cr_url :: string
  cr_authorization :: string
  cr_model :: string
  cr_system :: string
  cr_user :: string
  cr_max_tokens :: nat

record PromptEnv =
  getChatModel :: "string \<Rightarrow> ChatModel option"
  fetch :: "ChatRequest \<Rightarrow> error + HttpResponse"
  promptProcessing :: "PromptProcessingOptions option"

type_synonym 'a logged = "(error + 'a) \<times> ChatRequest list"

fun showNat :: "nat \<Rightarrow> string" where
  \<comment> \<open>a number in a template literal\<close>
  "showNat n =
     (if n < 10 then [char_of (48 + n)] else showNat (n div 10) @ [char_of (48 + n mod 10)])"

definition bodyOf :: "HttpResponse \<Rightarrow> json" where
  \<comment> \<open>\<open>await response.json().catch(() => ({}))\<close>\<close>
  "bodyOf response = (case rs_json response of None \<Rightarrow> JObj [] | Some d \<Rightarrow> d)"

definition responseOutcome :: "(json \<Rightarrow> string) \<Rightarrow> HttpResponse \<Rightarrow> error + string" where
  \<comment> \<open>What \<open>runPromptCompletion\<close> does with the response, given how the version at hand
      reads the content from the body.\<close>
  "responseOutcome readContent response =
     (let data = bodyOf response
      in if \<not> rs_ok response then
           Inl (Error (case stringOf (getProp (getProp (Some data) ''error'') ''message'') of
                         Some m \<Rightarrow> m
                       | None \<Rightarrow> ''Prompt processor API failed: '' @ showNat (rs_status response)))
         else
           let result = extractFinalPrompt (readContent data)
           in if result = [] then Inl (Error EMPTY_PROMPT_PROCESSOR_ERROR) else Inr result)"

definition completionRequest :: "ChatModel \<Rightarrow> string \<Rightarrow> string \<Rightarrow> ChatRequest" where
  \<comment> \<open>the request of \<open>runPromptCompletion\<close>; its temperature, a constant, is left out\<close>
  "completionRequest model instruction inputPrompt =
     \<lparr> cr_url = cm_apiUrl model,
       cr_authorization = ''Bearer '' @ cm_apiKey model,
       cr_model = cm_modelId model,
       cr_system = instruction,
       cr_user = inputPrompt,
       cr_max_tokens = min 2048 (if cm_maxTokens model = 0 then 2048 else cm_maxTokens model) \<rparr>"

definition runPromptCompletionWith ::
  "(json \<Rightarrow> string) \<Rightarrow> PromptEnv \<Rightarrow> string \<Rightarrow> string \<Rightarrow> string \<Rightarrow> string logged" where
  \<comment> \<open>\<open>runPromptCompletion\<close>, the same in both versions but for the reading of the content\<close>
  "runPromptCompletionWith readContent env modelId instruction inputPrompt =
     (case getChatModel env modelId of
        None \<Rightarrow> (Inl (Error (''Prompt processing model is unavailable: '' @ modelId)), [])
      | Some model \<Rightarrow>
          if \<not> cm_enabled model then
            (Inl (Error (''Prompt processing model is unavailable: '' @ modelId)), [])
          else
            let request = completionRequest model instruction inputPrompt
            in case fetch env request of
                 Inl e \<Rightarrow> (Inl e, [request])
               | Inr response \<Rightarrow> (responseOutcome readContent response, [request]))"

definition readContent1 :: "json \<Rightarrow> string" where
  \<comment> \<open>\<open>normalizeModelText(data?.choices?.[0]?.message?.content)\<close>\<close>
  "readContent1 data =
     normalizeModelText1 (getProp (getProp (getFirst (getProp (Some data) ''choices'')) ''message'') ''content'')"

definition runPromptCompletion1 :: "PromptEnv \<Rightarrow> string \<Rightarrow> string \<Rightarrow> string \<Rightarrow> string logged" where
  "runPromptCompletion1 = runPromptCompletionWith readContent1"

definition runPromptCompletion2 :: "PromptEnv \<Rightarrow> string \<Rightarrow> string \<Rightarrow> string \<Rightarrow> string logged" where
  "runPromptCompletion2 = runPromptCompletionWith extractCompletionContent"

definition isPromptProcessorEmptyContentError :: "error \<Rightarrow> bool" where
  "isPromptProcessorEmptyContentError e = includesStr (message e) EMPTY_PROMPT_PROCESSOR_ERROR"

definition runPromptCompletionWithFallback :: "PromptEnv \<Rightarrow> string \<Rightarrow> string \<Rightarrow> string \<Rightarrow> string logged" where
  "runPromptCompletionWithFallback env modelId instruction inputPrompt =
     (case runPromptCompletion2 env modelId instruction inputPrompt of
        (Inl e, sent) \<Rightarrow>
          if isPromptProcessorEmptyContentError e then (Inr inputPrompt, sent) else (Inl e, sent)
      | (Inr result, sent) \<Rightarrow> (Inr result, sent))"

subsection \<open>The pipeline\<close>

definition normalizeOptions :: "PromptProcessingOptions \<Rightarrow> PromptProcessingOptions" where
  "normalizeOptions config =
     \<lparr> filterEnabled = filterEnabled config,
       filterModelId = trim (filterModelId config),
       filterPrompt = trim (orElse (filterPrompt config) DEFAULT_FILTER_PROMPT),
       translateEnabled = translateEnabled config,
       translateModelId = trim (translateModelId config),
       translatePrompt = trim (orElse (translatePrompt config) DEFAULT_TRANSLATE_PROMPT) \<rparr>"

definition validateOptions :: "PromptProcessingOptions \<Rightarrow> error + unit" where
  "validateOptions options =
     (if filterEnabled options \<and> (filterModelId options = [] \<or> filterPrompt options = []) then
        Inl (Error ''Prompt filter is enabled but filter model or prompt is not configured'')
      else if translateEnabled options then
        (if translateModelId options = [] \<or> translatePrompt options = [] then
           Inl (Error ''Prompt translation is enabled but translation model or prompt is not configured'')
         else if filterModelId options = [] \<or> filterPrompt options = [] then
           Inl (Error ''Prompt translation requires filter model and filter prompt to sanitize translated content'')
         else Inr ())
      else Inr ())"

definition andThen :: "'a logged \<Rightarrow> ('a \<Rightarrow> 'b logged) \<Rightarrow> 'b logged" where
  \<comment> \<open>\<open>await\<close> and go on: an error ends the function, and the requests sent add up\<close>
  "andThen m f =
     (case m of
        (Inl e, sent) \<Rightarrow> (Inl e, sent)
      | (Inr a, sent) \<Rightarrow> (case f a of (r, sent') \<Rightarrow> (r, sent @ sent')))"

definition processVideoPromptWith ::
  "(PromptEnv \<Rightarrow> string \<Rightarrow> string \<Rightarrow> string \<Rightarrow> string logged) \<Rightarrow> PromptEnv \<Rightarrow> string
   \<Rightarrow> ProcessedPromptResult logged" where
  \<comment> \<open>the body of \<open>processVideoPrompt\<close>, the same in both versions but for the function
      that runs a completion\<close>
  "processVideoPromptWith run env original =
     (let basePrompt = trim original
      in if basePrompt = [] then
           (Inr \<lparr> originalPrompt = basePrompt, filteredPrompt = None, translatedPrompt = None,
                  processedPrompt = basePrompt \<rparr>, [])
         else
           let options =
                 normalizeOptions
                   (case promptProcessing env of
                      Some c \<Rightarrow> c
                    | None \<Rightarrow>
                        \<lparr> filterEnabled = False, filterModelId = [],
                          filterPrompt = DEFAULT_FILTER_PROMPT,
                          translateEnabled = False, translateModelId = [],
                          translatePrompt = DEFAULT_TRANSLATE_PROMPT \<rparr>)
           in if \<not> filterEnabled options \<and> \<not> translateEnabled options then
                (Inr \<lparr> originalPrompt = basePrompt, filteredPrompt = None, translatedPrompt = None,
                       processedPrompt = basePrompt \<rparr>, [])
              else
                case validateOptions options of
                  Inl e \<Rightarrow> (Inl e, [])
                | Inr _ \<Rightarrow>
                    andThen
                      (if filterEnabled options then
                         andThen (run env (filterModelId options) (filterPrompt options) basePrompt)
                           (\<lambda>r. (Inr (r, Some r), []))
                       else (Inr (basePrompt, None), []))
                      (\<lambda>(currentPrompt, filtered).
                         if translateEnabled options then
                           andThen
                             (run env (translateModelId options) (translatePrompt options) currentPrompt)
                             (\<lambda>translated.
                                andThen
                                  (run env (filterModelId options) (filterPrompt options) translated)
                                  (\<lambda>refiltered.
                                     (Inr \<lparr> originalPrompt = basePrompt,
                                            filteredPrompt = Some refiltered,
                                            translatedPrompt = Some translated,
                                            processedPrompt = refiltered \<rparr>, [])))
                         else
                           (Inr \<lparr> originalPrompt = basePrompt, filteredPrompt = filtered,
                                  translatedPrompt = None, processedPrompt = currentPrompt \<rparr>, [])))"

definition processVideoPrompt1 :: "PromptEnv \<Rightarrow> string \<Rightarrow> ProcessedPromptResult logged" where
  "processVideoPrompt1 = processVideoPromptWith runPromptCompletion1"

definition processVideoPrompt2 :: "PromptEnv \<Rightarrow> string \<Rightarrow> ProcessedPromptResult logged" where
  "processVideoPrompt2 = processVideoPromptWith runPromptCompletionWithFallback"


subsection \<open>Environments for the closed examples\<close>

definition sampleChatModel :: "string \<Rightarrow> ChatModel option" where
  \<comment> \<open>every model id is configured and enabled\<close>
  "sampleChatModel modelId =
     Some \<lparr> cm_enabled = True, cm_apiUrl = ''https://llm.example/v1/chat/completions'',
            cm_apiKey = ''key'', cm_modelId = modelId, cm_maxTokens = 0 \<rparr>"

definition answeringEnv :: "json option \<Rightarrow> PromptProcessingOptions \<Rightarrow> PromptEnv" where
  \<comment> \<open>the upstream answers every request with status 200 and the given body\<close>
  "answeringEnv body config =
     \<lparr> getChatModel = sampleChatModel,
       fetch = (\<lambda>request. Inr \<lparr> rs_ok = True, rs_status = 200, rs_json = body \<rparr>),
       promptProcessing = Some config \<rparr>"

definition filterOnly :: PromptProcessingOptions where
  "filterOnly =
     \<lparr> filterEnabled = True, filterModelId = ''safety-model'', filterPrompt = [],
       translateEnabled = False, translateModelId = [], translatePrompt = [] \<rparr>"

definition translateWithoutFilterModel :: PromptProcessingOptions where
  "translateWithoutFilterModel =
     \<lparr> filterEnabled = False, filterModelId = [], filterPrompt = [],
       translateEnabled = True, translateModelId = ''translator'', translatePrompt = [] \<rparr>"

definition translateBlankInstruction :: PromptProcessingOptions where
  "translateBlankInstruction =
     \<lparr> filterEnabled = False, filterModelId = ''safety-model'', filterPrompt = [],
       translateEnabled = True, translateModelId = ''translator'', translatePrompt = ''   '' \<rparr>"

definition translateUnsetInstructions :: PromptProcessingOptions where
  "translateUnsetInstructions =
     \<lparr> filterEnabled = False, filterModelId = ''safety-model'', filterPrompt = [],
       translateEnabled = True, translateModelId = ''translator'', translatePrompt = [] \<rparr>"

section \<open>Properties of the blocklist matcher\<close>

subsection \<open>Trimming and parsing\<close>

lemma dropWhile_trim: "dropWhile isWhiteSpace (trim s) = trim s"
proof -
  define a where "a = dropWhile isWhiteSpace s"
  have a: "a = [] \<or> \<not> isWhiteSpace (hd a)"
    unfolding a_def by (metis hd_dropWhile)
  define b where "b = dropWhile isWhiteSpace (rev a)"
  have "rev a = takeWhile isWhiteSpace (rev a) @ b"
    unfolding b_def by simp
  then have "a = rev b @ rev (takeWhile isWhiteSpace (rev a))"
    by (metis rev_append rev_rev_ident)
  then have "rev b = [] \<or> hd (rev b) = hd a"
    by (metis hd_append2)
  moreover have "rev b \<noteq> [] \<Longrightarrow> a \<noteq> []"
    unfolding b_def by auto
  ultimately have "rev b = [] \<or> \<not> isWhiteSpace (hd (rev b))"
    using a by auto
  then have "dropWhile isWhiteSpace (rev b) = rev b"
    by (cases "rev b") auto
  then show ?thesis
    by (simp add: trim_def a_def b_def)
qed

lemma trim_trim: "trim (trim s) = trim s"
proof -
  have "dropWhile isWhiteSpace (rev (trim s)) = rev (trim s)"
    by (simp add: trim_def)
  then show ?thesis
    using dropWhile_trim [of s] by (simp add: trim_def)
qed

lemma set_trim: "set (trim s) \<subseteq> set s"
  by (auto simp: trim_def dest!: set_dropWhileD)


lemma length_toLowerCase: "length (toLowerCase s) = length s"
  by (simp add: toLowerCase_def)

lemma normalizeText_Nil: "normalizeText s = [] \<longleftrightarrow> trim s = []"
  by (simp add: normalizeText_def toLowerCase_def)

lemma buildRegexRule_raw: "buildRegexRule ctor raw p f = Some r \<Longrightarrow> rule_raw r = raw"
  by (auto simp: buildRegexRule_def Let_def split: if_splits option.splits)

lemma parseRegexPrefixed_raw:
  "parseRegexPrefixed ctor raw lower ps = Some (Some r) \<Longrightarrow> rule_raw r = raw"
  by (induction ps) (auto simp: Let_def buildRegexRule_raw split: if_splits option.splits)

lemma parseRule_raw: "parseRule ctor line = Some r \<Longrightarrow> rule_raw r = trim line \<and> trim line \<noteq> []"
  by (auto simp: parseRule_def Let_def buildRegexRule_raw parseRegexPrefixed_raw
           split: if_splits option.splits)

lemma parseRule_trim: "parseRule ctor (trim line) = parseRule ctor line"
  by (simp add: parseRule_def trim_trim)


subsection \<open>The loop of findBlockedWords\<close>

lemma set_firstOccurrences: "set (firstOccurrences key xs) \<subseteq> set xs"
  by (induction key xs rule: firstOccurrences.induct) auto




lemma map_firstOccurrences:
  "map f (firstOccurrences (\<lambda>x. key (f x)) xs) = firstOccurrences key (map f xs)"
proof (induction "\<lambda>x. key (f x)" xs rule: firstOccurrences.induct)
  case 1
  show ?case by simp
next
  case (2 x xs)
  then show ?case by (simp add: filter_map comp_def)
qed

lemma matchRules_eq:
  "matchRules prompt (normalizeText prompt) rules seen matched =
     matched @ map rule_raw
       (firstOccurrences (\<lambda>r. normalizeText (rule_raw r))
          (filter (\<lambda>r. ruleMatches prompt r \<and> normalizeText (rule_raw r) \<notin> seen
                        \<and> normalizeText (rule_raw r) \<noteq> []) rules))"
proof (induction rules arbitrary: seen matched)
  case Nil
  show ?case by simp
next
  case (Cons r rules)
  let ?k = "\<lambda>r. normalizeText (rule_raw r)"
  have test: "(case r of SubstringRule raw v \<Rightarrow> includesStr (normalizeText prompt) (normalizeText v)
                 | _ \<Rightarrow> re_test (rule_regex r) prompt) = ruleMatches prompt r"
    by (simp add: ruleMatches_def)
  have flt: "filter (\<lambda>y. ?k y \<noteq> ?k r)
               (filter (\<lambda>y. ruleMatches prompt y \<and> ?k y \<notin> seen \<and> ?k y \<noteq> []) rules)
             = filter (\<lambda>y. ruleMatches prompt y \<and> ?k y \<notin> insert (?k r) seen \<and> ?k y \<noteq> []) rules"
    by (auto intro: filter_cong)
  show ?case
  proof (cases "?k r = [] \<or> ?k r \<in> seen")
    case True
    then show ?thesis using Cons.IH [of seen matched] by auto
  next
    case False
    show ?thesis
    proof (cases "ruleMatches prompt r")
      case True
      with False show ?thesis
        using Cons.IH [of "insert (?k r) seen" "matched @ [rule_raw r]"] flt
        by (cases r) (simp_all add: ruleMatches_def)
    next
      case no: False
      with False show ?thesis
        using Cons.IH [of seen matched]
        by (cases r) (simp_all add: ruleMatches_def)
    qed
  qed
qed

lemma raw_of_parsed:
  "r \<in> set (List.map_filter (parseRule ctor) ls) \<Longrightarrow> normalizeText (rule_raw r) \<noteq> []"
proof -
  assume "r \<in> set (List.map_filter (parseRule ctor) ls)"
  then obtain l where "parseRule ctor l = Some r"
    by (auto simp: List.map_filter_def)
  then have "rule_raw r = trim l" "trim l \<noteq> []"
    using parseRule_raw by blast+
  then show ?thesis
    by (simp add: normalizeText_Nil trim_trim)
qed

lemma matched_rules_of_lines:
  "\<forall>l \<in> set ls. trim l = l \<Longrightarrow>
   map rule_raw (filter (ruleMatches prompt) (List.map_filter (parseRule ctor) ls))
     = filter (lineMatches ctor prompt) ls"
proof (induction ls)
  case Nil
  show ?case by (simp add: List.map_filter_simps)
next
  case (Cons l ls)
  then have IH: "map rule_raw (filter (ruleMatches prompt) (List.map_filter (parseRule ctor) ls))
                   = filter (lineMatches ctor prompt) ls"
    and l: "trim l = l" by auto
  show ?case
  proof (cases "parseRule ctor l")
    case None
    then have "\<not> lineMatches ctor prompt l" by (simp add: lineMatches_def)
    with None show ?thesis using IH by (simp add: List.map_filter_simps)
  next
    case (Some r)
    then have "rule_raw r = l" using parseRule_raw [of ctor l r] l by simp
    moreover have "lineMatches ctor prompt l = ruleMatches prompt r"
      using Some by (simp add: lineMatches_def)
    ultimately show ?thesis using Some IH by (simp add: List.map_filter_simps)
  qed
qed

lemma trimmed_lines: "l \<in> set (parseBlocklistWords raw) \<Longrightarrow> trim l = l \<and> l \<noteq> []"
  by (auto simp: parseBlocklistWords_def trim_trim)

lemma findBlockedWords_eq:
  "findBlockedWords ctor prompt rawWords =
     (if normalizeText prompt = [] then [] else matchedLines ctor prompt rawWords)"
proof (cases "normalizeText prompt = []")
  case True
  then show ?thesis by (simp add: findBlockedWords_def)
next
  case False
  let ?ls = "parseBlocklistWords rawWords"
  let ?rules = "List.map_filter (parseRule ctor) ?ls"
  let ?k = "\<lambda>r. normalizeText (rule_raw r)"
  have flt: "filter (\<lambda>r. ruleMatches prompt r \<and> ?k r \<notin> {} \<and> ?k r \<noteq> []) ?rules
               = filter (ruleMatches prompt) ?rules"
    using raw_of_parsed by (auto intro: filter_cong)
  have "findBlockedWords ctor prompt rawWords
          = map rule_raw (firstOccurrences ?k (filter (ruleMatches prompt) ?rules))"
    using False matchRules_eq [of prompt ?rules "{}" "[]"] flt
    by (simp add: findBlockedWords_def Let_def)
  also have "\<dots> = firstOccurrences normalizeText (map rule_raw (filter (ruleMatches prompt) ?rules))"
    by (rule map_firstOccurrences)
  also have "\<dots> = matchedLines ctor prompt rawWords"
    using matched_rules_of_lines [of ?ls prompt ctor] trimmed_lines
    by (simp add: matchedLines_def)
  finally show ?thesis using False by simp
qed






lemma matchedLines_subset:
  "l \<in> set (matchedLines ctor prompt rawWords) \<Longrightarrow>
   l \<in> set (parseBlocklistWords rawWords) \<and> lineMatches ctor prompt l"
  using set_firstOccurrences [of normalizeText "filter (lineMatches ctor prompt) (parseBlocklistWords rawWords)"]
  by (auto simp: matchedLines_def)


lemma parseBlocklistWords_Nil: "parseBlocklistWords [] = []"
  by (simp add: parseBlocklistWords_def splitLines_def trim_def)

lemma buildRegexRule_rejected:
  "buildRegexRule recordingRegExp raw p f = Some (RegexRule raw' v re) \<Longrightarrow>
   ctor (re_source re) (re_flags re) = None \<Longrightarrow> buildRegexRule ctor raw p f = None"
  by (auto simp: buildRegexRule_def recordingRegExp_def Let_def split: if_splits)

lemma parseRegexPrefixed_falls_through:
  "(parseRegexPrefixed ctor raw lower ps = None) = (parseRegexPrefixed ctor' raw lower ps = None)"
  by (induction ps) (auto simp: Let_def split: option.splits)

lemma parseRegexPrefixed_rejected:
  "parseRegexPrefixed recordingRegExp raw lower ps = Some (Some (RegexRule raw' v re)) \<Longrightarrow>
   ctor (re_source re) (re_flags re) = None \<Longrightarrow>
   parseRegexPrefixed ctor raw lower ps = Some None"
proof (induction ps)
  case Nil
  then show ?case by simp
next
  case (Cons p ps)
  show ?case
  proof (cases "startsWith lower p")
    case False
    with Cons show ?thesis by simp
  next
    case True
    with Cons.prems show ?thesis
      by (auto simp: Let_def split: if_splits option.splits dest: buildRegexRule_rejected)
  qed
qed

lemma regexRequest_rejected:
  assumes req: "regexRequest line = Some (p, f)" and rej: "ctor p f = None"
  shows "parseRule ctor line = None"
proof -
  define raw where "raw = trim line"
  define lower where "lower = toLowerCase raw"
  obtain raw' v re where rec: "parseRule recordingRegExp line = Some (RegexRule raw' v re)"
    and re: "re_source re = p" "re_flags re = f"
    using req by (auto simp: regexRequest_def split: option.splits BlocklistRule.splits)
  have c1: "raw \<noteq> []"
  proof
    assume "raw = []"
    then have "parseRule recordingRegExp line = None"
      by (simp add: parseRule_def raw_def)
    with rec show False by simp
  qed
  have c2: "\<not> startsWith lower SUBSTRING_PREFIX"
  proof
    assume "startsWith lower SUBSTRING_PREFIX"
    then have "parseRule recordingRegExp line =
                 (let v = trim (slice raw (length SUBSTRING_PREFIX))
                  in if v = [] then None else Some (SubstringRule raw v))"
      using c1 by (simp add: parseRule_def raw_def lower_def Let_def)
    with rec show False by (simp add: Let_def split: if_splits)
  qed
  have c3: "\<not> startsWith lower WORD_PREFIX"
  proof
    assume "startsWith lower WORD_PREFIX"
    then have "parseRule recordingRegExp line =
                 (let v = trim (slice raw (length WORD_PREFIX))
                  in if v = [] then None else Some (WordRule raw v (buildWordBoundaryRegex v)))"
      using c1 c2 by (simp add: parseRule_def raw_def lower_def Let_def)
    with rec show False by (simp add: Let_def split: if_splits)
  qed
  note c = c1 c2 c3
  have red: "parseRule X line =
               (case parseRegexPrefixed X raw lower REGEX_PREFIXES of
                  Some result \<Rightarrow> result
                | None \<Rightarrow>
                    (case literalMatch raw of
                       Some (p, f) \<Rightarrow> buildRegexRule X raw p f
                     | None \<Rightarrow> Some (WordRule raw raw (buildWordBoundaryRegex raw))))" for X
    using c unfolding parseRule_def raw_def lower_def Let_def by simp
  show ?thesis
  proof (cases "parseRegexPrefixed recordingRegExp raw lower REGEX_PREFIXES")
    case None
    then have n: "parseRegexPrefixed ctor raw lower REGEX_PREFIXES = None"
      using parseRegexPrefixed_falls_through by blast
    from rec None obtain lp lf where lm: "literalMatch raw = Some (lp, lf)"
      and "buildRegexRule recordingRegExp raw lp lf = Some (RegexRule raw' v re)"
      by (auto simp: red split: option.splits)
    then have "buildRegexRule ctor raw lp lf = None"
      using buildRegexRule_rejected re rej by simp
    with n lm show ?thesis by (simp add: red)
  next
    case (Some result)
    with rec have "result = Some (RegexRule raw' v re)" by (simp add: red)
    with Some have "parseRegexPrefixed ctor raw lower REGEX_PREFIXES = Some None"
      using parseRegexPrefixed_rejected re rej by simp
    then show ?thesis by (simp add: red)
  qed
qed

section \<open>Properties of the video channel adapter\<close>

subsection \<open>Containment\<close>

lemma startsWith_iff: "startsWith s x \<longleftrightarrow> (\<exists>r. s = x @ r)"
proof
  assume "startsWith s x"
  then have "s = x @ drop (length x) s"
    by (metis append_take_drop_id startsWith_def)
  then show "\<exists>r. s = x @ r" ..
next
  assume "\<exists>r. s = x @ r"
  then show "startsWith s x" by (auto simp: startsWith_def)
qed

lemma includesStr_iff: "includesStr s x \<longleftrightarrow> (\<exists>p r. s = p @ x @ r)"
proof (induction s)
  case Nil
  show ?case by auto
next
  case (Cons c cs)
  show ?case
  proof
    assume "includesStr (c # cs) x"
    then consider "startsWith (c # cs) x" | "includesStr cs x" by auto
    then show "\<exists>p r. c # cs = p @ x @ r"
    proof cases
      case 1
      then obtain r where "c # cs = x @ r" using startsWith_iff by blast
      then have "c # cs = [] @ x @ r" by simp
      then show ?thesis by blast
    next
      case 2
      then obtain p r where "cs = p @ x @ r" using Cons.IH by blast
      then have "c # cs = (c # p) @ x @ r" by simp
      then show ?thesis by blast
    qed
  next
    assume "\<exists>p r. c # cs = p @ x @ r"
    then obtain p r where eq: "c # cs = p @ x @ r" by blast
    show "includesStr (c # cs) x"
    proof (cases p)
      case Nil
      with eq have "startsWith (c # cs) x" using startsWith_iff by auto
      then show ?thesis by simp
    next
      case (Cons d p')
      with eq have "cs = p' @ x @ r" by simp
      then have "includesStr cs x" using Cons.IH by blast
      then show ?thesis by simp
    qed
  qed
qed



lemma lowerChar_below_A: "lowerChar c = d \<Longrightarrow> (of_char d :: nat) < 65 \<Longrightarrow> c = d"
proof -
  assume eq: "lowerChar c = d" and d: "(of_char d :: nat) < 65"
  define n where "n = (of_char c :: nat)"
  show ?thesis
  proof (cases "(65 \<le> n \<and> n \<le> 90) \<or> (192 \<le> n \<and> n \<le> 222 \<and> n \<noteq> 215)")
    case True
    then have "d = char_of (n + 32)"
      using eq by (simp add: lowerChar_def n_def Let_def)
    then have "(of_char d :: nat) = (n + 32) mod 256" by simp
    with True d show ?thesis by auto
  next
    case False
    then show ?thesis using eq by (auto simp: lowerChar_def n_def Let_def)
  qed
qed

lemma lowerChar_not_white: "\<not> isWhiteSpace (lowerChar c) \<Longrightarrow> \<not> isWhiteSpace c"
  by (auto simp: lowerChar_def isWhiteSpace_def Let_def)

lemma trim_decomp:
  "\<exists>l r. s = l @ trim s @ r \<and> (\<forall>c \<in> set l. isWhiteSpace c) \<and> (\<forall>c \<in> set r. isWhiteSpace c)"
proof -
  define a where "a = dropWhile isWhiteSpace s"
  have s: "s = takeWhile isWhiteSpace s @ a" by (simp add: a_def)
  have "rev a = takeWhile isWhiteSpace (rev a) @ dropWhile isWhiteSpace (rev a)" by simp
  then have "a = rev (dropWhile isWhiteSpace (rev a)) @ rev (takeWhile isWhiteSpace (rev a))"
    by (metis rev_append rev_rev_ident)
  then have a: "a = trim s @ rev (takeWhile isWhiteSpace (rev a))"
    by (simp add: trim_def a_def)
  have "s = takeWhile isWhiteSpace s @ trim s @ rev (takeWhile isWhiteSpace (rev a))"
    using s a by simp
  moreover have "\<forall>c \<in> set (takeWhile isWhiteSpace s). isWhiteSpace c"
    by (auto dest: set_takeWhileD)
  moreover have "\<forall>c \<in> set (rev (takeWhile isWhiteSpace (rev a))). isWhiteSpace c"
    by (auto dest: set_takeWhileD)
  ultimately show ?thesis by blast
qed

lemma includesStr_trim: "includesStr (trim s) x \<Longrightarrow> includesStr s x"
proof -
  assume "includesStr (trim s) x"
  then obtain p r where t: "trim s = p @ x @ r" unfolding includesStr_iff by blast
  obtain l r' where "s = l @ trim s @ r'" using trim_decomp by blast
  with t have "s = (l @ p) @ x @ (r @ r')" by simp
  then show ?thesis unfolding includesStr_iff by blast
qed

lemma includesStr_drop: "includesStr (drop k s) x \<Longrightarrow> includesStr s x"
proof -
  assume "includesStr (drop k s) x"
  then obtain p r where "drop k s = p @ x @ r" unfolding includesStr_iff by blast
  then have "s = (take k s @ p) @ x @ r" by (metis append.assoc append_take_drop_id)
  then show ?thesis unfolding includesStr_iff by blast
qed

lemma includesStr_Cons: "includesStr cs x \<Longrightarrow> includesStr (c # cs) x"
  by simp

subsection \<open>No markup, no result\<close>

lemma startsWithCI_Cons:
  "startsWithCI s (d # lit) \<Longrightarrow> \<exists>c cs. s = c # cs \<and> lowerChar c = d \<and> startsWithCI cs lit"
  by (cases s) (auto simp: startsWithCI_def toLowerCase_def)

lemma tagAttr_lt: "tagAttr (CHR ''<'' # t) names s = Some g \<Longrightarrow> CHR ''<'' \<in> set s"
proof -
  assume "tagAttr (CHR ''<'' # t) names s = Some g"
  then have "startsWithCI s (CHR ''<'' # t)"
    by (auto simp: tagAttr_def split: if_splits)
  then obtain c cs where "s = c # cs" "lowerChar c = CHR ''<''"
    using startsWithCI_Cons by blast
  then show ?thesis using lowerChar_below_A [of c "CHR ''<''"] by simp
qed

lemma searchTagAttr_lt: "CHR ''<'' \<notin> set s \<Longrightarrow> searchTagAttr (CHR ''<'' # t) names s = None"
proof (induction s)
  case Nil
  show ?case by simp
next
  case (Cons c cs)
  then have "tagAttr (CHR ''<'' # t) names (c # cs) = None"
    using tagAttr_lt [of t names "c # cs"] by (cases "tagAttr (CHR ''<'' # t) names (c # cs)") auto
  with Cons show ?case by simp
qed

lemma lower_separator: "toLowerCase p = ''://'' \<Longrightarrow> p = ''://''"
proof -
  assume "toLowerCase p = ''://''"
  then obtain a b c where p: "p = [a, b, c]"
    and l: "lowerChar a = CHR '':''" "lowerChar b = CHR ''/''" "lowerChar c = CHR ''/''"
    by (auto simp: toLowerCase_def map_eq_Cons_conv)
  have "a = CHR '':''" "b = CHR ''/''" "c = CHR ''/''"
    using l lowerChar_below_A [of a "CHR '':''"] lowerChar_below_A [of b "CHR ''/''"]
          lowerChar_below_A [of c "CHR ''/''"]
    by simp_all
  with p show ?thesis by simp
qed

lemma startsWithCI_scheme:
  assumes "startsWithCI s (lit @ ''://'')"
  shows "\<exists>scheme rest. s = scheme @ ''://'' @ rest \<and> toLowerCase scheme = lit"
proof -
  define p where "p = take (length (lit @ ''://'')) s"
  have s: "s = p @ drop (length (lit @ ''://'')) s" by (simp add: p_def)
  have "map lowerChar p = lit @ ''://''"
    using assms by (simp add: startsWithCI_def p_def toLowerCase_def)
  then obtain p1 p2 where p: "p = p1 @ p2" and l: "map lowerChar p1 = lit" "map lowerChar p2 = ''://''"
    by (auto simp: map_eq_append_conv)
  then have "p2 = ''://''" using lower_separator by (simp add: toLowerCase_def)
  with s p have "s = p1 @ ''://'' @ drop (length (lit @ ''://'')) s" by simp
  with l(1) show ?thesis unfolding toLowerCase_def by blast
qed

lemma schemeLength_includes: "schemeLength s = Some n \<Longrightarrow> includesStr s ''://''"
proof -
  assume "schemeLength s = Some n"
  then obtain lit where "startsWithCI s (lit @ ''://'')"
    by (auto simp: schemeLength_def split: if_splits intro: that [of "''https''"] that [of "''http''"])
  then obtain scheme rest where "s = scheme @ ''://'' @ rest"
    using startsWithCI_scheme by blast
  then show ?thesis unfolding includesStr_iff by blast
qed

lemma urlMatch_includes: "urlMatch s = Some u \<Longrightarrow> includesStr s ''://''"
proof (induction s)
  case Nil
  then show ?case by simp
next
  case (Cons c cs)
  show ?case
  proof (cases "urlHere (c # cs)")
    case None
    with Cons show ?thesis by simp
  next
    case (Some v)
    then obtain n where "schemeLength (c # cs) = Some n"
      by (auto simp: urlHere_def split: option.splits)
    then show ?thesis by (rule schemeLength_includes)
  qed
qed

lemma markdownHere_includes: "markdownHere s = Some g \<Longrightarrow> includesStr s ''://''"
proof -
  assume m: "markdownHere s = Some g"
  define r where "r = drop 2 s"
  define r1 where "r1 = drop (length (takeWhile (\<lambda>c. c \<noteq> CHR '']'') r)) r"
  define u where "u = drop 2 r1"
  from m obtain n where "schemeLength u = Some n"
    unfolding markdownHere_def r_def r1_def u_def Let_def
    by (auto split: if_splits option.splits)
  then have "includesStr u ''://''" by (rule schemeLength_includes)
  then show ?thesis
    unfolding u_def r1_def r_def by (blast dest: includesStr_drop)
qed

lemma markdownVideoMatch_includes: "markdownVideoMatch s = Some g \<Longrightarrow> includesStr s ''://''"
proof (induction s)
  case Nil
  then show ?case by simp
next
  case (Cons c cs)
  show ?case
  proof (cases "markdownHere (c # cs)")
    case None
    with Cons show ?thesis by simp
  next
    case (Some v)
    then show ?thesis by (rule markdownHere_includes)
  qed
qed

subsection \<open>The text of a JSON object holds a brace\<close>

lemma classifyWord_brace: "classifyWord w = Some t \<Longrightarrow> t \<noteq> TLBrace"
  by (auto simp: classifyWord_def split: if_splits)

lemma startToken_brace: "startToken c = Some (ts, m) \<Longrightarrow> TLBrace \<in> set ts \<Longrightarrow> c = CHR ''{''"
  by (auto simp: startToken_def split: if_splits)

lemma lexJson_brace:
  "lexJson m acc s = Some ts \<Longrightarrow> TLBrace \<in> set ts \<Longrightarrow> TLBrace \<in> set acc \<or> CHR ''{'' \<in> set s"
proof (induction m acc s rule: lexJson.induct)
  case (1 acc)
  then show ?case by auto
next
  case (2 w acc)
  then show ?case by (auto split: option.splits dest: classifyWord_brace)
next
  case (6 acc c cs)
  then show ?case
    by (fastforce split: option.splits dest: startToken_brace)
next
  case (7 w acc c cs)
  then show ?case
    by (fastforce split: option.splits if_splits dest: startToken_brace classifyWord_brace)
next
  case (8 s acc c cs)
  then show ?case by (auto split: if_splits)
next
  case (9 s acc c cs)
  then show ?case by (auto split: if_splits option.splits)
next
  case (10 s n v acc c cs)
  then show ?case by (auto simp: Let_def split: if_splits option.splits)
qed simp_all

lemma complete_bottom:
  "complete v st = Some (m', st') \<Longrightarrow>
   (st' \<noteq> [] \<and> (\<forall>xs. last st' \<noteq> FArr xs)) \<or> (\<exists>ms. m' = PDone (JObj ms)) \<Longrightarrow>
   (st \<noteq> [] \<and> (\<forall>xs. last st \<noteq> FArr xs)) \<or> (st = [] \<and> (\<exists>ms. v = JObj ms))"
  by (induction v st rule: complete.induct) (auto split: if_splits)

lemma parseStep_bottom:
  assumes "parseStep m st t = Some (m', st')"
    and "(st' \<noteq> [] \<and> (\<forall>xs. last st' \<noteq> FArr xs)) \<or> (\<exists>ms. m' = PDone (JObj ms))"
  shows "t = TLBrace \<or> (st \<noteq> [] \<and> (\<forall>xs. last st \<noteq> FArr xs))"
proof -
  have sv: "t = TLBrace \<or> (st \<noteq> [] \<and> (\<forall>xs. last st \<noteq> FArr xs))"
    if "startValue st t = Some (m', st')"
    using that assms(2) complete_bottom [of _ st m' st']
    by (cases t) (auto simp: startValue_def split: if_splits)
  have ca: "st \<noteq> [] \<and> (\<forall>xs. last st \<noteq> FArr xs)" if "closeArray st = Some (m', st')"
    using that assms(2)
    by (auto simp: closeArray_def split: list.splits frame.splits if_splits
             dest!: complete_bottom)
  have co: "st \<noteq> [] \<and> (\<forall>xs. last st \<noteq> FArr xs)" if "closeObject st = Some (m', st')"
    using that assms(2)
    by (auto simp: closeObject_def split: list.splits frame.splits if_splits
             dest!: complete_bottom)
  show ?thesis
  proof (cases m)
    case PValue
    with assms(1) show ?thesis using sv by (simp add: parseStep_def)
  next
    case PArrStart
    with assms(1) show ?thesis using sv ca by (auto simp: parseStep_def split: if_splits)
  next
    case PObjStart
    with assms show ?thesis using co by (cases t) (auto simp: parseStep_def)
  next
    case PKey
    with assms show ?thesis by (cases t) (auto simp: parseStep_def)
  next
    case (PColon k)
    with assms show ?thesis
      by (cases t) (auto simp: parseStep_def split: list.splits frame.splits if_splits)
  next
    case PAfterElem
    with assms show ?thesis using ca by (cases t) (auto simp: parseStep_def)
  next
    case PAfterMember
    with assms show ?thesis using co by (cases t) (auto simp: parseStep_def)
  next
    case (PDone v)
    with assms(1) show ?thesis by (simp add: parseStep_def)
  qed
qed

lemma parseTokens_object:
  "parseTokens m st ts = Some (JObj ms) \<Longrightarrow>
   TLBrace \<in> set ts \<or> (st \<noteq> [] \<and> (\<forall>xs. last st \<noteq> FArr xs)) \<or> (\<exists>ms'. m = PDone (JObj ms'))"
proof (induction ts arbitrary: m st)
  case Nil
  then show ?case by (cases m) auto
next
  case (Cons t ts)
  then obtain m' st' where step: "parseStep m st t = Some (m', st')"
    and rest: "parseTokens m' st' ts = Some (JObj ms)"
    by (auto split: option.splits)
  from Cons.IH [OF rest] consider "TLBrace \<in> set ts"
    | "(st' \<noteq> [] \<and> (\<forall>xs. last st' \<noteq> FArr xs)) \<or> (\<exists>ms'. m' = PDone (JObj ms'))"
    by blast
  then show ?case
  proof cases
    case 1
    then show ?thesis by simp
  next
    case 2
    then show ?thesis using parseStep_bottom [OF step] by auto
  qed
qed

lemma JSON_parse_object: "JSON_parse s = Some (JObj ms) \<Longrightarrow> CHR ''{'' \<in> set s"
proof -
  assume "JSON_parse s = Some (JObj ms)"
  then obtain ts where l: "lexJson Between [] s = Some ts"
    and p: "parseTokens PValue [] ts = Some (JObj ms)"
    by (auto simp: JSON_parse_def split: option.splits)
  from parseTokens_object [OF p] have "TLBrace \<in> set ts" by simp
  with lexJson_brace [OF l] show ?thesis by simp
qed

lemma parseMediaJson_brace: "CHR ''{'' \<notin> set s \<Longrightarrow> parseMediaJsonFromContent s = None"
  using JSON_parse_object [of s]
  by (auto simp: parseMediaJsonFromContent_def split: option.splits json.splits)

lemma plain_text_no_url:
  assumes "CHR ''{'' \<notin> set content" "CHR ''<'' \<notin> set content" "\<not> includesStr content ''://''"
  shows "extractVideoUrlFromText content = None"
proof -
  define t where "t = trim content"
  have sub: "set t \<subseteq> set content" unfolding t_def by (rule set_trim)
  have j: "parseMediaJsonFromContent t = None"
    using assms(1) sub by (intro parseMediaJson_brace) auto
  have lt: "CHR ''<'' \<notin> set t" using assms(2) sub by auto
  have v: "htmlVideoMatch t = None" "htmlSourceMatch t = None"
    using lt by (simp_all add: htmlVideoMatch_def htmlSourceMatch_def searchTagAttr_lt)
  have n: "\<not> includesStr t ''://''"
    using assms(3) includesStr_trim unfolding t_def by blast
  have m: "markdownVideoMatch t = None"
    using n markdownVideoMatch_includes by (cases "markdownVideoMatch t") auto
  have u: "urlMatch t = None"
    using n urlMatch_includes by (cases "urlMatch t") auto
  show ?thesis
    using j v m u unfolding extractVideoUrlFromText_def t_def [symmetric] Let_def
    by (simp add: candidateOf_def)
qed

subsection \<open>The first URL of a text\<close>

lemma dropWhile_keeps:
  "m \<noteq> [] \<Longrightarrow> \<not> P (hd m) \<Longrightarrow> \<exists>b'. dropWhile P (b @ m @ a) = b' @ m @ a"
proof -
  assume m: "m \<noteq> []" "\<not> P (hd m)"
  then have "dropWhile P (m @ a) = m @ a" by (cases m) auto
  then show ?thesis
    by (cases "\<forall>x \<in> set b. P x") (auto simp: dropWhile_append intro: exI [of _ "[]"])
qed

lemma trim_keeps:
  assumes "m \<noteq> []" "\<not> isWhiteSpace (hd m)" "\<not> isWhiteSpace (last m)"
  shows "\<exists>b' a'. trim (b @ m @ a) = b' @ m @ a'"
proof -
  obtain b' where b: "dropWhile isWhiteSpace (b @ m @ a) = b' @ m @ a"
    using dropWhile_keeps assms by blast
  have "rev m \<noteq> []" "\<not> isWhiteSpace (hd (rev m))"
    using assms by (simp_all add: hd_rev)
  then obtain a' where "dropWhile isWhiteSpace (rev a @ rev m @ rev b') = a' @ rev m @ rev b'"
    using dropWhile_keeps by blast
  then have "trim (b @ m @ a) = b' @ m @ rev a'"
    using b by (simp add: trim_def)
  then show ?thesis by blast
qed

lemma scheme_shape:
  assumes "toLowerCase scheme = ''http'' \<or> toLowerCase scheme = ''https''"
  shows "scheme \<noteq> []" and "\<not> isWhiteSpace (hd scheme)"
proof -
  from assms obtain c cs where s: "scheme = c # cs" and "lowerChar c = CHR ''h''"
    by (auto simp: toLowerCase_def map_eq_Cons_conv)
  then have "\<not> isWhiteSpace (lowerChar c)" by (simp add: isWhiteSpace_def)
  then have "\<not> isWhiteSpace c" by (rule lowerChar_not_white)
  with s show "scheme \<noteq> []" and "\<not> isWhiteSpace (hd scheme)" by simp_all
qed

lemma urlChar_not_white: "urlChar c \<Longrightarrow> \<not> isWhiteSpace c"
  by (simp add: urlChar_def)

lemma containsUrl_trim: "containsUrl s \<Longrightarrow> containsUrl (trim s)"
proof -
  assume "containsUrl s"
  then obtain before scheme c after where s: "s = before @ scheme @ ''://'' @ c # after"
    and sch: "toLowerCase scheme = ''http'' \<or> toLowerCase scheme = ''https''" and c: "urlChar c"
    unfolding containsUrl_def by blast
  define m where "m = scheme @ ''://'' @ [c]"
  have "m \<noteq> []" "\<not> isWhiteSpace (hd m)" "\<not> isWhiteSpace (last m)"
    using scheme_shape [OF sch] c by (simp_all add: m_def urlChar_not_white)
  then obtain b' a' where "trim (before @ m @ after) = b' @ m @ a'"
    using trim_keeps by blast
  then have "trim s = b' @ scheme @ ''://'' @ c # a'"
    using s by (simp add: m_def)
  with sch c show ?thesis unfolding containsUrl_def by blast
qed

lemma urlHere_core:
  assumes "toLowerCase scheme = ''http'' \<or> toLowerCase scheme = ''https''" and "urlChar c"
  shows "\<exists>u. urlHere (scheme @ ''://'' @ c # after) = Some u"
proof -
  have low: "toLowerCase ''://'' = ''://''" by code_simp
  from assms(1) show ?thesis
  proof
    assume h: "toLowerCase scheme = ''http''"
    then have "length (toLowerCase scheme) = 4" by simp
    then have len: "length scheme = 4" by (simp add: length_toLowerCase)
    have n8: "\<not> startsWithCI (scheme @ ''://'' @ c # after) ''https://''"
      using h len low by (auto simp: startsWithCI_def toLowerCase_def)
    have y7: "startsWithCI (scheme @ ''://'' @ c # after) ''http://''"
      using h len low by (auto simp: startsWithCI_def toLowerCase_def)
    show ?thesis
      using n8 y7 len assms(2) by (simp add: urlHere_def schemeLength_def Let_def)
  next
    assume h: "toLowerCase scheme = ''https''"
    then have "length (toLowerCase scheme) = 5" by simp
    then have len: "length scheme = 5" by (simp add: length_toLowerCase)
    have y8: "startsWithCI (scheme @ ''://'' @ c # after) ''https://''"
      using h len low by (auto simp: startsWithCI_def toLowerCase_def)
    show ?thesis
      using y8 len assms(2) by (simp add: urlHere_def schemeLength_def Let_def)
  qed
qed

lemma urlMatch_complete: "containsUrl s \<Longrightarrow> \<exists>u. urlMatch s = Some u"
proof -
  assume "containsUrl s"
  then obtain before scheme c after where s: "s = before @ scheme @ ''://'' @ c # after"
    and sch: "toLowerCase scheme = ''http'' \<or> toLowerCase scheme = ''https''" and c: "urlChar c"
    unfolding containsUrl_def by blast
  have "\<exists>u. urlMatch (before @ scheme @ ''://'' @ c # after) = Some u"
  proof (induction before)
    case Nil
    obtain u where u: "urlHere (scheme @ ''://'' @ c # after) = Some u"
      using urlHere_core [OF sch c] by blast
    obtain d ds where "scheme @ ''://'' @ c # after = d # ds"
      by (cases "scheme @ ''://'' @ c # after") auto
    with u show ?case by simp
  next
    case (Cons b before)
    then show ?case
      by (cases "urlHere (b # before @ scheme @ ''://'' @ c # after)") auto
  qed
  with s show ?thesis by simp
qed

lemma lowerChar_white: "isWhiteSpace c \<Longrightarrow> lowerChar c = c"
  by (auto simp: lowerChar_def isWhiteSpace_def Let_def)

lemma startsWithCI_length: "startsWithCI s lit \<Longrightarrow> length lit \<le> length s"
proof -
  assume "startsWithCI s lit"
  then have "length (toLowerCase (take (length lit) s)) = length lit"
    by (simp add: startsWithCI_def)
  then show ?thesis by (simp add: toLowerCase_def)
qed

lemma startsWithCI_white_suffix:
  assumes r: "\<forall>c \<in> set r. isWhiteSpace c" and lit: "\<forall>d \<in> set lit. \<not> isWhiteSpace d"
  shows "startsWithCI (t @ r) lit = startsWithCI t lit"
proof (cases "length lit \<le> length t")
  case True
  then show ?thesis by (simp add: startsWithCI_def)
next
  case False
  have "\<not> startsWithCI t lit" using False startsWithCI_length by blast
  moreover have "\<not> startsWithCI (t @ r) lit"
  proof
    assume a: "startsWithCI (t @ r) lit"
    then have len: "length lit \<le> length t + length r"
      using startsWithCI_length [of "t @ r" lit] by simp
    have "toLowerCase (t @ take (length lit - length t) r) = lit"
      using a False by (simp add: startsWithCI_def)
    moreover have "take (length lit - length t) r \<noteq> []"
      using False len by (cases r) auto
    then obtain x where x: "x \<in> set (take (length lit - length t) r)"
      by (meson last_in_set)
    ultimately have "lowerChar x \<in> set lit"
      unfolding toLowerCase_def
      by (metis Un_iff imageI image_set set_append)
    moreover have "isWhiteSpace x" using x r by (meson in_set_takeD)
    ultimately show False using lit lowerChar_white by fastforce
  qed
  ultimately show ?thesis by simp
qed

lemma schemeLength_white_suffix:
  "\<forall>c \<in> set r. isWhiteSpace c \<Longrightarrow> schemeLength (t @ r) = schemeLength t"
proof -
  assume r: "\<forall>c \<in> set r. isWhiteSpace c"
  have "\<forall>d \<in> set ''https://''. \<not> isWhiteSpace d" "\<forall>d \<in> set ''http://''. \<not> isWhiteSpace d"
    by (simp_all add: isWhiteSpace_def)
  then show ?thesis
    using r by (simp add: schemeLength_def startsWithCI_white_suffix)
qed

lemma schemeLength_le: "schemeLength s = Some n \<Longrightarrow> n \<le> length s"
  by (auto simp: schemeLength_def split: if_splits dest: startsWithCI_length)

lemma takeWhile_white_suffix:
  "\<forall>c \<in> set r. isWhiteSpace c \<Longrightarrow> takeWhile urlChar (xs @ r) = takeWhile urlChar xs"
proof (induction xs)
  case Nil
  then show ?case by (cases r) (auto simp: urlChar_def)
next
  case (Cons x xs)
  then show ?case by simp
qed

lemma urlHere_white_suffix:
  assumes "\<forall>c \<in> set r. isWhiteSpace c"
  shows "urlHere (t @ r) = urlHere t"
proof (cases "schemeLength t")
  case None
  then show ?thesis using assms by (simp add: urlHere_def schemeLength_white_suffix)
next
  case (Some n)
  then have "n \<le> length t" by (rule schemeLength_le)
  then show ?thesis
    using Some assms
    by (simp add: urlHere_def schemeLength_white_suffix takeWhile_white_suffix Let_def)
qed

lemma urlHere_white: "isWhiteSpace w \<Longrightarrow> urlHere (w # s) = None"
proof -
  assume w: "isWhiteSpace w"
  have "\<not> startsWithCI (w # s) (CHR ''h'' # lit)" for lit
  proof
    assume "startsWithCI (w # s) (CHR ''h'' # lit)"
    then have "lowerChar w = CHR ''h''" by (auto dest: startsWithCI_Cons)
    with w show False using lowerChar_white [of w] by (simp add: isWhiteSpace_def)
  qed
  then show ?thesis by (simp add: urlHere_def schemeLength_def)
qed

lemma urlMatch_white: "\<forall>c \<in> set l. isWhiteSpace c \<Longrightarrow> urlMatch (l @ s) = urlMatch s"
  by (induction l) (simp_all add: urlHere_white)

lemma urlMatch_white_suffix: "\<forall>c \<in> set r. isWhiteSpace c \<Longrightarrow> urlMatch (t @ r) = urlMatch t"
proof (induction t)
  case Nil
  then show ?case using urlMatch_white [of r "[]"] by simp
next
  case (Cons c cs)
  then show ?case
    using urlHere_white_suffix [of r "c # cs"] by (cases "urlHere (c # cs)") simp_all
qed

lemma urlMatch_trim: "urlMatch (trim s) = urlMatch s"
proof -
  obtain l r where "s = l @ trim s @ r" "\<forall>c \<in> set l. isWhiteSpace c" "\<forall>c \<in> set r. isWhiteSpace c"
    using trim_decomp by blast
  then show ?thesis
    using urlMatch_white [of l "trim s @ r"] urlMatch_white_suffix [of r "trim s"] by simp
qed

lemma schemeLength_shape:
  assumes "schemeLength s = Some n"
  shows "\<exists>scheme rest. s = scheme @ ''://'' @ rest \<and> n = length scheme + 3
           \<and> (toLowerCase scheme = ''http'' \<or> toLowerCase scheme = ''https'')"
proof -
  from assms consider "startsWithCI s (''https'' @ ''://'')" "n = 8"
    | "startsWithCI s (''http'' @ ''://'')" "n = 7"
    by (auto simp: schemeLength_def split: if_splits)
  then show ?thesis
  proof cases
    case 1
    then obtain scheme rest where s: "s = scheme @ ''://'' @ rest" "toLowerCase scheme = ''https''"
      using startsWithCI_scheme by blast
    then have "length (toLowerCase scheme) = 5" by simp
    then have "n = length scheme + 3" using 1(2) by (simp add: length_toLowerCase)
    with s show ?thesis by blast
  next
    case 2
    then obtain scheme rest where s: "s = scheme @ ''://'' @ rest" "toLowerCase scheme = ''http''"
      using startsWithCI_scheme by blast
    then have "length (toLowerCase scheme) = 4" by simp
    then have "n = length scheme + 3" using 2(2) by (simp add: length_toLowerCase)
    with s show ?thesis by blast
  qed
qed

lemma urlHere_sound: "urlHere s = Some u \<Longrightarrow> containsUrl s \<and> u \<noteq> [] \<and> (\<forall>c \<in> set u. \<not> isWhiteSpace c)"
proof -
  assume u: "urlHere s = Some u"
  then obtain n where n: "schemeLength s = Some n"
    and run: "takeWhile urlChar (drop n s) \<noteq> []"
    and ueq: "u = take n s @ takeWhile urlChar (drop n s)"
    by (auto simp: urlHere_def Let_def split: option.splits if_splits)
  obtain scheme rest where s: "s = scheme @ ''://'' @ rest" and len: "n = length scheme + 3"
    and sch: "toLowerCase scheme = ''http'' \<or> toLowerCase scheme = ''https''"
    using schemeLength_shape [OF n] by blast
  have d: "drop n s = rest" and t: "take n s = scheme @ ''://''"
    using s len by simp_all
  from run d obtain c after where r: "rest = c # after" "urlChar c"
    by (cases rest) (auto split: if_splits)
  have "s = [] @ scheme @ ''://'' @ c # after" using s r by simp
  then have 1: "containsUrl s"
    unfolding containsUrl_def using r sch by blast
  have "\<not> isWhiteSpace (lowerChar x)" if "x \<in> set scheme" for x
  proof -
    have "lowerChar x \<in> set (toLowerCase scheme)" using that by (simp add: toLowerCase_def)
    with sch show ?thesis by (auto simp: isWhiteSpace_def)
  qed
  then have "\<forall>x \<in> set scheme. \<not> isWhiteSpace x" using lowerChar_not_white by blast
  moreover have "\<forall>x \<in> set ''://''. \<not> isWhiteSpace x" by (simp add: isWhiteSpace_def)
  moreover have "\<forall>x \<in> set (takeWhile urlChar (drop n s)). \<not> isWhiteSpace x"
    by (auto dest!: set_takeWhileD simp: urlChar_def)
  ultimately have 3: "\<forall>x \<in> set u. \<not> isWhiteSpace x"
    unfolding ueq t by auto
  show ?thesis using 1 run ueq 3 by simp
qed

lemma containsUrl_Cons: "containsUrl s \<Longrightarrow> containsUrl (c # s)"
proof -
  assume "containsUrl s"
  then obtain before scheme d after where "s = before @ scheme @ ''://'' @ d # after"
    and r: "toLowerCase scheme = ''http'' \<or> toLowerCase scheme = ''https''" "urlChar d"
    unfolding containsUrl_def by blast
  then have "c # s = (c # before) @ scheme @ ''://'' @ d # after" by simp
  with r show ?thesis unfolding containsUrl_def by blast
qed

lemma urlMatch_sound:
  "urlMatch s = Some u \<Longrightarrow> containsUrl s \<and> u \<noteq> [] \<and> (\<forall>c \<in> set u. \<not> isWhiteSpace c)"
proof (induction s)
  case Nil
  then show ?case by simp
next
  case (Cons c cs)
  show ?case
  proof (cases "urlHere (c # cs)")
    case None
    with Cons show ?thesis using containsUrl_Cons by auto
  next
    case (Some v)
    with Cons.prems have "v = u" by simp
    with Some show ?thesis using urlHere_sound by blast
  qed
qed

lemma trim_id: "\<forall>c \<in> set u. \<not> isWhiteSpace c \<Longrightarrow> trim u = u"
proof -
  assume a: "\<forall>c \<in> set u. \<not> isWhiteSpace c"
  have "dropWhile isWhiteSpace xs = xs" if "\<forall>c \<in> set xs. \<not> isWhiteSpace c" for xs
    using that by (cases xs) auto
  from this [of u] this [of "rev u"] show ?thesis using a by (simp add: trim_def)
qed

lemma urlMatch_iff: "urlMatch s = None \<longleftrightarrow> \<not> containsUrl s"
  using urlMatch_sound [of s] urlMatch_complete [of s] by (cases "urlMatch s") auto

lemma markdownVideoMatch_bang: "markdownVideoMatch s = Some g \<Longrightarrow> CHR ''!'' \<in> set s"
proof (induction s)
  case Nil
  then show ?case by simp
next
  case (Cons c cs)
  show ?case
  proof (cases "markdownHere (c # cs)")
    case None
    with Cons show ?thesis by simp
  next
    case (Some v)
    then have "take 2 (c # cs) = ''![''"
      by (auto simp: markdownHere_def split: if_splits)
    then show ?thesis by simp
  qed
qed

lemma extract_after_steps:
  assumes "\<forall>u. parseMediaJsonFromContent (trim content) \<noteq> Some (''video'', u)"
    and "candidateOf (htmlVideoMatch (trim content)) = None"
    and "candidateOf (htmlSourceMatch (trim content)) = None"
    and "candidateOf (markdownVideoMatch (trim content)) = None"
  shows "extractVideoUrlFromText content = urlMatch content"
proof -
  define t where "t = trim content"
  have j: "(case parseMediaJsonFromContent t of
              Some (ty, u) \<Rightarrow> if ty = ''video'' \<and> u \<noteq> [] then Some u else None
            | None \<Rightarrow> None) = None"
    using assms(1) unfolding t_def by (auto split: option.splits)
  have u: "urlMatch content = urlMatch t"
    unfolding t_def by (simp add: urlMatch_trim)
  show ?thesis
  proof (cases "urlMatch t")
    case None
    then show ?thesis
      using j assms(2-4) u unfolding extractVideoUrlFromText_def t_def [symmetric] Let_def
      by simp
  next
    case (Some m)
    then have "m \<noteq> []" "trim m = m"
      using urlMatch_sound [of t m] trim_id [of m] by auto
    moreover have "t \<noteq> []" using Some by auto
    ultimately show ?thesis
      using Some j assms(2-4) u unfolding extractVideoUrlFromText_def t_def [symmetric] Let_def
      by simp
  qed
qed

lemma extract_some:
  assumes "containsUrl content"
  shows "extractVideoUrlFromText content \<noteq> None"
proof -
  define t where "t = trim content"
  have "containsUrl t" unfolding t_def using assms by (rule containsUrl_trim)
  then obtain m where m: "urlMatch t = Some m" using urlMatch_complete by blast
  then have "t \<noteq> []" "m \<noteq> []" using urlMatch_sound [of t m] by auto
  then show ?thesis
    using m unfolding extractVideoUrlFromText_def t_def [symmetric] Let_def
    by (simp split: option.splits)
qed

lemma unmarked_steps:
  assumes "CHR ''{'' \<notin> set content" "CHR ''<'' \<notin> set content" "CHR ''!'' \<notin> set content"
  shows "extractVideoUrlFromText content = urlMatch content"
proof -
  define t where "t = trim content"
  have sub: "set t \<subseteq> set content" unfolding t_def by (rule set_trim)
  have "parseMediaJsonFromContent t = None"
    using assms(1) sub by (intro parseMediaJson_brace) auto
  moreover have "CHR ''<'' \<notin> set t" using assms(2) sub by auto
  then have "htmlVideoMatch t = None" "htmlSourceMatch t = None"
    by (simp_all add: htmlVideoMatch_def htmlSourceMatch_def searchTagAttr_lt)
  moreover have "CHR ''!'' \<notin> set t" using assms(3) sub by auto
  then have "markdownVideoMatch t = None"
    using markdownVideoMatch_bang by (cases "markdownVideoMatch t") auto
  ultimately show ?thesis
    unfolding t_def by (intro extract_after_steps) (simp_all add: candidateOf_def)
qed

lemma generate_fails_without_url:
  assumes f: "\<forall>u k p. fetchWithRetry u k p = Inr response"
    and c: "getProp (getProp (getFirst (getProp (rs_json response) ''choices'')) ''message'') ''content''
              = Some (JStr content)"
    and n: "extractVideoUrlFromText content = None"
  shows "\<exists>e. generateViaExternalChat fetchWithRetry pricing channel vmodel request = Inl e"
    and "rs_ok response \<Longrightarrow> content \<noteq> [] \<Longrightarrow>
         orElse (vm_baseUrl vmodel) (ch_baseUrl channel) \<noteq> [] \<Longrightarrow>
         orElse (vm_apiKey vmodel) (ch_apiKey channel) \<noteq> [] \<Longrightarrow>
         generateViaExternalChat fetchWithRetry pricing channel vmodel request = Inl VideoUrlNotFound"
  using f c n by (simp_all add: generateViaExternalChat_def Let_def)

section \<open>Properties of the prompt processor\<close>

subsection \<open>Validation comes first\<close>

lemma andThen_Inl: "andThen (Inl e, sent) f = (Inl e, sent)"
  by (simp add: andThen_def)

lemma andThen_Inr: "andThen (Inr a, sent) f = (fst (f a), sent @ snd (f a))"
  by (simp add: andThen_def split: prod.splits)

lemma validateOptions_translate:
  assumes "translateEnabled options"
    and "translateModelId options = [] \<or> translatePrompt options = []
         \<or> filterModelId options = [] \<or> filterPrompt options = []"
  shows "\<exists>msg. validateOptions options = Inl (Error msg)"
proof (cases "filterEnabled options \<and> (filterModelId options = [] \<or> filterPrompt options = [])")
  case True
  then show ?thesis by (simp add: validateOptions_def)
next
  case False
  show ?thesis
  proof (cases "translateModelId options = [] \<or> translatePrompt options = []")
    case True
    with False assms(1) show ?thesis by (simp add: validateOptions_def)
  next
    case f: False
    with assms(2) have "filterModelId options = [] \<or> filterPrompt options = []" by blast
    with False f assms(1) show ?thesis by (simp add: validateOptions_def)
  qed
qed

lemma validation_fails_first:
  assumes "trim original \<noteq> []"
    and "promptProcessing env = Some config"
    and "translateEnabled config"
    and "trim (translateModelId config) = []
         \<or> trim (orElse (translatePrompt config) DEFAULT_TRANSLATE_PROMPT) = []
         \<or> trim (filterModelId config) = []
         \<or> trim (orElse (filterPrompt config) DEFAULT_FILTER_PROMPT) = []"
  shows "\<exists>msg. validateOptions (normalizeOptions config) = Inl (Error msg)
           \<and> processVideoPromptWith run env original = (Inl (Error msg), [])"
proof -
  define options where "options = normalizeOptions config"
  have o: "translateEnabled options"
    "translateModelId options = [] \<or> translatePrompt options = []
     \<or> filterModelId options = [] \<or> filterPrompt options = []"
    using assms(3,4) by (auto simp: options_def normalizeOptions_def)
  obtain msg where v: "validateOptions options = Inl (Error msg)"
    using validateOptions_translate [OF o] by blast
  have cfg: "(case promptProcessing env of
                Some c \<Rightarrow> c
              | None \<Rightarrow>
                  \<lparr> filterEnabled = False, filterModelId = [],
                    filterPrompt = DEFAULT_FILTER_PROMPT,
                    translateEnabled = False, translateModelId = [],
                    translatePrompt = DEFAULT_TRANSLATE_PROMPT \<rparr>) = config"
    using assms(2) by simp
  have "processVideoPromptWith run env original = (Inl (Error msg), [])"
    unfolding processVideoPromptWith_def Let_def cfg options_def [symmetric]
    using assms(1) o(1) v by simp
  with v show ?thesis unfolding options_def by blast
qed

lemma default_prompts_not_blank:
  "trim DEFAULT_TRANSLATE_PROMPT \<noteq> []" "trim DEFAULT_FILTER_PROMPT \<noteq> []"
  by code_simp+

lemma instruction_blank_iff:
  "(trim (orElse (translatePrompt config) DEFAULT_TRANSLATE_PROMPT) = [])
     = (translatePrompt config \<noteq> [] \<and> trim (translatePrompt config) = [])"
  "(trim (orElse (filterPrompt config) DEFAULT_FILTER_PROMPT) = [])
     = (filterPrompt config \<noteq> [] \<and> trim (filterPrompt config) = [])"
  using default_prompts_not_blank by (auto simp: orElse_def)

lemma validateOptions_translate_ok:
  assumes "translateEnabled options"
  shows "(validateOptions options = Inr ())
           = (translateModelId options \<noteq> [] \<and> translatePrompt options \<noteq> []
              \<and> filterModelId options \<noteq> [] \<and> filterPrompt options \<noteq> [])"
  using assms by (auto simp: validateOptions_def)

lemma blank_prompt_returned:
  assumes "trim original = []"
  shows "processVideoPromptWith run env original
           = (Inr \<lparr> originalPrompt = [], filteredPrompt = None, translatedPrompt = None,
                    processedPrompt = [] \<rparr>, [])"
  using assms by (simp add: processVideoPromptWith_def)

subsection \<open>One completion, in both versions\<close>

lemma includesStr_self: "includesStr s s"
proof -
  have "s = [] @ s @ []" by simp
  then show ?thesis unfolding includesStr_iff by blast
qed

lemma run_with_response:
  assumes "getChatModel env modelId = Some model" "cm_enabled model"
    and "\<forall>request. \<exists>response. fetch env request = Inr response \<and> P response"
  shows "\<exists>request response. P response
           \<and> runPromptCompletionWith readContent env modelId instruction inputPrompt
               = (responseOutcome readContent response, [request])"
proof -
  define request where "request = completionRequest model instruction inputPrompt"
  obtain response where r: "fetch env request = Inr response" "P response"
    using assms(3) by blast
  have "runPromptCompletionWith readContent env modelId instruction inputPrompt
          = (responseOutcome readContent response, [request])"
    using assms(1,2) r(1)
    unfolding runPromptCompletionWith_def Let_def request_def by simp
  with r(2) show ?thesis by blast
qed

lemma run1_empty:
  assumes "getChatModel env modelId = Some model" "cm_enabled model"
    and "\<forall>request. \<exists>response. fetch env request = Inr response \<and> rs_ok response
           \<and> extractFinalPrompt (readContent1 (bodyOf response)) = []"
  shows "fst (runPromptCompletion1 env modelId instruction inputPrompt)
           = Inl (Error EMPTY_PROMPT_PROCESSOR_ERROR)"
proof -
  obtain request response where "rs_ok response \<and> extractFinalPrompt (readContent1 (bodyOf response)) = []"
    and "runPromptCompletionWith readContent1 env modelId instruction inputPrompt
           = (responseOutcome readContent1 response, [request])"
    using run_with_response [OF assms(1,2), where readContent = readContent1
            and P = "\<lambda>r. rs_ok r \<and> extractFinalPrompt (readContent1 (bodyOf r)) = []"] assms(3)
    by blast
  then show ?thesis
    by (simp add: runPromptCompletion1_def responseOutcome_def Let_def)
qed

lemma fallback_empty:
  assumes "getChatModel env modelId = Some model" "cm_enabled model"
    and "\<forall>request. \<exists>response. fetch env request = Inr response \<and> rs_ok response
           \<and> extractFinalPrompt (extractCompletionContent (bodyOf response)) = []"
  shows "fst (runPromptCompletionWithFallback env modelId instruction inputPrompt) = Inr inputPrompt"
proof -
  obtain request response
    where "rs_ok response \<and> extractFinalPrompt (extractCompletionContent (bodyOf response)) = []"
    and "runPromptCompletionWith extractCompletionContent env modelId instruction inputPrompt
           = (responseOutcome extractCompletionContent response, [request])"
    using run_with_response [OF assms(1,2), where readContent = extractCompletionContent
            and P = "\<lambda>r. rs_ok r \<and> extractFinalPrompt (extractCompletionContent (bodyOf r)) = []"]
          assms(3)
    by blast
  then show ?thesis
    by (simp add: runPromptCompletionWithFallback_def runPromptCompletion2_def responseOutcome_def
                  Let_def isPromptProcessorEmptyContentError_def includesStr_self)
qed

lemma fallback_same:
  assumes "getChatModel env modelId = Some model" "cm_enabled model"
    and "\<forall>request. \<exists>response. fetch env request = Inr response \<and> rs_ok response
           \<and> extractFinalPrompt (extractCompletionContent (bodyOf response))
               = extractFinalPrompt (readContent1 (bodyOf response))
           \<and> extractFinalPrompt (readContent1 (bodyOf response)) \<noteq> []"
  shows "runPromptCompletionWithFallback env modelId instruction inputPrompt
           = runPromptCompletion1 env modelId instruction inputPrompt"
proof -
  define request where "request = completionRequest model instruction inputPrompt"
  obtain response where r: "fetch env request = Inr response" "rs_ok response"
      "extractFinalPrompt (extractCompletionContent (bodyOf response))
         = extractFinalPrompt (readContent1 (bodyOf response))"
      "extractFinalPrompt (readContent1 (bodyOf response)) \<noteq> []"
    using assms(3) by blast
  have 1: "runPromptCompletionWith rc env modelId instruction inputPrompt
          = (responseOutcome rc response, [request])" for rc
    using assms(1,2) r(1)
    unfolding runPromptCompletionWith_def Let_def request_def by simp
  have 2: "responseOutcome extractCompletionContent response = responseOutcome readContent1 response"
    using r(3) by (simp add: responseOutcome_def Let_def)
  have 3: "\<exists>result. responseOutcome readContent1 response = Inr result"
    using r(2,4) by (simp add: responseOutcome_def Let_def)
  show ?thesis
    using 1 2 3
    by (auto simp: runPromptCompletionWithFallback_def runPromptCompletion2_def
                   runPromptCompletion1_def)
qed

lemma pipeline_cong:
  assumes "\<And>m i p. run env m i p = run' env m i p"
  shows "processVideoPromptWith run env original = processVideoPromptWith run' env original"
proof -
  have e: "run env = run' env"
    by (intro ext) (rule assms)
  show ?thesis
    unfolding processVideoPromptWith_def e by (rule refl)
qed

lemma pipeline_fails:
  assumes "trim original \<noteq> []"
    and "filterEnabled (normalizeOptions config) \<or> translateEnabled (normalizeOptions config)"
    and "validateOptions (normalizeOptions config) = Inr ()"
    and "promptProcessing env = Some config"
    and "\<And>m i p. fst (run env m i p) = Inl e"
  shows "fst (processVideoPromptWith run env original) = Inl e"
proof -
  have cfg: "(case promptProcessing env of
                Some c \<Rightarrow> c
              | None \<Rightarrow>
                  \<lparr> filterEnabled = False, filterModelId = [],
                    filterPrompt = DEFAULT_FILTER_PROMPT,
                    translateEnabled = False, translateModelId = [],
                    translatePrompt = DEFAULT_TRANSLATE_PROMPT \<rparr>) = config"
    using assms(4) by simp
  have r: "\<exists>sent. run env m i p = (Inl e, sent)" for m i p
    using assms(5) [of m i p] by (cases "run env m i p") auto
  define options where "options = normalizeOptions config"
  obtain s1 where s1: "run env (filterModelId options) (filterPrompt options) (trim original) = (Inl e, s1)"
    using r by blast
  obtain s2 where s2: "run env (translateModelId options) (translatePrompt options) (trim original) = (Inl e, s2)"
    using r by blast
  show ?thesis
    unfolding processVideoPromptWith_def Let_def cfg options_def [symmetric]
    using assms(1,2,3) s1 s2
    by (auto simp: options_def [symmetric] andThen_def)
qed

lemma pipeline_passes:
  assumes "trim original \<noteq> []"
    and "validateOptions (normalizeOptions config) = Inr ()"
    and "promptProcessing env = Some config"
    and "\<And>m i p. fst (run env m i p) = Inr p"
  shows "\<exists>r. fst (processVideoPromptWith run env original) = Inr r
           \<and> originalPrompt r = trim original \<and> processedPrompt r = trim original"
proof -
  have cfg: "(case promptProcessing env of
                Some c \<Rightarrow> c
              | None \<Rightarrow>
                  \<lparr> filterEnabled = False, filterModelId = [],
                    filterPrompt = DEFAULT_FILTER_PROMPT,
                    translateEnabled = False, translateModelId = [],
                    translatePrompt = DEFAULT_TRANSLATE_PROMPT \<rparr>) = config"
    using assms(3) by simp
  have r: "\<exists>sent. run env m i p = (Inr p, sent)" for m i p
    using assms(4) [of m i p] by (cases "run env m i p") auto
  define options where "options = normalizeOptions config"
  obtain s1 where s1: "run env (filterModelId options) (filterPrompt options) (trim original)
                         = (Inr (trim original), s1)"
    using r by blast
  obtain s2 where s2: "run env (translateModelId options) (translatePrompt options) (trim original)
                         = (Inr (trim original), s2)"
    using r by blast
  show ?thesis
    unfolding processVideoPromptWith_def Let_def cfg options_def [symmetric]
    using assms(1,2) s1 s2
    by (auto simp: options_def [symmetric] andThen_def)
qed

lemma enabled_options:
  "(filterEnabled (normalizeOptions config) \<or> translateEnabled (normalizeOptions config))
     = (filterEnabled config \<or> translateEnabled config)"
  by (simp add: normalizeOptions_def)

lemma answeringEnv_models:
  "\<forall>modelId. \<exists>model. getChatModel (answeringEnv body config) modelId = Some model \<and> cm_enabled model"
  by (simp add: answeringEnv_def sampleChatModel_def)

lemma answeringEnv_fetch:
  "fetch (answeringEnv body config) request = Inr \<lparr> rs_ok = True, rs_status = 200, rs_json = body \<rparr>"
  by (simp add: answeringEnv_def)

lemma answeringEnv_promptProcessing:
  "promptProcessing (answeringEnv body config) = Some config"
  by (simp add: answeringEnv_def)

subsection \<open>An answer read as empty, an answer read alike\<close>

lemma run1_on_empty:
  assumes "getChatModel env modelId = Some model" "cm_enabled model"
    and "fetch env (completionRequest model instruction inputPrompt) = Inr response"
    and "rs_ok response"
    and "extractFinalPrompt (readContent1 (bodyOf response)) = []"
  shows "runPromptCompletion1 env modelId instruction inputPrompt
           = (Inl (Error EMPTY_PROMPT_PROCESSOR_ERROR),
              [completionRequest model instruction inputPrompt])"
  using assms
  by (simp add: runPromptCompletion1_def runPromptCompletionWith_def responseOutcome_def Let_def)

lemma fallback_on_empty:
  assumes "getChatModel env modelId = Some model" "cm_enabled model"
    and "fetch env (completionRequest model instruction inputPrompt) = Inr response"
    and "rs_ok response"
    and "extractFinalPrompt (extractCompletionContent (bodyOf response)) = []"
  shows "runPromptCompletionWithFallback env modelId instruction inputPrompt
           = (Inr inputPrompt, [completionRequest model instruction inputPrompt])"
  using assms
  by (simp add: runPromptCompletionWithFallback_def runPromptCompletion2_def
                runPromptCompletionWith_def responseOutcome_def Let_def
                isPromptProcessorEmptyContentError_def includesStr_self)

lemma variants_differ_on_empty:
  assumes models: "\<forall>modelId. \<exists>model. getChatModel env modelId = Some model \<and> cm_enabled model"
    and e: "\<forall>request. \<exists>response. fetch env request = Inr response \<and> rs_ok response
          \<and> extractFinalPrompt (readContent1 (bodyOf response)) = []
          \<and> extractFinalPrompt (extractCompletionContent (bodyOf response)) = []"
    and o: "trim original \<noteq> []" "promptProcessing env = Some config"
        "filterEnabled config \<or> translateEnabled config"
        "validateOptions (normalizeOptions config) = Inr ()"
  shows "fst (processVideoPrompt1 env original) = Inl (Error EMPTY_PROMPT_PROCESSOR_ERROR)
            \<and> (\<exists>r. fst (processVideoPrompt2 env original) = Inr r
                    \<and> originalPrompt r = trim original \<and> processedPrompt r = trim original)
            \<and> processVideoPrompt1 env original \<noteq> processVideoPrompt2 env original"
proof -
  have available: "\<exists>model. getChatModel env m = Some model \<and> cm_enabled model" for m
    using models by blast
  have e1: "\<forall>request. \<exists>response. fetch env request = Inr response \<and> rs_ok response
        \<and> extractFinalPrompt (readContent1 (bodyOf response)) = []"
    using e by blast
  have e2: "\<forall>request. \<exists>response. fetch env request = Inr response \<and> rs_ok response
        \<and> extractFinalPrompt (extractCompletionContent (bodyOf response)) = []"
    using e by blast
  have a: "fst (runPromptCompletion1 env m i p) = Inl (Error EMPTY_PROMPT_PROCESSOR_ERROR)" for m i p
    using available [of m] run1_empty e1 by blast
  have b: "fst (runPromptCompletionWithFallback env m i p) = Inr p" for m i p
    using available [of m] fallback_empty e2 by blast
  have 1: "fst (processVideoPrompt1 env original) = Inl (Error EMPTY_PROMPT_PROCESSOR_ERROR)"
    unfolding processVideoPrompt1_def
    using o a by (intro pipeline_fails [where config = config]) (simp_all add: enabled_options)
  have 2: "\<exists>r. fst (processVideoPrompt2 env original) = Inr r
              \<and> originalPrompt r = trim original \<and> processedPrompt r = trim original"
    unfolding processVideoPrompt2_def
    using o b by (intro pipeline_passes [where config = config]) simp_all
  from 1 2 have "processVideoPrompt1 env original \<noteq> processVideoPrompt2 env original"
    by auto
  with 1 2 show ?thesis by blast
qed

lemma variants_agree_on_same_text:
  assumes models: "\<forall>modelId. \<exists>model. getChatModel env modelId = Some model \<and> cm_enabled model"
    and s: "\<forall>request. \<exists>response. fetch env request = Inr response \<and> rs_ok response
          \<and> extractFinalPrompt (extractCompletionContent (bodyOf response))
              = extractFinalPrompt (readContent1 (bodyOf response))
          \<and> extractFinalPrompt (readContent1 (bodyOf response)) \<noteq> []"
  shows "processVideoPrompt1 env original = processVideoPrompt2 env original"
proof -
  have available: "\<exists>model. getChatModel env m = Some model \<and> cm_enabled model" for m
    using models by blast
  have "runPromptCompletion1 env m i p = runPromptCompletionWithFallback env m i p" for m i p
    using available [of m] fallback_same [where env = env and modelId = m] s by metis
  then show ?thesis
    unfolding processVideoPrompt1_def processVideoPrompt2_def by (rule pipeline_cong)
qed

lemma getProp_object:
  assumes "getProp (Some v) key = Some w"
  shows "\<exists>members. v = JObj members"
  using assms by (cases v) (simp_all add: getProp_def)

lemma extractFinalPrompt_trim: "extractFinalPrompt (trim s) = extractFinalPrompt s"
  by (simp add: extractFinalPrompt_def trim_trim)

lemma extractFinalPrompt_blank: "trim s = [] \<Longrightarrow> extractFinalPrompt s = []"
  by (simp add: extractFinalPrompt_def stripCodeFence_def)

lemma string_content_read:
  assumes c: "getProp (Some data) ''choices'' = Some (JArr (choice # rest))"
    and m: "getProp (Some choice) ''message'' = Some reply"
    and s: "getProp (Some reply) ''content'' = Some (JStr s)"
  shows "readContent1 data = trim s"
    and "trim s \<noteq> [] \<Longrightarrow> extractCompletionContent data = trim s"
proof -
  show "readContent1 data = trim s"
    using c m s by (simp add: readContent1_def getFirst_def normalizeModelText1_def)
  assume n: "trim s \<noteq> []"
  obtain dm where d: "data = JObj dm" using getProp_object [OF c] by blast
  obtain cm where ch: "choice = JObj cm" using getProp_object [OF m] by blast
  obtain mm where me: "reply = JObj mm" using getProp_object [OF s] by blast
  have 1: "asObject (Some data) = Some data" by (simp add: asObject_def d)
  have 2: "asObject (firstOfArray (getProp (Some data) ''choices'')) = Some choice"
    by (simp add: c firstOfArray_def asObject_def ch)
  have 3: "asObject (getProp (Some choice) ''message'') = Some reply"
    by (simp add: m asObject_def me)
  have 4: "normalizeText2 (getProp (Some reply) ''content'') = trim s"
    by (simp add: s normalizeText2_def)
  show "extractCompletionContent data = trim s"
    using n by (simp add: extractCompletionContent_def 1 2 3 4 Let_def trim_trim)
qed

lemma string_content_same:
  assumes "getProp (Some data) ''choices'' = Some (JArr (choice # rest))"
    and "getProp (Some choice) ''message'' = Some reply"
    and "getProp (Some reply) ''content'' = Some (JStr s)"
    and "extractFinalPrompt s \<noteq> []"
  shows "extractFinalPrompt (readContent1 data) = extractFinalPrompt s"
    and "extractFinalPrompt (extractCompletionContent data) = extractFinalPrompt s"
proof -
  have n: "trim s \<noteq> []"
    using assms(4) extractFinalPrompt_blank by blast
  show "extractFinalPrompt (readContent1 data) = extractFinalPrompt s"
    using string_content_read(1) [OF assms(1,2,3)] by (simp add: extractFinalPrompt_trim)
  show "extractFinalPrompt (extractCompletionContent data) = extractFinalPrompt s"
    using string_content_read(2) [OF assms(1,2,3) n] by (simp add: extractFinalPrompt_trim)
qed

lemma variants_agree_on_string_content:
  assumes models: "\<forall>modelId. \<exists>model. getChatModel env modelId = Some model \<and> cm_enabled model"
    and s: "\<forall>request. \<exists>response choice rest reply s.
              fetch env request = Inr response \<and> rs_ok response
              \<and> getProp (Some (bodyOf response)) ''choices'' = Some (JArr (choice # rest))
              \<and> getProp (Some choice) ''message'' = Some reply
              \<and> getProp (Some reply) ''content'' = Some (JStr s)
              \<and> extractFinalPrompt s \<noteq> []"
  shows "processVideoPrompt1 env original = processVideoPrompt2 env original"
proof (rule variants_agree_on_same_text [OF models], intro allI)
  fix request
  obtain response choice rest reply s
    where r: "fetch env request = Inr response" "rs_ok response"
      "getProp (Some (bodyOf response)) ''choices'' = Some (JArr (choice # rest))"
      "getProp (Some choice) ''message'' = Some reply"
      "getProp (Some reply) ''content'' = Some (JStr s)"
      "extractFinalPrompt s \<noteq> []"
    using s by blast
  have "extractFinalPrompt (extractCompletionContent (bodyOf response))
          = extractFinalPrompt (readContent1 (bodyOf response))"
       "extractFinalPrompt (readContent1 (bodyOf response)) \<noteq> []"
    using string_content_same [OF r(3,4,5,6)] r(6) by simp_all
  with r(1,2)
  show "\<exists>response. fetch env request = Inr response \<and> rs_ok response
          \<and> extractFinalPrompt (extractCompletionContent (bodyOf response))
              = extractFinalPrompt (readContent1 (bodyOf response))
          \<and> extractFinalPrompt (readContent1 (bodyOf response)) \<noteq> []"
    by blast
qed

section \<open>The claims about the blocklist matcher\<close>

text \<open>
  Claim C1. For every prompt and every configuration, \<open>assertPromptAllowedWithConfig\<close>
  throws exactly when \<open>blocklistEnabled\<close> is true and \<open>findBlockedWords\<close> on the prompt
  and the configured rule text is not empty. The message of the error is the prefix
  \<open>Prompt blocked by safety policy\<close>, then \<open>: \<close>, then the matched raw rule lines
  joined with a comma and a space. When blocking is not enabled the call returns normally,
  whatever the prompt and the rule text.
\<close>

theorem assertPromptAllowedWithConfig_throws_iff:
  "((\<exists>e. assertPromptAllowedWithConfig ctor prompt config = Inl e) \<longleftrightarrow>
      blocklistEnabled config = Some True \<and>
      findBlockedWords ctor prompt (case blocklistWords config of None \<Rightarrow> [] | Some w \<Rightarrow> w) \<noteq> [])
   \<and> (\<forall>e. assertPromptAllowedWithConfig ctor prompt config = Inl e \<longrightarrow>
        message e = PROMPT_BLOCKED_ERROR_PREFIX @ '': '' @
          joinWith '', '' (findBlockedWords ctor prompt (case blocklistWords config of None \<Rightarrow> [] | Some w \<Rightarrow> w)))
   \<and> PROMPT_BLOCKED_ERROR_PREFIX = ''Prompt blocked by safety policy''
   \<and> (blocklistEnabled config \<noteq> Some True \<longrightarrow>
        (\<forall>p rules. assertPromptAllowedWithConfig ctor p (config\<lparr>blocklistWords := rules\<rparr>) = Inr ()))"
proof -
  let ?found = "findBlockedWords ctor prompt (case blocklistWords config of None \<Rightarrow> [] | Some w \<Rightarrow> w)"
  have off: "assertPromptAllowedWithConfig ctor p c = Inr ()" if "blocklistEnabled c \<noteq> Some True" for p c
    using that by (simp add: assertPromptAllowedWithConfig_def)
  have on: "assertPromptAllowedWithConfig ctor prompt config =
              (if ?found \<noteq> [] then Inl (Error (buildPromptBlockedMessage ?found)) else Inr ())"
    if "blocklistEnabled config = Some True"
    using that by (simp add: assertPromptAllowedWithConfig_def Let_def)
  have msg: "message (Error (buildPromptBlockedMessage ?found))
               = PROMPT_BLOCKED_ERROR_PREFIX @ '': '' @ joinWith '', '' ?found"
    by (simp only: buildPromptBlockedMessage_def error.sel)
  show ?thesis
  proof (cases "blocklistEnabled config = Some True")
    case True
    show ?thesis
      using True on [OF True] msg off
      by (cases "?found = []") (simp_all add: PROMPT_BLOCKED_ERROR_PREFIX_def)
  next
    case False
    then show ?thesis using off by (simp add: PROMPT_BLOCKED_ERROR_PREFIX_def)
  qed
qed

theorem assertPromptAllowedWithConfig_throws_iff_witness:
  "assertPromptAllowedWithConfig literalRegExp ''the cat sat on the mat''
     \<lparr> blocklistEnabled = Some True, blocklistWords = Some ''word:cat, substr:MAT'' \<rparr> = Inr ()
   \<and> assertPromptAllowedWithConfig literalRegExp ''the cat sat on the mat''
       \<lparr> blocklistEnabled = Some True,
         blocklistWords = Some (''word:cat'' @ [CHR 0x0A] @ ''dog'' @ [CHR 0x0A] @ ''substr:MAT'') \<rparr>
       = Inl (Error ''Prompt blocked by safety policy: word:cat, substr:MAT'')
   \<and> assertPromptAllowedWithConfig literalRegExp ''the cat sat on the mat''
       \<lparr> blocklistEnabled = None,
         blocklistWords = Some (''word:cat'' @ [CHR 0x0A] @ ''dog'' @ [CHR 0x0A] @ ''substr:MAT'') \<rparr>
       = Inr ()"
proof -
  let ?rules = "''word:cat'' @ [CHR 0x0A] @ ''dog'' @ [CHR 0x0A] @ ''substr:MAT''"
  let ?on = "\<lparr> blocklistEnabled = Some True, blocklistWords = Some ?rules \<rparr>"
  let ?off = "\<lparr> blocklistEnabled = None, blocklistWords = Some ?rules \<rparr>"
  let ?one = "\<lparr> blocklistEnabled = Some True, blocklistWords = Some ''word:cat, substr:MAT'' \<rparr>"
  have f1: "findBlockedWords literalRegExp ''the cat sat on the mat'' ''word:cat, substr:MAT'' = []"
    by code_simp
  have f2: "findBlockedWords literalRegExp ''the cat sat on the mat'' ?rules
              = [''word:cat'', ''substr:MAT'']"
    by code_simp
  have a1: "assertPromptAllowedWithConfig literalRegExp ''the cat sat on the mat'' ?one = Inr ()"
    using assertPromptAllowedWithConfig_throws_iff [of literalRegExp "''the cat sat on the mat''" ?one] f1
    by (cases "assertPromptAllowedWithConfig literalRegExp ''the cat sat on the mat'' ?one") auto
  obtain e where e: "assertPromptAllowedWithConfig literalRegExp ''the cat sat on the mat'' ?on = Inl e"
    using assertPromptAllowedWithConfig_throws_iff [of literalRegExp "''the cat sat on the mat''" ?on] f2
    by auto
  then have "message e = ''Prompt blocked by safety policy'' @ '': '' @ joinWith '', '' [''word:cat'', ''substr:MAT'']"
    using assertPromptAllowedWithConfig_throws_iff [of literalRegExp "''the cat sat on the mat''" ?on] f2
    by simp
  then have a2: "e = Error ''Prompt blocked by safety policy: word:cat, substr:MAT''"
    by (cases e) simp
  have a3: "assertPromptAllowedWithConfig literalRegExp ''the cat sat on the mat'' ?off = Inr ()"
    using assertPromptAllowedWithConfig_throws_iff [of literalRegExp "''the cat sat on the mat''" ?off]
    by simp
  show ?thesis using a1 e a2 a3 by simp
qed



text \<open>
  Claim C3. A \<open>word:\<close> rule with the value \<open>cat\<close> matches the prompt \<open>the cat sat\<close>
  (a whole-word match, without regard to case, whose boundaries are the characters that
  are neither letters nor numbers nor the underscore) and does not match the prompt
  \<open>concatenate\<close>; a \<open>substr:\<close> rule with the value \<open>cat\<close> matches \<open>concatenate\<close>
  (containment, without regard to case). The last conjunct is the boundary after a letter
  outside ASCII (U+00E9).
\<close>

theorem word_rule_and_substr_rule_on_cat:
  "findBlockedWords ctor ''the cat sat'' ''word:cat'' = [''word:cat'']
   \<and> findBlockedWords ctor ''concatenate'' ''word:cat'' = []
   \<and> findBlockedWords ctor ''concatenate'' ''substr:cat'' = [''substr:cat'']
   \<and> findBlockedWords ctor ''The CAT sat'' ''word:cat'' = [''word:cat'']
   \<and> findBlockedWords ctor ''conCATenate'' ''substr:cAt'' = [''substr:cAt'']
   \<and> (case parseRule ctor ''word:cat'' of
         Some (WordRule raw v regex) \<Rightarrow> raw = ''word:cat'' \<and> v = ''cat'' | _ \<Rightarrow> False)
   \<and> (case parseRule ctor ''substr:cat'' of
         Some (SubstringRule raw v) \<Rightarrow> raw = ''substr:cat'' \<and> v = ''cat'' | _ \<Rightarrow> False)
   \<and> re_test (buildWordBoundaryRegex ''cat'') ''the cat sat''
   \<and> \<not> re_test (buildWordBoundaryRegex ''cat'') ''concatenate''
   \<and> \<not> re_test (buildWordBoundaryRegex ''cat'') (''cat'' @ [CHR 0xE9])"
  by code_simp

theorem word_rule_and_substr_rule_on_cat_witness:
  "findBlockedWords literalRegExp ''the cat sat'' ''word:cat'' = [''word:cat'']
   \<and> findBlockedWords literalRegExp ''concatenate'' ''word:cat'' = []
   \<and> findBlockedWords literalRegExp ''concatenate'' ''substr:cat'' = [''substr:cat'']"
  using word_rule_and_substr_rule_on_cat [of literalRegExp] by simp

text \<open>
  Claim C9. A line of the rule text that carries an invalid regular expression (the
  constructor rejects the pattern that \<open>parseRule\<close> hands to it, as it does for unbalanced
  parentheses) is dropped silently: \<open>parseRule\<close> returns no rule for it, the rules built
  from the lines are the same with the line and without it, and the line is in no result
  of \<open>findBlockedWords\<close>, whatever the prompt and the rest of the rule text.
  \<open>findBlockedWords\<close> has no error result at all: the only exception its rule parsing can
  raise is the one caught in \<open>buildRegexRule\<close>.
\<close>

theorem invalid_regex_line_dropped:
  assumes "regexRequest line = Some (pattern, flags)" and "ctor pattern flags = None"
  shows "parseRule ctor line = None
    \<and> List.map_filter (parseRule ctor) (before @ line # after)
        = List.map_filter (parseRule ctor) (before @ after)
    \<and> line \<notin> set (findBlockedWords ctor prompt rawWords)
    \<and> trim line \<notin> set (findBlockedWords ctor prompt rawWords)"
proof -
  have none: "parseRule ctor line = None"
    using assms by (rule regexRequest_rejected)
  then have none': "parseRule ctor (trim line) = None"
    by (simp add: parseRule_trim)
  have same: "List.map_filter (parseRule ctor) (before @ line # after)
                = List.map_filter (parseRule ctor) (before @ after)"
    using none by (simp add: List.map_filter_def)
  have "\<not> lineMatches ctor prompt l" if "parseRule ctor l = None" for l
    using that by (simp add: lineMatches_def)
  then have "l \<notin> set (findBlockedWords ctor prompt rawWords)" if "parseRule ctor l = None" for l
    using that matchedLines_subset [of l ctor prompt rawWords]
    by (auto simp: findBlockedWords_eq split: if_splits)
  with none none' same show ?thesis by blast
qed

theorem invalid_regex_line_dropped_witness:
  "regexRequest ''re:(cat'' = Some (''(cat'', ''iu'')
   \<and> literalRegExp ''(cat'' ''iu'' = None
   \<and> parseRule literalRegExp ''re:(cat'' = None
   \<and> ''re:(cat'' \<notin> set (findBlockedWords literalRegExp ''the (cat sat''
                            (''re:(cat'' @ [CHR 0x0A] @ ''re:sat''))
   \<and> findBlockedWords literalRegExp ''the (cat sat'' (''re:(cat'' @ [CHR 0x0A] @ ''re:sat'')
       = [''re:sat'']"
proof -
  have r: "regexRequest ''re:(cat'' = Some (''(cat'', ''iu'')"
    by code_simp
  have c: "literalRegExp ''(cat'' ''iu'' = None"
    by code_simp
  have v: "findBlockedWords literalRegExp ''the (cat sat'' (''re:(cat'' @ [CHR 0x0A] @ ''re:sat'')
             = [''re:sat'']"
    by code_simp
  show ?thesis
    using invalid_regex_line_dropped
            [where line = "''re:(cat''" and pattern = "''(cat''" and flags = "''iu''"
               and ctor = literalRegExp and prompt = "''the (cat sat''"
               and rawWords = "''re:(cat'' @ [CHR 0x0A] @ ''re:sat''"] r c v
    by simp
qed

section \<open>The claims about the video channel adapter\<close>

text \<open>
  Claim C5. \<open>extractVideoUrlFromText\<close> on the message content
  \<open>{"type":"video","url":"https://x/y.mp4"}\<close> returns \<open>https://x/y.mp4\<close>. On plain
  unmarked text with no URL (no brace, so no JSON envelope; no \<open><\<close>, so no tag; no
  \<open>://\<close>, so no URL and no markdown link) it returns none, and then the external-chat
  path fails: whatever the configuration, \<open>generateViaExternalChat\<close> ends in an error and
  not in a \<open>GenerateResult\<close>, and for a configured channel and a successful answer the
  error is the one that says no video link can be read from the answer.
\<close>

theorem extract_video_url_json_and_plain_text:
  \<open>extractVideoUrlFromText ''{"type":"video","url":"https://x/y.mp4"}'' = Some ''https://x/y.mp4''
   \<and> extractVideoUrlFromText ''a plain sentence with no link in it'' = None
   \<and> (CHR ''{'' \<notin> set content \<and> CHR ''<'' \<notin> set content \<and> \<not> includesStr content ''://''
       \<longrightarrow> extractVideoUrlFromText content = None)
   \<and> ((\<forall>u k p. fetchWithRetry u k p = Inr response)
        \<and> getProp (getProp (getFirst (getProp (rs_json response) ''choices'')) ''message'') ''content''
            = Some (JStr content)
        \<and> extractVideoUrlFromText content = None
       \<longrightarrow> (\<exists>e. generateViaExternalChat fetchWithRetry pricing channel vmodel request = Inl e)
           \<and> (rs_ok response \<and> content \<noteq> []
               \<and> orElse (vm_baseUrl vmodel) (ch_baseUrl channel) \<noteq> []
               \<and> orElse (vm_apiKey vmodel) (ch_apiKey channel) \<noteq> []
              \<longrightarrow> generateViaExternalChat fetchWithRetry pricing channel vmodel request
                    = Inl VideoUrlNotFound))\<close>
proof -
  have a: \<open>extractVideoUrlFromText ''{"type":"video","url":"https://x/y.mp4"}'' = Some ''https://x/y.mp4''\<close>
    by code_simp
  have b: "extractVideoUrlFromText ''a plain sentence with no link in it'' = None"
    by code_simp
  show ?thesis
    using a b plain_text_no_url [of content]
          generate_fails_without_url
            [where fetchWithRetry = fetchWithRetry and response = response and content = content
               and pricing = pricing and channel = channel and vmodel = vmodel and request = request]
    by blast
qed

theorem extract_video_url_json_and_plain_text_witness:
  \<open>CHR ''{'' \<notin> set ''Sorry, I can not make this video.''
   \<and> CHR ''<'' \<notin> set ''Sorry, I can not make this video.''
   \<and> \<not> includesStr ''Sorry, I can not make this video.'' ''://''
   \<and> extractVideoUrlFromText ''Sorry, I can not make this video.'' = None
   \<and> getProp (getProp (getFirst (getProp
         (JSON_parse ''{"choices":[{"message":{"role":"assistant","content":"Sorry, I can not make this video."}}]}'')
         ''choices'')) ''message'') ''content''
       = Some (JStr ''Sorry, I can not make this video.'')
   \<and> generateViaExternalChat
         (\<lambda>u k p. Inr \<lparr> rs_ok = True, rs_status = 200,
                          rs_json = JSON_parse ''{"choices":[{"message":{"role":"assistant","content":"Sorry, I can not make this video."}}]}'' \<rparr>)
         \<lparr> soraVideo10s = 10 :: nat, soraVideo15s = 15, soraVideo25s = 25 \<rparr>
         \<lparr> ch_id = ''c1'', ch_name = ''grok'', ch_type = ''grok2api'',
           ch_baseUrl = ''https://api.example/'', ch_apiKey = ''k'', ch_enabled = True \<rparr>
         \<lparr> vm_apiModel = ''grok-imagine-1.0-video'', vm_baseUrl = [], vm_apiKey = [],
           vm_defaultAspectRatio = ''landscape'', vm_defaultDuration = ''10s'', vm_enabled = True \<rparr>
         \<lparr> rq_prompt = ''a cat'', rq_model = ''sora2-landscape-10s'', rq_modelId = ''m1'',
           rq_aspectRatio = [], rq_duration = [], rq_files = [] \<rparr>
       = Inl VideoUrlNotFound\<close>
proof -
  define content where "content = ''Sorry, I can not make this video.''"
  define response where \<open>response = \<lparr> rs_ok = True, rs_status = 200,
      rs_json = JSON_parse ''{"choices":[{"message":{"role":"assistant","content":"Sorry, I can not make this video."}}]}'' \<rparr>\<close>
  define channel where "channel = \<lparr> ch_id = ''c1'', ch_name = ''grok'', ch_type = ''grok2api'',
           ch_baseUrl = ''https://api.example/'', ch_apiKey = ''k'', ch_enabled = True \<rparr>"
  define vmodel where "vmodel = \<lparr> vm_apiModel = ''grok-imagine-1.0-video'', vm_baseUrl = [], vm_apiKey = [],
           vm_defaultAspectRatio = ''landscape'', vm_defaultDuration = ''10s'', vm_enabled = True \<rparr>"
  have h: "CHR ''{'' \<notin> set content" "CHR ''<'' \<notin> set content" "\<not> includesStr content ''://''"
    unfolding content_def by code_simp+
  have j: "getProp (getProp (getFirst (getProp (rs_json response) ''choices'')) ''message'') ''content''
             = Some (JStr content)"
    unfolding content_def response_def by code_simp
  have k: "rs_ok response" "content \<noteq> []"
          "orElse (vm_baseUrl vmodel) (ch_baseUrl channel) \<noteq> []"
          "orElse (vm_apiKey vmodel) (ch_apiKey channel) \<noteq> []"
    unfolding content_def response_def channel_def vmodel_def orElse_def by simp_all
  note t = extract_video_url_json_and_plain_text
             [where content = content and response = response and channel = channel
                and vmodel = vmodel and fetchWithRetry = "\<lambda>u k p. Inr response"]
  have n: "extractVideoUrlFromText content = None"
    using t h by blast
  have g: "generateViaExternalChat (\<lambda>u k p. Inr response) pricing channel vmodel request
             = Inl VideoUrlNotFound" for pricing :: "nat Pricing" and request
    using t [of pricing request] n j k by blast
  show ?thesis
    using h n j g unfolding content_def response_def channel_def vmodel_def by simp
qed




text \<open>
  Claim C7. The vectors of the model-name mapping:
  \<open>mapFlowModel("i2v-model","portrait","15s")\<close> is \<open>veo_2_1_fast_d_15_i2v_portrait\<close>,
  \<open>mapGrokModel("grok-imagine-1.0-video","landscape","10s")\<close> is
  \<open>grok-imagine-1.0-video-landscape-10s\<close>, and \<open>mapGrokModel\<close> returns a model id that is
  already fully qualified (it holds \<open>grok-imagine-1.0-video-\<close>, in any case) unchanged,
  for every aspect ratio and duration.
\<close>

theorem model_name_mapping_vectors:
  "mapFlowModel ''i2v-model'' ''portrait'' ''15s'' = ''veo_2_1_fast_d_15_i2v_portrait''
   \<and> mapGrokModel ''grok-imagine-1.0-video'' ''landscape'' ''10s''
       = ''grok-imagine-1.0-video-landscape-10s''
   \<and> (includesStr (toLowerCase modelName) ''grok-imagine-1.0-video-''
        \<longrightarrow> mapGrokModel modelName aspectRatio duration = modelName)
   \<and> (orientation \<in> {''portrait'', ''landscape''} \<and> seconds \<in> {''10s'', ''15s''}
        \<longrightarrow> mapGrokModel (''grok-imagine-1.0-video-'' @ orientation @ ''-'' @ seconds)
              aspectRatio duration
            = ''grok-imagine-1.0-video-'' @ orientation @ ''-'' @ seconds)"
proof -
  have v1: "mapFlowModel ''i2v-model'' ''portrait'' ''15s'' = ''veo_2_1_fast_d_15_i2v_portrait''"
    by code_simp
  have v2: "mapGrokModel ''grok-imagine-1.0-video'' ''landscape'' ''10s''
              = ''grok-imagine-1.0-video-landscape-10s''"
    by code_simp
  have pass: "mapGrokModel m a d = m" if "includesStr (toLowerCase m) ''grok-imagine-1.0-video-''"
    for m a d
    using that by (simp add: mapGrokModel_def Let_def)
  have low: "toLowerCase ''grok-imagine-1.0-video-'' = ''grok-imagine-1.0-video-''"
    by code_simp
  have q: "includesStr (toLowerCase (''grok-imagine-1.0-video-'' @ rest)) ''grok-imagine-1.0-video-''"
    for rest
  proof -
    have "toLowerCase (''grok-imagine-1.0-video-'' @ rest)
            = [] @ ''grok-imagine-1.0-video-'' @ toLowerCase rest"
      using low by (simp add: toLowerCase_def)
    then show ?thesis unfolding includesStr_iff by blast
  qed
  show ?thesis
    using v1 v2 pass q [THEN pass] by simp
qed

theorem model_name_mapping_vectors_witness:
  "includesStr (toLowerCase ''Grok-Imagine-1.0-Video-portrait-15s'') ''grok-imagine-1.0-video-''
   \<and> mapGrokModel ''Grok-Imagine-1.0-Video-portrait-15s'' ''landscape'' ''10s''
       = ''Grok-Imagine-1.0-Video-portrait-15s''
   \<and> mapGrokModel ''grok-imagine-1.0-video-landscape-10s'' ''portrait'' ''25s''
       = ''grok-imagine-1.0-video-landscape-10s''"
proof -
  have h: "includesStr (toLowerCase ''Grok-Imagine-1.0-Video-portrait-15s'') ''grok-imagine-1.0-video-''"
    by code_simp
  have a: "mapGrokModel ''Grok-Imagine-1.0-Video-portrait-15s'' ''landscape'' ''10s''
             = ''Grok-Imagine-1.0-Video-portrait-15s''"
    using model_name_mapping_vectors
            [where modelName = "''Grok-Imagine-1.0-Video-portrait-15s''"
               and aspectRatio = "''landscape''" and duration = "''10s''"] h
    by blast
  have b: "mapGrokModel (''grok-imagine-1.0-video-'' @ ''landscape'' @ ''-'' @ ''10s'') ''portrait'' ''25s''
             = ''grok-imagine-1.0-video-'' @ ''landscape'' @ ''-'' @ ''10s''"
    using model_name_mapping_vectors
            [where orientation = "''landscape''" and seconds = "''10s''"
               and aspectRatio = "''portrait''" and duration = "''25s''"]
    by blast
  show ?thesis using h a b by simp
qed

text \<open>
  Claim C10, as amended. For every content that contains an http(s) URL,
  \<open>extractVideoUrlFromText\<close> never returns none. When the earlier steps (the JSON envelope,
  the \<open>video\<close> and \<open>source\<close> tags, the markdown image) give no candidate - for instance
  when the content has no brace, no \<open><\<close> and no \<open>!\<close> - it returns the first such URL,
  whether or not it has a video-like extension or a \<open>video\<close> path segment: the heuristics
  never reject a URL that was found, so only content with no URL at all yields none.
  As the claim is stated it fails: an earlier step that matches wins over the first URL.
\<close>

theorem bare_url_is_never_rejected:
  "(containsUrl content \<longrightarrow> extractVideoUrlFromText content \<noteq> None)
   \<and> ((\<forall>u. parseMediaJsonFromContent (trim content) \<noteq> Some (''video'', u))
        \<and> candidateOf (htmlVideoMatch (trim content)) = None
        \<and> candidateOf (htmlSourceMatch (trim content)) = None
        \<and> candidateOf (markdownVideoMatch (trim content)) = None
       \<longrightarrow> extractVideoUrlFromText content = urlMatch content)
   \<and> (CHR ''{'' \<notin> set content \<and> CHR ''<'' \<notin> set content \<and> CHR ''!'' \<notin> set content
       \<longrightarrow> extractVideoUrlFromText content = urlMatch content)
   \<and> (urlMatch content = None \<longleftrightarrow> \<not> containsUrl content)"
  using extract_some [of content] extract_after_steps [of content] unmarked_steps [of content]
        urlMatch_iff [of content]
  by blast

theorem bare_url_is_never_rejected_witness:
  "CHR ''{'' \<notin> set ''Your clip is ready at https://cdn.example.com/render/8f3a?sig=1 enjoy''
   \<and> CHR ''<'' \<notin> set ''Your clip is ready at https://cdn.example.com/render/8f3a?sig=1 enjoy''
   \<and> CHR ''!'' \<notin> set ''Your clip is ready at https://cdn.example.com/render/8f3a?sig=1 enjoy''
   \<and> urlMatch ''Your clip is ready at https://cdn.example.com/render/8f3a?sig=1 enjoy''
       = Some ''https://cdn.example.com/render/8f3a?sig=1''
   \<and> \<not> hasVideoExtension ''https://cdn.example.com/render/8f3a?sig=1''
   \<and> \<not> includesStr ''https://cdn.example.com/render/8f3a?sig=1'' ''video''
   \<and> extractVideoUrlFromText ''Your clip is ready at https://cdn.example.com/render/8f3a?sig=1 enjoy''
       = Some ''https://cdn.example.com/render/8f3a?sig=1''
   \<and> containsUrl ''Your clip is ready at https://cdn.example.com/render/8f3a?sig=1 enjoy''"
proof -
  define c where "c = ''Your clip is ready at https://cdn.example.com/render/8f3a?sig=1 enjoy''"
  have h: "CHR ''{'' \<notin> set c" "CHR ''<'' \<notin> set c" "CHR ''!'' \<notin> set c"
    unfolding c_def by simp_all
  have u: "urlMatch c = Some ''https://cdn.example.com/render/8f3a?sig=1''"
    unfolding c_def by code_simp
  have e: "\<not> hasVideoExtension ''https://cdn.example.com/render/8f3a?sig=1''"
          "\<not> includesStr ''https://cdn.example.com/render/8f3a?sig=1'' ''video''"
    by code_simp+
  have "extractVideoUrlFromText c = urlMatch c" "containsUrl c"
    using bare_url_is_never_rejected [of c] h u by auto
  with h u e show ?thesis unfolding c_def by simp
qed

theorem first_url_counterexample:
  "containsUrl ''See https://a.example/doc for details ![clip](https://b.example/v.mp4)''
   \<and> urlMatch ''See https://a.example/doc for details ![clip](https://b.example/v.mp4)''
       = Some ''https://a.example/doc''
   \<and> extractVideoUrlFromText ''See https://a.example/doc for details ![clip](https://b.example/v.mp4)''
       = Some ''https://b.example/v.mp4''
   \<and> extractVideoUrlFromText ''See https://a.example/doc for details ![clip](https://b.example/v.mp4)''
       \<noteq> urlMatch ''See https://a.example/doc for details ![clip](https://b.example/v.mp4)''"
proof -
  define c where "c = ''See https://a.example/doc for details ![clip](https://b.example/v.mp4)''"
  have u: "urlMatch c = Some ''https://a.example/doc''"
    unfolding c_def by code_simp
  have e: "extractVideoUrlFromText c = Some ''https://b.example/v.mp4''"
    unfolding c_def by code_simp
  have "containsUrl c"
    using u urlMatch_iff [of c] by simp
  with u e show ?thesis unfolding c_def by simp
qed

section \<open>The claims about the prompt processor\<close>

text \<open>
  Claim C4, as amended. On a successful chat-completion response from which the first
  version extracts an empty content, a completion of the first version fails with the error
  \<open>Prompt processor returned empty content\<close>; on one from which the second version
  extracts an empty content, a completion of the second version returns its input prompt
  unchanged. So when every model is available and enabled and every response is read as
  empty by both, for a prompt that is not blank, with a step enabled and a valid
  configuration, the first \<open>processVideoPrompt\<close> fails where the second returns the
  trimmed original, and the two differ. The two versions return the same when every model is
  available and enabled, every response is successful, and both versions extract the same
  non-empty text from it; they do extract the same text when \<open>choices\<close> is an array whose
  first element has a \<open>message\<close> whose \<open>content\<close> is a string from which a non-empty
  prompt is extracted. As the claim is stated it fails: the two versions read a content given
  as an array of parts differently, the second trimming each part, so both can extract a
  non-empty text and still return different prompts.
\<close>

theorem empty_content_fatal_or_passed_through:
  "(getChatModel env modelId = Some model \<and> cm_enabled model
      \<and> fetch env (completionRequest model instruction inputPrompt) = Inr response
      \<and> rs_ok response
      \<and> extractFinalPrompt (readContent1 (bodyOf response)) = []
     \<longrightarrow> runPromptCompletion1 env modelId instruction inputPrompt
           = (Inl (Error EMPTY_PROMPT_PROCESSOR_ERROR),
              [completionRequest model instruction inputPrompt]))
   \<and> (getChatModel env modelId = Some model \<and> cm_enabled model
      \<and> fetch env (completionRequest model instruction inputPrompt) = Inr response
      \<and> rs_ok response
      \<and> extractFinalPrompt (extractCompletionContent (bodyOf response)) = []
     \<longrightarrow> runPromptCompletionWithFallback env modelId instruction inputPrompt
           = (Inr inputPrompt, [completionRequest model instruction inputPrompt]))
   \<and> ((\<forall>modelId. \<exists>model. getChatModel env modelId = Some model \<and> cm_enabled model)
       \<and> (\<forall>request. \<exists>response. fetch env request = Inr response \<and> rs_ok response
            \<and> extractFinalPrompt (readContent1 (bodyOf response)) = []
            \<and> extractFinalPrompt (extractCompletionContent (bodyOf response)) = [])
       \<and> trim original \<noteq> [] \<and> promptProcessing env = Some config
       \<and> (filterEnabled config \<or> translateEnabled config)
       \<and> validateOptions (normalizeOptions config) = Inr ()
      \<longrightarrow> fst (processVideoPrompt1 env original) = Inl (Error EMPTY_PROMPT_PROCESSOR_ERROR)
          \<and> (\<exists>r. fst (processVideoPrompt2 env original) = Inr r
                  \<and> originalPrompt r = trim original \<and> processedPrompt r = trim original)
          \<and> processVideoPrompt1 env original \<noteq> processVideoPrompt2 env original)
   \<and> ((\<forall>modelId. \<exists>model. getChatModel env modelId = Some model \<and> cm_enabled model)
       \<and> (\<forall>request. \<exists>response. fetch env request = Inr response \<and> rs_ok response
            \<and> extractFinalPrompt (extractCompletionContent (bodyOf response))
                = extractFinalPrompt (readContent1 (bodyOf response))
            \<and> extractFinalPrompt (readContent1 (bodyOf response)) \<noteq> [])
      \<longrightarrow> processVideoPrompt1 env original = processVideoPrompt2 env original)
   \<and> (getProp (Some data) ''choices'' = Some (JArr (choice # rest))
       \<and> getProp (Some choice) ''message'' = Some reply
       \<and> getProp (Some reply) ''content'' = Some (JStr s)
       \<and> extractFinalPrompt s \<noteq> []
      \<longrightarrow> extractFinalPrompt (readContent1 data) = extractFinalPrompt s
          \<and> extractFinalPrompt (extractCompletionContent data) = extractFinalPrompt s)
   \<and> ((\<forall>modelId. \<exists>model. getChatModel env modelId = Some model \<and> cm_enabled model)
       \<and> (\<forall>request. \<exists>response choice rest reply s.
              fetch env request = Inr response \<and> rs_ok response
              \<and> getProp (Some (bodyOf response)) ''choices'' = Some (JArr (choice # rest))
              \<and> getProp (Some choice) ''message'' = Some reply
              \<and> getProp (Some reply) ''content'' = Some (JStr s)
              \<and> extractFinalPrompt s \<noteq> [])
      \<longrightarrow> processVideoPrompt1 env original = processVideoPrompt2 env original)
   \<and> EMPTY_PROMPT_PROCESSOR_ERROR = ''Prompt processor returned empty content''"
proof (intro conjI impI)
  show "EMPTY_PROMPT_PROCESSOR_ERROR = ''Prompt processor returned empty content''"
    by (rule EMPTY_PROMPT_PROCESSOR_ERROR_def)
qed (blast intro: run1_on_empty fallback_on_empty variants_agree_on_same_text
                  variants_agree_on_string_content
           dest: variants_differ_on_empty string_content_same)+

theorem empty_content_fatal_or_passed_through_witness:
  \<open>runPromptCompletion1
       (answeringEnv (JSON_parse ''{"choices":[{"message":{"role":"assistant","content":"   "}}]}'') filterOnly)
       ''safety-model'' ''Rewrite the prompt.'' ''a cat on a roof''
     = (Inl (Error ''Prompt processor returned empty content''),
        [\<lparr> cr_url = ''https://llm.example/v1/chat/completions'', cr_authorization = ''Bearer key'',
           cr_model = ''safety-model'', cr_system = ''Rewrite the prompt.'',
           cr_user = ''a cat on a roof'', cr_max_tokens = 2048 \<rparr>])
   \<and> runPromptCompletionWithFallback
       (answeringEnv (JSON_parse ''{"choices":[{"message":{"role":"assistant","content":"   "}}]}'') filterOnly)
       ''safety-model'' ''Rewrite the prompt.'' ''a cat on a roof''
     = (Inr ''a cat on a roof'',
        [\<lparr> cr_url = ''https://llm.example/v1/chat/completions'', cr_authorization = ''Bearer key'',
           cr_model = ''safety-model'', cr_system = ''Rewrite the prompt.'',
           cr_user = ''a cat on a roof'', cr_max_tokens = 2048 \<rparr>])
   \<and> fst (processVideoPrompt1
          (answeringEnv (JSON_parse ''{"choices":[{"message":{"role":"assistant","content":"   "}}]}'') filterOnly)
          ''a cat on a roof'')
     = Inl (Error ''Prompt processor returned empty content'')
   \<and> fst (processVideoPrompt2
          (answeringEnv (JSON_parse ''{"choices":[{"message":{"role":"assistant","content":"   "}}]}'') filterOnly)
          ''a cat on a roof'')
     = Inr \<lparr> originalPrompt = ''a cat on a roof'', filteredPrompt = Some ''a cat on a roof'',
             translatedPrompt = None, processedPrompt = ''a cat on a roof'' \<rparr>
   \<and> extractFinalPrompt (readContent1 (JObj [(''choices'', JArr [JObj [(''message'',
          JObj [(''role'', JStr ''assistant''), (''content'', JStr '' A calm sea at dusk. '')])]])]))
     = ''A calm sea at dusk.''
   \<and> extractFinalPrompt (extractCompletionContent (JObj [(''choices'', JArr [JObj [(''message'',
          JObj [(''role'', JStr ''assistant''), (''content'', JStr '' A calm sea at dusk. '')])]])]))
     = ''A calm sea at dusk.''
   \<and> processVideoPrompt1
        (answeringEnv (JSON_parse ''{"choices":[{"message":{"role":"assistant","content":" A calm sea at dusk. "}}]}'') filterOnly)
        ''a cat on a roof''
     = processVideoPrompt2
        (answeringEnv (JSON_parse ''{"choices":[{"message":{"role":"assistant","content":" A calm sea at dusk. "}}]}'') filterOnly)
        ''a cat on a roof''
   \<and> fst (processVideoPrompt2
          (answeringEnv (JSON_parse ''{"choices":[{"message":{"role":"assistant","content":" A calm sea at dusk. "}}]}'') filterOnly)
          ''a cat on a roof'')
     = Inr \<lparr> originalPrompt = ''a cat on a roof'', filteredPrompt = Some ''A calm sea at dusk.'',
             translatedPrompt = None, processedPrompt = ''A calm sea at dusk.'' \<rparr>\<close>
proof -
  define blank where \<open>blank = JSON_parse ''{"choices":[{"message":{"role":"assistant","content":"   "}}]}''\<close>
  define answer where \<open>answer = JSON_parse ''{"choices":[{"message":{"role":"assistant","content":" A calm sea at dusk. "}}]}''\<close>
  define reply where "reply = JObj [(''role'', JStr ''assistant''), (''content'', JStr '' A calm sea at dusk. '')]"
  define choice where "choice = JObj [(''message'', reply)]"
  define data where "data = JObj [(''choices'', JArr [choice])]"
  define model where "model = \<lparr> cm_enabled = True, cm_apiUrl = ''https://llm.example/v1/chat/completions'',
            cm_apiKey = ''key'', cm_modelId = ''safety-model'', cm_maxTokens = 0 \<rparr>"
  define request where "request = \<lparr> cr_url = ''https://llm.example/v1/chat/completions'',
           cr_authorization = ''Bearer key'',
           cr_model = ''safety-model'', cr_system = ''Rewrite the prompt.'',
           cr_user = ''a cat on a roof'', cr_max_tokens = 2048 \<rparr>"
  have rq: "completionRequest model ''Rewrite the prompt.'' ''a cat on a roof'' = request"
    unfolding model_def request_def by code_simp
  have md: "getChatModel (answeringEnv body filterOnly) ''safety-model'' = Some model" "cm_enabled model" for body
    unfolding model_def by (simp_all add: answeringEnv_def sampleChatModel_def)
  have b: "rs_ok \<lparr> rs_ok = True, rs_status = 200, rs_json = blank \<rparr>"
    "extractFinalPrompt (readContent1 (bodyOf \<lparr> rs_ok = True, rs_status = 200, rs_json = blank \<rparr>)) = []"
    "extractFinalPrompt (extractCompletionContent
                (bodyOf \<lparr> rs_ok = True, rs_status = 200, rs_json = blank \<rparr>)) = []"
    unfolding blank_def by code_simp+
  have a: "answer = Some data"
    unfolding answer_def data_def choice_def reply_def by code_simp
  have t: "rs_ok \<lparr> rs_ok = True, rs_status = 200, rs_json = answer \<rparr>"
    "getProp (Some (bodyOf \<lparr> rs_ok = True, rs_status = 200, rs_json = answer \<rparr>)) ''choices''
       = Some (JArr (choice # []))"
    "getProp (Some choice) ''message'' = Some reply"
    "getProp (Some reply) ''content'' = Some (JStr '' A calm sea at dusk. '')"
    "extractFinalPrompt '' A calm sea at dusk. '' \<noteq> []"
    "extractFinalPrompt '' A calm sea at dusk. '' = ''A calm sea at dusk.''"
    "getProp (Some data) ''choices'' = Some (JArr (choice # []))"
    unfolding a unfolding data_def choice_def reply_def by code_simp+
  have fb: "\<forall>request. \<exists>response. fetch (answeringEnv blank filterOnly) request = Inr response
              \<and> rs_ok response
              \<and> extractFinalPrompt (readContent1 (bodyOf response)) = []
              \<and> extractFinalPrompt (extractCompletionContent (bodyOf response)) = []"
    using b by (simp add: answeringEnv_fetch)
  have ft: "\<forall>request. \<exists>response choice rest reply s.
              fetch (answeringEnv answer filterOnly) request = Inr response \<and> rs_ok response
              \<and> getProp (Some (bodyOf response)) ''choices'' = Some (JArr (choice # rest))
              \<and> getProp (Some choice) ''message'' = Some reply
              \<and> getProp (Some reply) ''content'' = Some (JStr s)
              \<and> extractFinalPrompt s \<noteq> []"
    using t(1-5) answeringEnv_fetch [of answer filterOnly] by blast
  have o: "trim ''a cat on a roof'' \<noteq> []" "filterEnabled filterOnly \<or> translateEnabled filterOnly"
    "validateOptions (normalizeOptions filterOnly) = Inr ()"
    by code_simp+
  note th = empty_content_fatal_or_passed_through
              [where config = filterOnly and original = "''a cat on a roof''"
                 and modelId = "''safety-model''" and model = model
                 and instruction = "''Rewrite the prompt.''" and inputPrompt = "''a cat on a roof''"
                 and data = data and choice = choice and rest = "[]" and reply = reply
                 and s = "'' A calm sea at dusk. ''"]
  note tb = th [where env = "answeringEnv blank filterOnly"
                  and response = "\<lparr> rs_ok = True, rs_status = 200, rs_json = blank \<rparr>"]
  note ta = th [where env = "answeringEnv answer filterOnly"
                  and response = "\<lparr> rs_ok = True, rs_status = 200, rs_json = answer \<rparr>"]
  have e: "EMPTY_PROMPT_PROCESSOR_ERROR = ''Prompt processor returned empty content''"
    by (rule EMPTY_PROMPT_PROCESSOR_ERROR_def)
  note b1 = tb [THEN conjunct1, rule_format]
  note b2 = tb [THEN conjunct2, THEN conjunct1, rule_format]
  note b3 = tb [THEN conjunct2, THEN conjunct2, THEN conjunct1, rule_format]
  note a5 = ta [THEN conjunct2, THEN conjunct2, THEN conjunct2, THEN conjunct2, THEN conjunct1,
                rule_format]
  note a6 = ta [THEN conjunct2, THEN conjunct2, THEN conjunct2, THEN conjunct2, THEN conjunct2,
                THEN conjunct1, rule_format]
  have 1: "runPromptCompletion1 (answeringEnv blank filterOnly) ''safety-model''
             ''Rewrite the prompt.'' ''a cat on a roof''
           = (Inl (Error EMPTY_PROMPT_PROCESSOR_ERROR), [request])"
    unfolding rq [symmetric]
    by (rule b1) (simp add: md b answeringEnv_fetch)
  have 2: "runPromptCompletionWithFallback (answeringEnv blank filterOnly) ''safety-model''
             ''Rewrite the prompt.'' ''a cat on a roof''
           = (Inr ''a cat on a roof'', [request])"
    unfolding rq [symmetric]
    by (rule b2) (simp add: md b answeringEnv_fetch)
  have 3: "fst (processVideoPrompt1 (answeringEnv blank filterOnly) ''a cat on a roof'')
             = Inl (Error EMPTY_PROMPT_PROCESSOR_ERROR)
           \<and> (\<exists>r. fst (processVideoPrompt2 (answeringEnv blank filterOnly) ''a cat on a roof'') = Inr r
                  \<and> originalPrompt r = trim ''a cat on a roof''
                  \<and> processedPrompt r = trim ''a cat on a roof'')
           \<and> processVideoPrompt1 (answeringEnv blank filterOnly) ''a cat on a roof''
               \<noteq> processVideoPrompt2 (answeringEnv blank filterOnly) ''a cat on a roof''"
    by (rule b3) (intro conjI answeringEnv_models fb o answeringEnv_promptProcessing)
  have 4: "fst (processVideoPrompt2 (answeringEnv blank filterOnly) ''a cat on a roof'')
     = Inr \<lparr> originalPrompt = ''a cat on a roof'', filteredPrompt = Some ''a cat on a roof'',
             translatedPrompt = None, processedPrompt = ''a cat on a roof'' \<rparr>"
    unfolding blank_def by code_simp
  have 5: "extractFinalPrompt (readContent1 data) = extractFinalPrompt '' A calm sea at dusk. ''
           \<and> extractFinalPrompt (extractCompletionContent data)
               = extractFinalPrompt '' A calm sea at dusk. ''"
    by (rule a5) (intro conjI t(7) t(3) t(4) t(5))
  have 6: "processVideoPrompt1 (answeringEnv answer filterOnly) ''a cat on a roof''
             = processVideoPrompt2 (answeringEnv answer filterOnly) ''a cat on a roof''"
    by (rule a6) (intro conjI answeringEnv_models ft)
  have 7: "fst (processVideoPrompt2 (answeringEnv answer filterOnly) ''a cat on a roof'')
     = Inr \<lparr> originalPrompt = ''a cat on a roof'', filteredPrompt = Some ''A calm sea at dusk.'',
             translatedPrompt = None, processedPrompt = ''A calm sea at dusk.'' \<rparr>"
    unfolding answer_def by code_simp
  show ?thesis
    using 1 2 3 [THEN conjunct1] 4 5 [unfolded t(6), THEN conjunct1]
          5 [unfolded t(6), THEN conjunct2] 6 7
    unfolding blank_def answer_def request_def data_def choice_def reply_def e
    by - (intro conjI; assumption)
qed

theorem parts_answer_counterexample:
  \<open>extractFinalPrompt (readContent1 (bodyOf \<lparr> rs_ok = True, rs_status = 200, rs_json =
       JSON_parse ''{"choices":[{"message":{"role":"assistant","content":[{"type":"text","text":"A calm sea. "},{"type":"text","text":"Sunset."}]}}]}'' \<rparr>))
     = ''A calm sea. '' @ lineFeed @ ''Sunset.''
   \<and> extractFinalPrompt (extractCompletionContent (bodyOf \<lparr> rs_ok = True, rs_status = 200, rs_json =
       JSON_parse ''{"choices":[{"message":{"role":"assistant","content":[{"type":"text","text":"A calm sea. "},{"type":"text","text":"Sunset."}]}}]}'' \<rparr>))
     = ''A calm sea.'' @ lineFeed @ ''Sunset.''
   \<and> fst (processVideoPrompt1
          (answeringEnv (JSON_parse ''{"choices":[{"message":{"role":"assistant","content":[{"type":"text","text":"A calm sea. "},{"type":"text","text":"Sunset."}]}}]}'') filterOnly)
          ''sea'')
     = Inr \<lparr> originalPrompt = ''sea'', filteredPrompt = Some (''A calm sea. '' @ lineFeed @ ''Sunset.''),
             translatedPrompt = None, processedPrompt = ''A calm sea. '' @ lineFeed @ ''Sunset.'' \<rparr>
   \<and> fst (processVideoPrompt2
          (answeringEnv (JSON_parse ''{"choices":[{"message":{"role":"assistant","content":[{"type":"text","text":"A calm sea. "},{"type":"text","text":"Sunset."}]}}]}'') filterOnly)
          ''sea'')
     = Inr \<lparr> originalPrompt = ''sea'', filteredPrompt = Some (''A calm sea.'' @ lineFeed @ ''Sunset.''),
             translatedPrompt = None, processedPrompt = ''A calm sea.'' @ lineFeed @ ''Sunset.'' \<rparr>
   \<and> processVideoPrompt1
          (answeringEnv (JSON_parse ''{"choices":[{"message":{"role":"assistant","content":[{"type":"text","text":"A calm sea. "},{"type":"text","text":"Sunset."}]}}]}'') filterOnly)
          ''sea''
     \<noteq> processVideoPrompt2
          (answeringEnv (JSON_parse ''{"choices":[{"message":{"role":"assistant","content":[{"type":"text","text":"A calm sea. "},{"type":"text","text":"Sunset."}]}}]}'') filterOnly)
          ''sea''\<close>
  by code_simp

text \<open>
  Claim C8, as amended. With translation enabled, when the translate model id or the filter
  model id is blank, or the translate or the filter instruction is set to a text of white
  space only, \<open>processVideoPrompt\<close> on a prompt that is not blank ends, in both versions,
  with the error of \<open>validateOptions\<close>, and no request has been sent to a model. These
  are the only configurations with translation enabled that validation refuses: an
  instruction that is unset or empty is replaced by the default instruction and passes. A
  prompt that is blank is returned as the empty prompt, without validation and without a
  request. As the claim is stated it fails: with both models set and the instructions not
  configured the prompt is translated and filtered, and the non-empty prompt of one space is
  returned as it is under a configuration without a filter model.
\<close>

theorem translation_without_models_fails_before_any_call:
  assumes "promptProcessing env = Some config" and "translateEnabled config"
  shows
    "(trim original \<noteq> []
        \<and> (trim (translateModelId config) = [] \<or> trim (filterModelId config) = []
            \<or> (translatePrompt config \<noteq> [] \<and> trim (translatePrompt config) = [])
            \<or> (filterPrompt config \<noteq> [] \<and> trim (filterPrompt config) = []))
       \<longrightarrow> (\<exists>msg. validateOptions (normalizeOptions config) = Inl (Error msg)
              \<and> processVideoPrompt1 env original = (Inl (Error msg), [])
              \<and> processVideoPrompt2 env original = (Inl (Error msg), [])))
     \<and> ((validateOptions (normalizeOptions config) = Inr ())
          = (trim (translateModelId config) \<noteq> [] \<and> trim (filterModelId config) \<noteq> []
             \<and> (translatePrompt config = [] \<or> trim (translatePrompt config) \<noteq> [])
             \<and> (filterPrompt config = [] \<or> trim (filterPrompt config) \<noteq> [])))
     \<and> (trim original = []
          \<longrightarrow> processVideoPrompt1 env original
                = (Inr \<lparr> originalPrompt = [], filteredPrompt = None, translatedPrompt = None,
                         processedPrompt = [] \<rparr>, [])
              \<and> processVideoPrompt2 env original
                = (Inr \<lparr> originalPrompt = [], filteredPrompt = None, translatedPrompt = None,
                         processedPrompt = [] \<rparr>, []))"
proof -
  have a: "\<exists>msg. validateOptions (normalizeOptions config) = Inl (Error msg)
              \<and> processVideoPrompt1 env original = (Inl (Error msg), [])
              \<and> processVideoPrompt2 env original = (Inl (Error msg), [])"
    if o: "trim original \<noteq> []"
      and b: "trim (translateModelId config) = [] \<or> trim (filterModelId config) = []
            \<or> (translatePrompt config \<noteq> [] \<and> trim (translatePrompt config) = [])
            \<or> (filterPrompt config \<noteq> [] \<and> trim (filterPrompt config) = [])"
  proof -
    have b': "trim (translateModelId config) = []
         \<or> trim (orElse (translatePrompt config) DEFAULT_TRANSLATE_PROMPT) = []
         \<or> trim (filterModelId config) = []
         \<or> trim (orElse (filterPrompt config) DEFAULT_FILTER_PROMPT) = []"
      using b unfolding instruction_blank_iff by blast
    obtain m1 where 1: "validateOptions (normalizeOptions config) = Inl (Error m1)"
        "processVideoPromptWith runPromptCompletion1 env original = (Inl (Error m1), [])"
      using validation_fails_first [OF o assms b'] by blast
    obtain m2 where 2: "validateOptions (normalizeOptions config) = Inl (Error m2)"
        "processVideoPromptWith runPromptCompletionWithFallback env original = (Inl (Error m2), [])"
      using validation_fails_first [OF o assms b'] by blast
    from 1(1) 2(1) have "m1 = m2" by simp
    with 1 2 show ?thesis
      unfolding processVideoPrompt1_def processVideoPrompt2_def by blast
  qed
  have t: "translateEnabled (normalizeOptions config)"
    using assms(2) by (simp add: normalizeOptions_def)
  have c: "(validateOptions (normalizeOptions config) = Inr ())
          = (trim (translateModelId config) \<noteq> [] \<and> trim (filterModelId config) \<noteq> []
             \<and> (translatePrompt config = [] \<or> trim (translatePrompt config) \<noteq> [])
             \<and> (filterPrompt config = [] \<or> trim (filterPrompt config) \<noteq> []))"
    unfolding validateOptions_translate_ok [OF t]
    using instruction_blank_iff [of config] by (auto simp: normalizeOptions_def)
  have d: "processVideoPrompt1 env original
                = (Inr \<lparr> originalPrompt = [], filteredPrompt = None, translatedPrompt = None,
                         processedPrompt = [] \<rparr>, [])
              \<and> processVideoPrompt2 env original
                = (Inr \<lparr> originalPrompt = [], filteredPrompt = None, translatedPrompt = None,
                         processedPrompt = [] \<rparr>, [])"
    if "trim original = []"
    using that unfolding processVideoPrompt1_def processVideoPrompt2_def
    by (simp add: blank_prompt_returned)
  show ?thesis
    using a c d by blast
qed

theorem translation_without_models_fails_before_any_call_witness:
  "processVideoPrompt1 (answeringEnv None translateWithoutFilterModel) ''a cat on a roof''
       = (Inl (Error ''Prompt translation requires filter model and filter prompt to sanitize translated content''), [])
   \<and> processVideoPrompt2 (answeringEnv None translateWithoutFilterModel) ''a cat on a roof''
       = (Inl (Error ''Prompt translation requires filter model and filter prompt to sanitize translated content''), [])
   \<and> processVideoPrompt1 (answeringEnv None translateBlankInstruction) ''a cat on a roof''
       = (Inl (Error ''Prompt translation is enabled but translation model or prompt is not configured''), [])
   \<and> processVideoPrompt2 (answeringEnv None translateBlankInstruction) ''a cat on a roof''
       = (Inl (Error ''Prompt translation is enabled but translation model or prompt is not configured''), [])
   \<and> validateOptions (normalizeOptions translateUnsetInstructions) = Inr ()
   \<and> processVideoPrompt1 (answeringEnv None translateWithoutFilterModel) ''   ''
       = (Inr \<lparr> originalPrompt = [], filteredPrompt = None, translatedPrompt = None,
                processedPrompt = [] \<rparr>, [])"
proof -
  have p: "promptProcessing (answeringEnv None config) = Some config" for config
    by (simp add: answeringEnv_def)
  have e: "translateEnabled translateWithoutFilterModel" "translateEnabled translateBlankInstruction"
    "translateEnabled translateUnsetInstructions"
    by code_simp+
  have o: "trim ''a cat on a roof'' \<noteq> []" "trim ''   '' = []"
    by code_simp+
  have h1: "trim (filterModelId translateWithoutFilterModel) = []"
    by code_simp
  have h2: "translatePrompt translateBlankInstruction \<noteq> [] \<and> trim (translatePrompt translateBlankInstruction) = []"
    by code_simp
  have h3: "trim (translateModelId translateUnsetInstructions) \<noteq> []
            \<and> trim (filterModelId translateUnsetInstructions) \<noteq> []
            \<and> translatePrompt translateUnsetInstructions = []
            \<and> filterPrompt translateUnsetInstructions = []"
    by code_simp
  have v1: "validateOptions (normalizeOptions translateWithoutFilterModel)
             = Inl (Error ''Prompt translation requires filter model and filter prompt to sanitize translated content'')"
    by code_simp
  have v2: "validateOptions (normalizeOptions translateBlankInstruction)
             = Inl (Error ''Prompt translation is enabled but translation model or prompt is not configured'')"
    by code_simp
  note th = translation_without_models_fails_before_any_call
  obtain m1 where m1: "validateOptions (normalizeOptions translateWithoutFilterModel) = Inl (Error m1)"
      "processVideoPrompt1 (answeringEnv None translateWithoutFilterModel) ''a cat on a roof'' = (Inl (Error m1), [])"
      "processVideoPrompt2 (answeringEnv None translateWithoutFilterModel) ''a cat on a roof'' = (Inl (Error m1), [])"
    using th [OF p e(1), where original = "''a cat on a roof''"] o(1) h1 by blast
  obtain m2 where m2: "validateOptions (normalizeOptions translateBlankInstruction) = Inl (Error m2)"
      "processVideoPrompt1 (answeringEnv None translateBlankInstruction) ''a cat on a roof'' = (Inl (Error m2), [])"
      "processVideoPrompt2 (answeringEnv None translateBlankInstruction) ''a cat on a roof'' = (Inl (Error m2), [])"
    using th [OF p e(2), where original = "''a cat on a roof''"] o(1) h2 by blast
  have 3: "validateOptions (normalizeOptions translateUnsetInstructions) = Inr ()"
    using th [OF p e(3), where original = "''a cat on a roof''"] h3 by blast
  have 4: "processVideoPrompt1 (answeringEnv None translateWithoutFilterModel) ''   ''
       = (Inr \<lparr> originalPrompt = [], filteredPrompt = None, translatedPrompt = None,
                processedPrompt = [] \<rparr>, [])"
    using th [OF p e(1), where original = "''   ''"] o(2) by blast
  from m1(1) v1 have n1: "m1 = ''Prompt translation requires filter model and filter prompt to sanitize translated content''"
    by (simp only: sum.inject error.inject)
  from m2(1) v2 have n2: "m2 = ''Prompt translation is enabled but translation model or prompt is not configured''"
    by (simp only: sum.inject error.inject)
  show ?thesis
    using m1(2,3) m2(2,3) 3 4 unfolding n1 n2 by (simp only: simp_thms)
qed

theorem unset_instructions_counterexample:
  \<open>translateEnabled translateUnsetInstructions
   \<and> translatePrompt translateUnsetInstructions = []
   \<and> filterPrompt translateUnsetInstructions = []
   \<and> fst (processVideoPrompt1
            (answeringEnv (JSON_parse ''{"choices":[{"message":{"role":"assistant","content":"A cat."}}]}'')
               translateUnsetInstructions)
            ''a cat on a roof'')
       = Inr \<lparr> originalPrompt = ''a cat on a roof'', filteredPrompt = Some ''A cat.'',
               translatedPrompt = Some ''A cat.'', processedPrompt = ''A cat.'' \<rparr>
   \<and> map cr_model (snd (processVideoPrompt1
            (answeringEnv (JSON_parse ''{"choices":[{"message":{"role":"assistant","content":"A cat."}}]}'')
               translateUnsetInstructions)
            ''a cat on a roof''))
       = [''translator'', ''safety-model'']
   \<and> map cr_system (snd (processVideoPrompt1
            (answeringEnv (JSON_parse ''{"choices":[{"message":{"role":"assistant","content":"A cat."}}]}'')
               translateUnsetInstructions)
            ''a cat on a roof''))
       = [DEFAULT_TRANSLATE_PROMPT, DEFAULT_FILTER_PROMPT]
   \<and> processVideoPrompt2
            (answeringEnv (JSON_parse ''{"choices":[{"message":{"role":"assistant","content":"A cat."}}]}'')
               translateUnsetInstructions)
            ''a cat on a roof''
       = processVideoPrompt1
            (answeringEnv (JSON_parse ''{"choices":[{"message":{"role":"assistant","content":"A cat."}}]}'')
               translateUnsetInstructions)
            ''a cat on a roof''
   \<and> translateEnabled translateWithoutFilterModel
   \<and> trim (filterModelId translateWithoutFilterModel) = []
   \<and> '' '' \<noteq> []
   \<and> processVideoPrompt1 (answeringEnv None translateWithoutFilterModel) '' ''
       = (Inr \<lparr> originalPrompt = [], filteredPrompt = None, translatedPrompt = None,
                processedPrompt = [] \<rparr>, [])
   \<and> processVideoPrompt2 (answeringEnv None translateWithoutFilterModel) '' ''
       = (Inr \<lparr> originalPrompt = [], filteredPrompt = None, translatedPrompt = None,
                processedPrompt = [] \<rparr>, [])\<close>
  by code_simp

end
